theory Spec2Isabelle
  imports Main "HOL-Library.Word"
begin

unbundle bit_operations_syntax

section \<open>Strings as the Go code sees them\<close>

text \<open>
  The translator is a Go program that works on byte strings. A Go \<open>string\<close> is modelled
  as a \<open>string\<close> (a list of \<open>char\<close>, one per byte). The functions of the Go standard library
  that the program calls (\<open>strings.Split\<close>, \<open>strings.HasPrefix\<close>, \<open>strings.Contains\<close>,
  \<open>strings.TrimSpace\<close>, \<open>strings.TrimSuffix\<close>, \<open>strings.ToLower\<close>, \<open>strings.ToUpper\<close>,
  \<open>strings.ReplaceAll\<close>, \<open>strconv.Atoi\<close>, \<open>fmt.Sprintf\<close> with \<open>%d\<close> and \<open>%s\<close>,
  \<open>filepath.Base\<close>, \<open>filepath.Ext\<close>) are written out here after their documented behaviour.
  Text outside ASCII is UTF-8, as Go reads it: \<open>TrimSpace\<close> also removes the Unicode white
  space, and \<open>ToLower\<close> also maps the two characters outside ASCII whose lower case is an
  ASCII letter. \<open>ToUpper\<close> is the ASCII one: the program applies it to ASCII text only (an
  operator name, \<open>_true\<close> or \<open>_false\<close>, and a number).
\<close>

definition HasPrefix :: "string \<Rightarrow> string \<Rightarrow> bool" where
  "HasPrefix s p = (take (length p) s = p)"

definition HasSuffix :: "string \<Rightarrow> string \<Rightarrow> bool" where
  "HasSuffix s p = (length p \<le> length s \<and> drop (length s - length p) s = p)"

definition TrimSuffix :: "string \<Rightarrow> string \<Rightarrow> string" where
  "TrimSuffix s p = (if HasSuffix s p then take (length s - length p) s else s)"

fun Contains :: "string \<Rightarrow> string \<Rightarrow> bool" where
  "Contains [] sub = (sub = [])"
| "Contains (c # cs) sub = (HasPrefix (c # cs) sub \<or> Contains cs sub)"

text \<open>
  \<open>strings.TrimSpace\<close> removes the leading and the trailing white space as
  \<open>unicode.IsSpace\<close> defines it: the six ASCII characters, and the characters U+0085,
  U+00A0, U+1680, U+2000 to U+200A, U+2028, U+2029, U+202F, U+205F and U+3000, which are
  two or three bytes in UTF-8. A lead byte of one of these always starts a character, at
  the front of a string and, read backwards, at its end, so the characters can be matched
  as byte sequences.
\<close>

definition isSpace :: "char \<Rightarrow> bool" where
  "isSpace c = (c \<in> set [CHR '' '', CHR 0x09, CHR 0x0A, CHR 0x0B, CHR 0x0C, CHR 0x0D])"

definition space2 :: "string list" where
  "space2 = [[CHR 0xC2, CHR 0x85], [CHR 0xC2, CHR 0xA0]]"

definition space3 :: "string list" where
  "space3 =
     [[CHR 0xE1, CHR 0x9A, CHR 0x80],
      [CHR 0xE2, CHR 0x80, CHR 0x80], [CHR 0xE2, CHR 0x80, CHR 0x81],
      [CHR 0xE2, CHR 0x80, CHR 0x82], [CHR 0xE2, CHR 0x80, CHR 0x83],
      [CHR 0xE2, CHR 0x80, CHR 0x84], [CHR 0xE2, CHR 0x80, CHR 0x85],
      [CHR 0xE2, CHR 0x80, CHR 0x86], [CHR 0xE2, CHR 0x80, CHR 0x87],
      [CHR 0xE2, CHR 0x80, CHR 0x88], [CHR 0xE2, CHR 0x80, CHR 0x89],
      [CHR 0xE2, CHR 0x80, CHR 0x8A], [CHR 0xE2, CHR 0x80, CHR 0xA8],
      [CHR 0xE2, CHR 0x80, CHR 0xA9], [CHR 0xE2, CHR 0x80, CHR 0xAF],
      [CHR 0xE2, CHR 0x81, CHR 0x9F], [CHR 0xE3, CHR 0x80, CHR 0x80]]"

fun trimLeft :: "string \<Rightarrow> string" where
  "trimLeft (a # b # c # cs) =
     (if isSpace a then trimLeft (b # c # cs)
      else if [a, b] \<in> set space2 then trimLeft (c # cs)
      else if [a, b, c] \<in> set space3 then trimLeft cs
      else a # b # c # cs)"
| "trimLeft [a, b] =
     (if isSpace a then trimLeft [b]
      else if [a, b] \<in> set space2 then []
      else [a, b])"
| "trimLeft [a] = (if isSpace a then [] else [a])"
| "trimLeft [] = []"

text \<open>The same from the end, on the reversed string.\<close>

fun trimLeftRev :: "string \<Rightarrow> string" where
  "trimLeftRev (a # b # c # cs) =
     (if isSpace a then trimLeftRev (b # c # cs)
      else if [b, a] \<in> set space2 then trimLeftRev (c # cs)
      else if [c, b, a] \<in> set space3 then trimLeftRev cs
      else a # b # c # cs)"
| "trimLeftRev [a, b] =
     (if isSpace a then trimLeftRev [b]
      else if [b, a] \<in> set space2 then []
      else [a, b])"
| "trimLeftRev [a] = (if isSpace a then [] else [a])"
| "trimLeftRev [] = []"

definition TrimSpace :: "string \<Rightarrow> string" where
  "TrimSpace s = rev (trimLeftRev (rev (trimLeft s)))"

text \<open>
  \<open>strings.Split(s, sep)\<close> for a separator of one byte: the pieces between the
  separators, empty pieces included; the result is never empty.
\<close>

fun Split :: "string \<Rightarrow> char \<Rightarrow> string list" where
  "Split [] sep = [[]]"
| "Split (c # cs) sep =
     (if c = sep then [] # Split cs sep
      else (case Split cs sep of
              [] \<Rightarrow> [[c]]
            | w # ws \<Rightarrow> (c # w) # ws))"

text \<open>The first piece of \<open>strings.Split(line, "//")\<close>: the text before the first \<open>//\<close>.\<close>

fun beforeSlashes :: "string \<Rightarrow> string" where
  "beforeSlashes [] = []"
| "beforeSlashes (c # cs) =
     (if HasPrefix (c # cs) ''//'' then [] else c # beforeSlashes cs)"

definition lowerChar :: "char \<Rightarrow> char" where
  "lowerChar c =
     (case map_of (zip ''ABCDEFGHIJKLMNOPQRSTUVWXYZ'' ''abcdefghijklmnopqrstuvwxyz'') c of
        Some d \<Rightarrow> d
      | None \<Rightarrow> c)"

definition upperChar :: "char \<Rightarrow> char" where
  "upperChar c =
     (case map_of (zip ''abcdefghijklmnopqrstuvwxyz'' ''ABCDEFGHIJKLMNOPQRSTUVWXYZ'') c of
        Some d \<Rightarrow> d
      | None \<Rightarrow> c)"

text \<open>
  \<open>strings.ToLower\<close> maps every character to its lower case. Two characters outside ASCII
  have an ASCII letter as their lower case: U+0130 (bytes \<open>C4 B0\<close>) gives \<open>i\<close> and U+212A
  (bytes \<open>E2 84 AA\<close>) gives \<open>k\<close>; \<open>lowerRunes\<close> replaces them. Every other character outside
  ASCII, and every byte that is not UTF-8, becomes text outside ASCII again; the model
  leaves these bytes as they are. The program compares the result with ASCII words only
  and stores it only when it is one of them, so it cannot tell the difference.
\<close>

fun lowerRunes :: "string \<Rightarrow> string" where
  "lowerRunes (a # b # c # cs) =
     (if a = CHR 0xC4 \<and> b = CHR 0xB0 then CHR ''i'' # lowerRunes (c # cs)
      else if a = CHR 0xE2 \<and> b = CHR 0x84 \<and> c = CHR 0xAA then CHR ''k'' # lowerRunes cs
      else a # lowerRunes (b # c # cs))"
| "lowerRunes [a, b] = (if a = CHR 0xC4 \<and> b = CHR 0xB0 then ''i'' else [a, b])"
| "lowerRunes cs = cs"

definition ToLower :: "string \<Rightarrow> string" where
  "ToLower s = map lowerChar (lowerRunes s)"

definition ToUpper :: "string \<Rightarrow> string" where
  "ToUpper s = map upperChar s"

definition ReplaceSpaces :: "string \<Rightarrow> string" where
  \<comment> \<open>\<open>strings.ReplaceAll(s, " ", "_")\<close>\<close>
  "ReplaceSpaces s = map (\<lambda>c. if c = CHR '' '' then CHR ''_'' else c) s"

subsection \<open>Decimal numbers: \<open>%d\<close> and \<open>strconv.Atoi\<close>\<close>

definition digitChar :: "nat \<Rightarrow> char" where
  "digitChar d = ''0123456789'' ! (d mod 10)"

definition isDigit :: "char \<Rightarrow> bool" where
  "isDigit c = (c \<in> set ''0123456789'')"

definition digitVal :: "char \<Rightarrow> int" where
  "digitVal c =
     (case map_of (zip ''0123456789'' [0, 1, 2, 3, 4, 5, 6, 7, 8, 9]) c of
        Some d \<Rightarrow> d
      | None \<Rightarrow> 0)"

fun showNat :: "nat \<Rightarrow> string" where
  "showNat n = (if n < 10 then [digitChar n] else showNat (n div 10) @ [digitChar (n mod 10)])"

declare showNat.simps [simp del]

definition showInt :: "int \<Rightarrow> string" where
  \<comment> \<open>\<open>fmt.Sprintf("%d", n)\<close>\<close>
  "showInt n = (if n < 0 then CHR ''-'' # showNat (nat (- n)) else showNat (nat n))"

definition readDec :: "string \<Rightarrow> int" where
  "readDec ds = foldl (\<lambda>n c. n * 10 + digitVal c) 0 ds"

text \<open>
  \<open>strconv.Atoi\<close>: an optional sign, then one or more decimal digits and nothing else;
  the value must fit Go's 64-bit \<open>int\<close>. \<open>None\<close> stands for the returned error (the caller
  drops its text).
\<close>

definition Atoi :: "string \<Rightarrow> int option" where
  "Atoi s =
     (let neg = (s \<noteq> [] \<and> hd s = CHR ''-'');
          ds = (if s \<noteq> [] \<and> (hd s = CHR ''-'' \<or> hd s = CHR ''+'') then tl s else s);
          v = (if neg then - readDec ds else readDec ds)
      in if ds = [] \<or> \<not> list_all isDigit ds then None
         else if v < - (2 ^ 63) \<or> 2 ^ 63 \<le> v then None
         else Some v)"

section \<open>The command model\<close>

datatype CommandType =
    CommandTypeArithmetic
  | CommandTypePush
  | CommandTypePop
  | CommandTypeLabel
  | CommandTypeGOTO
  | CommandTypeIf
  | CommandTypeFunction
  | CommandTypeReturn
  | CommandTypeCall

datatype SegmentType =
    SegmentTypeConstant
  | SegmentTypeLocal
  | SegmentTypeArgument
  | SegmentTypeThis
  | SegmentTypeThat
  | SegmentTypeStatic
  | SegmentTypeTemp
  | SegmentTypePointer

datatype ALType =
    ALTypeAdd
  | ALTypeSub
  | ALTypeNeg
  | ALTypeEq
  | ALTypeGt
  | ALTypeLt
  | ALTypeAnd
  | ALTypeOr
  | ALTypeNot

fun SegmentType_String :: "SegmentType \<Rightarrow> string" where
  "SegmentType_String SegmentTypeConstant = ''constant''"
| "SegmentType_String SegmentTypeLocal = ''local''"
| "SegmentType_String SegmentTypeArgument = ''argument''"
| "SegmentType_String SegmentTypeThis = ''this''"
| "SegmentType_String SegmentTypeThat = ''that''"
| "SegmentType_String SegmentTypeStatic = ''static''"
| "SegmentType_String SegmentTypeTemp = ''temp''"
| "SegmentType_String SegmentTypePointer = ''pointer''"

fun SegmentType_ID :: "SegmentType \<Rightarrow> string" where
  "SegmentType_ID SegmentTypeLocal = ''LCL''"
| "SegmentType_ID SegmentTypeArgument = ''ARG''"
| "SegmentType_ID SegmentTypeThis = ''THIS''"
| "SegmentType_ID SegmentTypeThat = ''THAT''"
| "SegmentType_ID _ = ''''"

fun ALType_String :: "ALType \<Rightarrow> string" where
  "ALType_String ALTypeAdd = ''add''"
| "ALType_String ALTypeSub = ''sub''"
| "ALType_String ALTypeNeg = ''neg''"
| "ALType_String ALTypeEq = ''eq''"
| "ALType_String ALTypeGt = ''gt''"
| "ALType_String ALTypeLt = ''lt''"
| "ALType_String ALTypeAnd = ''and''"
| "ALType_String ALTypeOr = ''or''"
| "ALType_String ALTypeNot = ''not''"

record Instruction =
  FileName :: string
  Line :: string
  CommandType :: CommandType
  Arg1 :: string
  SegmentType :: SegmentType
  Arg2 :: string
  Arg2Val :: int
  ALType :: ALType
  Index :: int

section \<open>The parser\<close>

text \<open>
  \<open>parseInstruction\<close> returns an instruction or an error; it can also stop the program with
  Go's run-time panic for an index out of range. Both are values of \<open>failure\<close>:
  \<open>Err msg\<close> is the returned \<open>error\<close> with its text, \<open>IndexOutOfRange i n\<close> is the panic
  for reading element \<open>i\<close> of a slice of length \<open>n\<close>.
\<close>

datatype failure = Err string | IndexOutOfRange nat nat

definition validAL :: "string list" where
  "validAL = [''add'', ''sub'', ''neg'', ''eq'', ''gt'', ''lt'', ''and'', ''or'', ''not'']"

definition alOf :: "string \<Rightarrow> ALType" where
  "alOf rawAl =
     (if rawAl = ''add'' then ALTypeAdd
      else if rawAl = ''sub'' then ALTypeSub
      else if rawAl = ''neg'' then ALTypeNeg
      else if rawAl = ''eq'' then ALTypeEq
      else if rawAl = ''gt'' then ALTypeGt
      else if rawAl = ''lt'' then ALTypeLt
      else if rawAl = ''and'' then ALTypeAnd
      else if rawAl = ''or'' then ALTypeOr
      else if rawAl = ''not'' then ALTypeNot
      else ALTypeAdd)"

definition commandOf :: "string \<Rightarrow> CommandType option" where
  "commandOf rawCt =
     (if rawCt = ''pop'' then Some CommandTypePop
      else if rawCt = ''push'' then Some CommandTypePush
      else if rawCt = ''label'' then Some CommandTypeLabel
      else if rawCt = ''goto'' then Some CommandTypeGOTO
      else if rawCt = ''if-goto'' then Some CommandTypeIf
      else if rawCt = ''function'' then Some CommandTypeFunction
      else if rawCt = ''return'' then Some CommandTypeReturn
      else if rawCt = ''call'' then Some CommandTypeCall
      else None)"

definition segmentOf :: "string \<Rightarrow> SegmentType option" where
  "segmentOf rawSt =
     (if rawSt = ''constant'' then Some SegmentTypeConstant
      else if rawSt = ''local'' then Some SegmentTypeLocal
      else if rawSt = ''argument'' then Some SegmentTypeArgument
      else if rawSt = ''this'' then Some SegmentTypeThis
      else if rawSt = ''that'' then Some SegmentTypeThat
      else if rawSt = ''static'' then Some SegmentTypeStatic
      else if rawSt = ''temp'' then Some SegmentTypeTemp
      else if rawSt = ''pointer'' then Some SegmentTypePointer
      else None)"

text \<open>
  The ``arg1'' block of \<open>parseInstruction\<close>. \<open>parts[1]\<close> is read without a length check for
  every command but \<open>return\<close>.
\<close>

definition parseArg1 :: "CommandType \<Rightarrow> string list \<Rightarrow> failure + (SegmentType \<times> string)" where
  "parseArg1 ct parts =
     (if ct = CommandTypePush \<or> ct = CommandTypePop then
        (if length parts \<le> 1 then Inl (IndexOutOfRange 1 (length parts))
         else (case segmentOf (ToLower (parts ! 1)) of
                 Some st \<Rightarrow> Inr (st, ToLower (parts ! 1))
               | None \<Rightarrow> Inl (Err (''invalid arg1 segment type: '' @ parts ! 1))))
      else if ct = CommandTypeLabel \<or> ct = CommandTypeGOTO \<or> ct = CommandTypeIf
              \<or> ct = CommandTypeFunction \<or> ct = CommandTypeCall then
        (if length parts \<le> 1 then Inl (IndexOutOfRange 1 (length parts))
         else Inr (SegmentTypeConstant, parts ! 1))
      else if ct = CommandTypeReturn then
        (if length parts > 1 then Inl (Err ''invalid arg1 return, no argument expected'')
         else Inr (SegmentTypeConstant, ''''))
      else Inl (Err (''invalid command type: '' @ parts ! 0)))"

text \<open>The ``arg2'' block: the pair of the token and its value.\<close>

definition parseArg2 :: "CommandType \<Rightarrow> string list \<Rightarrow> failure + (string \<times> int)" where
  "parseArg2 ct parts =
     (if ct = CommandTypePush \<or> ct = CommandTypePop
         \<or> ct = CommandTypeFunction \<or> ct = CommandTypeCall then
        (if length parts > 2 then
           (if length (parts ! 2) > 0 then
              (case Atoi (parts ! 2) of
                 None \<Rightarrow> Inl (Err (''invalid arg2 value: '' @ parts ! 2))
               | Some v \<Rightarrow> Inr (parts ! 2, v))
            else Inr (parts ! 2, 0))
         else Inl (Err (''invalid arg2 value: '' @ '''')))
      else Inr ('''', 0))"

definition parseInstruction :: "int \<Rightarrow> string \<Rightarrow> string \<Rightarrow> failure + Instruction" where
  "parseInstruction index fileName line =
     (let parts = Split line CHR '' ''; pl = length parts in
      if pl = 0 \<or> pl > 3 then Inl (Err (''invalid instruction length: '' @ showInt (int pl)))
      else if pl = 1 \<and> parts ! 0 \<in> set validAL then
        Inr \<lparr>FileName = fileName, Line = line, CommandType = CommandTypeArithmetic,
             Arg1 = parts ! 0, SegmentType = SegmentTypeConstant, Arg2 = '''', Arg2Val = 0,
             ALType = alOf (parts ! 0), Index = index\<rparr>
      else
        (case commandOf (ToLower (parts ! 0)) of
           None \<Rightarrow> Inl (Err (''invalid command type: '' @ parts ! 0))
         | Some ct \<Rightarrow>
             (case parseArg1 ct parts of
                Inl e \<Rightarrow> Inl e
              | Inr (st, arg1) \<Rightarrow>
                  (case parseArg2 ct parts of
                     Inl e \<Rightarrow> Inl e
                   | Inr (arg2, arg2Val) \<Rightarrow>
                       Inr \<lparr>FileName = fileName, Line = line, CommandType = ct,
                            Arg1 = arg1, SegmentType = st, Arg2 = arg2, Arg2Val = arg2Val,
                            ALType = ALTypeAdd, Index = 0\<rparr>))))"

section \<open>The code generator\<close>

text \<open>
  The generator keeps two package-level variables: \<open>currentFunctionName\<close> (initially
  \<open>"LABEL"\<close>, set by each \<open>function\<close> command) and \<open>retIndex\<close> (initially 1, incremented by
  each generated call). They are threaded through the model as a record. A third variable,
  \<open>currentCallerName\<close>, is never read or written and is left out.
\<close>

record gen_state =
  currentFunctionName :: string
  retIndex :: int

definition initial_gen_state :: gen_state where
  "initial_gen_state = \<lparr>currentFunctionName = ''LABEL'', retIndex = 1\<rparr>"

text \<open>Go's \<open>int\<close> is 64 bits wide here; \<open>wrap64\<close> is the wrap-around of its arithmetic.\<close>

definition wrap64 :: "int \<Rightarrow> int" where
  "wrap64 x = (x + 2 ^ 63) mod 2 ^ 64 - 2 ^ 63"

definition getLogicalLabel :: "Instruction \<Rightarrow> string \<Rightarrow> string" where
  "getLogicalLabel i prefix = ToUpper (''('' @ prefix @ ''.'' @ showInt (Index i) @ '')'')"

definition getLogicalARegister :: "Instruction \<Rightarrow> string \<Rightarrow> string" where
  "getLogicalARegister i prefix = ToUpper (''@'' @ prefix @ ''.'' @ showInt (Index i))"

definition genArithmetic :: "Instruction \<Rightarrow> string list" where
  "genArithmetic i =
     (if ALType i = ALTypeAdd \<or> ALType i = ALTypeSub \<or> ALType i = ALTypeAnd \<or> ALType i = ALTypeOr
      then
        [''@SP'', ''AM=M-1'', ''D=M'', ''A=A-1'',
         (if ALType i = ALTypeAdd then ''M=D+M''
          else if ALType i = ALTypeSub then ''M=M-D''
          else if ALType i = ALTypeAnd then ''M=D&M''
          else ''M=D|M'')]
      else if ALType i = ALTypeNeg then
        [''@0'', ''D=A'', ''@SP'', ''A=M-1'', ''M=D-M'']
      else if ALType i = ALTypeEq \<or> ALType i = ALTypeGt \<or> ALType i = ALTypeLt then
        [''@SP'', ''AM=M-1'', ''D=M'', ''A=A-1'', ''D=M-D'',
         getLogicalARegister i (ALType_String (ALType i) @ ''_true''),
         (if ALType i = ALTypeEq then ''D;JEQ''
          else if ALType i = ALTypeGt then ''D;JGT''
          else ''D;JLT''),
         ''@SP'', ''A=M-1'', ''M=0'',
         getLogicalARegister i (ALType_String (ALType i) @ ''_false''),
         ''0;JMP'',
         getLogicalLabel i (ALType_String (ALType i) @ ''_true''),
         ''@SP'', ''A=M-1'', ''M=-1'',
         getLogicalLabel i (ALType_String (ALType i) @ ''_false'')]
      else
        [''@SP'', ''A=M-1'', ''M=!M''])"

definition genConstantPUSH :: "int \<Rightarrow> string list" where
  "genConstantPUSH val = [''@'' @ showInt val, ''D=A'', ''@SP'', ''AM=M+1'', ''A=A-1'', ''M=D'']"

definition genSegmentPUSH :: "SegmentType \<Rightarrow> int \<Rightarrow> string list" where
  "genSegmentPUSH sgt val =
     [''@'' @ showInt val, ''D=A'', ''@'' @ SegmentType_ID sgt, ''A=D+M'', ''D=M'',
      ''@SP'', ''AM=M+1'', ''A=A-1'', ''M=D'']"

definition genStaticPUSH :: "Instruction \<Rightarrow> string list" where
  "genStaticPUSH i =
     [''@'' @ FileName i @ ''.'' @ showInt (Arg2Val i), ''D=M'',
      ''@SP'', ''AM=M+1'', ''A=A-1'', ''M=D'']"

definition genTempPUSH :: "Instruction \<Rightarrow> string list" where
  "genTempPUSH i =
     [''@'' @ showInt (Arg2Val i), ''D=A'', ''@5'', ''A=D+A'', ''D=M'',
      ''@SP'', ''AM=M+1'', ''A=A-1'', ''M=D'']"

definition genPointerPUSH :: "Instruction \<Rightarrow> string list" where
  "genPointerPUSH i =
     [(if Arg2Val i = 0 then ''@THIS'' else ''@THAT''),
      ''D=M'', ''@SP'', ''A=M'', ''M=D'', ''@SP'', ''M=M+1'']"

definition genConstantPOP :: "string list" where
  "genConstantPOP = [''@SP'', ''AM=M-1'', ''D=M'']"

definition genSegmentPOP :: "SegmentType \<Rightarrow> int \<Rightarrow> string list" where
  "genSegmentPOP sgt val =
     [''@'' @ showInt val, ''D=A'', ''@'' @ SegmentType_ID sgt, ''D=D+M'', ''@R13'', ''M=D'',
      ''@SP'', ''AM=M-1'', ''D=M'', ''@R13'', ''A=M'', ''M=D'']"

definition genStaticPOP :: "Instruction \<Rightarrow> string list" where
  "genStaticPOP i =
     [''@SP'', ''AM=M-1'', ''D=M'',
      ''@'' @ FileName i @ ''.'' @ showInt (Arg2Val i), ''M=D'']"

definition genTempPOP :: "Instruction \<Rightarrow> string list" where
  "genTempPOP i =
     [''@'' @ showInt (Arg2Val i), ''D=A'', ''@5'', ''D=D+A'', ''@R13'', ''M=D'',
      ''@SP'', ''AM=M-1'', ''D=M'', ''@R13'', ''A=M'', ''M=D'']"

definition genPointerPOP :: "Instruction \<Rightarrow> string list" where
  "genPointerPOP i =
     [''@SP'', ''AM=M-1'', ''D=M'',
      (if Arg2Val i = 0 then ''@THIS'' else ''@THAT''),
      ''M=D'']"

definition retAddrLabel :: "gen_state \<Rightarrow> string" where
  \<comment> \<open>\<open>fmt.Sprintf("%s$ret.%d", currentFunctionName, retIndex)\<close>\<close>
  "retAddrLabel g = currentFunctionName g @ ''$ret.'' @ showInt (retIndex g)"

definition callPushSegment :: "SegmentType \<Rightarrow> string list" where
  \<comment> \<open>the body of the loop over the four saved segments in \<open>genCall\<close>\<close>
  "callPushSegment seg =
     [''/// call ; working with '' @ SegmentType_ID seg,
      ''@'' @ SegmentType_ID seg, ''D=M'', ''@SP'', ''A=M'', ''M=D'', ''@SP'', ''M=M+1'']"

definition genCall :: "string \<Rightarrow> int \<Rightarrow> gen_state \<Rightarrow> string list \<times> gen_state" where
  "genCall calleeFn calleeNArgs g =
     ([''/// call ; working with return address '' @ retAddrLabel g,
       ''@'' @ retAddrLabel g, ''D=A'', ''@SP'', ''A=M'', ''M=D'', ''@SP'', ''M=M+1'']
      @ concat (map callPushSegment
          [SegmentTypeLocal, SegmentTypeArgument, SegmentTypeThis, SegmentTypeThat])
      @ [''/// call ; ARG = SP - 5 - nArgs'',
         ''@'' @ showInt (wrap64 (5 + calleeNArgs)), ''D=A'', ''@SP'', ''A=M'', ''D=A-D'',
         ''@ARG'', ''M=D'',
         ''/// call ; LCL = SP'',
         ''@SP'', ''D=M'', ''@LCL'', ''M=D'',
         ''/// call ; goto function '' @ calleeFn,
         ''@'' @ calleeFn, ''0;JMP'',
         ''('' @ retAddrLabel g @ '')''],
      g\<lparr>retIndex := wrap64 (retIndex g + 1)\<rparr>)"

definition genFunction :: "Instruction \<Rightarrow> gen_state \<Rightarrow> string list \<times> gen_state" where
  "genFunction i g =
     ((''('' @ Arg1 i @ '')'') # concat (replicate (nat (Arg2Val i)) (genConstantPUSH 0)),
      g\<lparr>currentFunctionName := Arg1 i\<rparr>)"

definition returnRestoreSegment :: "Instruction \<Rightarrow> SegmentType \<Rightarrow> string list" where
  \<comment> \<open>the body of the loop over the four restored segments in \<open>genReturn\<close>\<close>
  "returnRestoreSegment i seg =
     [''/// '' @ Line i @ '' ; working with '' @ SegmentType_String seg,
      ''@R13'', ''ADM=M-1'', ''D=M'', ''@'' @ SegmentType_ID seg, ''M=D'']"

definition genReturn :: "Instruction \<Rightarrow> string list" where
  "genReturn i =
     [''/// return ; endFrame = LCL'',
      ''@LCL'', ''D=M'', ''@R13'', ''M=D'',
      ''/// return ; retAddr = D = RAM[endFrame - 5]'',
      ''@5'', ''A=D-A'', ''D=M'', ''@R14'', ''M=D'',
      ''/// return ; RAM[ARG] = pop() = RAM[SP-1]'',
      ''@SP'', ''A=M-1'', ''D=M'', ''@ARG'', ''A=M'', ''M=D'',
      ''/// return ; SP = ARG + 1'',
      ''@ARG'', ''D=M+1'', ''@SP'', ''M=D'']
     @ concat (map (returnRestoreSegment i)
         [SegmentTypeThat, SegmentTypeThis, SegmentTypeArgument, SegmentTypeLocal])
     @ [''/// return ; goto caller'',
        ''@R14'', ''A=M'', ''0;JMP'']"

text \<open>
  \<open>GenAsm\<close>: the comment line echoing the command, then the lines of the command's kind.
  The Go function also returns an error for a command type or an operator outside the
  enumerations; with the enumerations as datatypes those branches cannot be reached, so the
  model returns the lines and the generator state.
\<close>

definition GenAsm :: "Instruction \<Rightarrow> gen_state \<Rightarrow> string list \<times> gen_state" where
  "GenAsm i g =
     (case CommandType i of
        CommandTypeArithmetic \<Rightarrow> ((''// '' @ Line i) # genArithmetic i, g)
      | CommandTypePush \<Rightarrow>
          ((''// '' @ Line i) #
             (case SegmentType i of
                SegmentTypeConstant \<Rightarrow> genConstantPUSH (Arg2Val i)
              | SegmentTypeStatic \<Rightarrow> genStaticPUSH i
              | SegmentTypeTemp \<Rightarrow> genTempPUSH i
              | SegmentTypePointer \<Rightarrow> genPointerPUSH i
              | _ \<Rightarrow> genSegmentPUSH (SegmentType i) (Arg2Val i)), g)
      | CommandTypePop \<Rightarrow>
          ((''// '' @ Line i) #
             (case SegmentType i of
                SegmentTypeConstant \<Rightarrow> genConstantPOP
              | SegmentTypeStatic \<Rightarrow> genStaticPOP i
              | SegmentTypeTemp \<Rightarrow> genTempPOP i
              | SegmentTypePointer \<Rightarrow> genPointerPOP i
              | _ \<Rightarrow> genSegmentPOP (SegmentType i) (Arg2Val i)), g)
      | CommandTypeLabel \<Rightarrow> ([''// '' @ Line i, ''('' @ Arg1 i @ '')''], g)
      | CommandTypeGOTO \<Rightarrow> ([''// '' @ Line i, ''@'' @ Arg1 i, ''0;JMP''], g)
      | CommandTypeIf \<Rightarrow>
          ([''// '' @ Line i, ''@SP'', ''AM=M-1'', ''D=M'', ''@'' @ Arg1 i, ''D;JNE''], g)
      | CommandTypeFunction \<Rightarrow>
          (case genFunction i g of (ls, g') \<Rightarrow> ((''// '' @ Line i) # ls, g'))
      | CommandTypeReturn \<Rightarrow> ((''// '' @ Line i) # genReturn i, g)
      | CommandTypeCall \<Rightarrow>
          (case genCall (Arg1 i) (Arg2Val i) g of (ls, g') \<Rightarrow> ((''// '' @ Line i) # ls, g')))"

section \<open>The main program: module order, bootstrap and linking\<close>

text \<open>
  A source file is its path (what \<open>os.File.Name\<close> returns) and its lines (what
  \<open>bufio.Scanner\<close> delivers). Files are compared by identity in the Go code; in the model a
  file is identified by its position in \<open>srcFiles\<close>.
\<close>

record src_file =
  fname :: string
  flines :: "string list"

text \<open>\<open>filepath.Base\<close> and \<open>filepath.Ext\<close> for paths with \<open>/\<close> as separator.\<close>

definition Base :: "string \<Rightarrow> string" where
  "Base path =
     (if path = [] then ''.''
      else let p = rev (dropWhile (\<lambda>c. c = CHR ''/'') (rev path));
               b = rev (takeWhile (\<lambda>c. c \<noteq> CHR ''/'') (rev p))
           in if b = [] then ''/'' else b)"

definition Ext :: "string \<Rightarrow> string" where
  "Ext path =
     (let tl_elem = takeWhile (\<lambda>c. c \<noteq> CHR ''/'') (rev path);
          before_dot = takeWhile (\<lambda>c. c \<noteq> CHR ''.'') tl_elem
      in if length before_dot < length tl_elem then CHR ''.'' # rev before_dot else [])"

definition encodeLineFileName :: "string \<Rightarrow> string \<Rightarrow> string" where
  "encodeLineFileName fileName line =
     ReplaceSpaces (TrimSuffix (Base fileName) (Ext fileName)) @ ''#'' @ line"

definition decodeLineFileName :: "string \<Rightarrow> string \<times> string" where
  "decodeLineFileName line =
     (let parts = Split line CHR ''#'' in
      if length parts \<noteq> 2 then ('''', '''')
      else (parts ! 0, TrimSpace (parts ! 1)))"

definition removeCommentsAndSpaces :: "string \<Rightarrow> string" where
  "removeCommentsAndSpaces line = TrimSpace (beforeSlashes line)"

text \<open>
  The first loop of \<open>main\<close>: a file has the entry point when, among its lines that neither
  start with \<open>//\<close> nor are blank, one contains the text \<open>function Sys.init 0\<close>; the search
  stops at the first such file.
\<close>

fun scanForSysInit :: "string list \<Rightarrow> bool" where
  "scanForSysInit [] = False"
| "scanForSysInit (line # rest) =
     (if HasPrefix line ''//'' \<or> TrimSpace line = '''' then scanForSysInit rest
      else if Contains line ''function Sys.init 0'' then True
      else scanForSysInit rest)"

fun findSysInit :: "src_file list \<Rightarrow> nat option" where
  "findSysInit [] = None"
| "findSysInit (f # fs) =
     (if scanForSysInit (flines f) then Some 0
      else map_option Suc (findSysInit fs))"

text \<open>
  The order in which the files are read when there are several: every other file in the
  given order, then the file with the entry point.
\<close>

definition scanOrder :: "src_file list \<Rightarrow> nat option \<Rightarrow> src_file list" where
  "scanOrder srcFiles fileWithSysInit =
     (case fileWithSysInit of
        None \<Rightarrow> srcFiles
      | Some k \<Rightarrow> map (\<lambda>j. srcFiles ! j) (filter (\<lambda>j. j \<noteq> k) [0 ..< length srcFiles])
                  @ [srcFiles ! k])"

definition readInstructions :: "src_file \<Rightarrow> string list" where
  \<comment> \<open>the cleaned, non-empty lines of one file, each tagged with the file's module name\<close>
  "readInstructions sFile =
     map (encodeLineFileName (fname sFile))
       (filter (\<lambda>l. l \<noteq> '''') (map removeCommentsAndSpaces (flines sFile)))"

definition bootstrapHeader :: "string list" where
  "bootstrapHeader =
     [''// Bootstrap code'', ''@256'', ''D=A'', ''@SP'', ''M=D'', ''/// call Sys.init 0'']"

text \<open>
  The translation loop of \<open>main\<close> over the tagged lines, from index \<open>i\<close> on: the
  generated lines and the generator state after the last command, or the first failure.
\<close>

fun genAll :: "nat \<Rightarrow> string list \<Rightarrow> gen_state \<Rightarrow> failure + (string list \<times> gen_state)" where
  "genAll i [] g = Inr ([], g)"
| "genAll i (rLine # rest) g =
     (case decodeLineFileName rLine of
        (fileName, line) \<Rightarrow>
          (case parseInstruction (int i) fileName line of
             Inl e \<Rightarrow> Inl e
           | Inr instruction \<Rightarrow>
               (case GenAsm instruction g of
                  (asm, g') \<Rightarrow>
                    (case genAll (Suc i) rest g' of
                       Inl e \<Rightarrow> Inl e
                     | Inr (tail_asm, g'') \<Rightarrow> Inr (asm @ tail_asm, g'')))))"

text \<open>
  What a run of \<open>main\<close> ends in, from the point where the source files are open:
  \<open>Exit code msg\<close> is \<open>os.Exit(code)\<close> after printing \<open>msg\<close>, with nothing written to the
  destination file; \<open>Panicked i n\<close> is the run-time panic for reading element \<open>i\<close> of a
  slice of length \<open>n\<close>; \<open>Written ls\<close> is the list of lines written to the destination file.
\<close>

datatype outcome = Exit nat string | Panicked nat nat | Written "string list"

definition translate :: "src_file list \<Rightarrow> outcome" where
  "translate srcFiles =
     (let hasMultipleSrcFiles = (length srcFiles > 1);
          fileWithSysInit = findSysInit srcFiles
      in if fileWithSysInit = None \<and> hasMultipleSrcFiles
         then Exit 1 ''Sys.init not found in any source file''
         else if srcFiles = [] then Panicked 0 0
         else
           let instructionsLines =
                 (if hasMultipleSrcFiles
                  then concat (map readInstructions (scanOrder srcFiles fileWithSysInit))
                  else readInstructions (srcFiles ! 0))
           in if instructionsLines = [] then Exit 1 ''No source lines found''
              else
                let (boot, g) =
                      (if fileWithSysInit \<noteq> None
                       then (case genCall ''Sys.init'' 0 initial_gen_state of
                               (ls, g') \<Rightarrow> (bootstrapHeader @ ls, g'))
                       else ([], initial_gen_state))
                in (case genAll 0 instructionsLines g of
                      Inl (Err msg) \<Rightarrow> Exit 2 (''Error parsing instruction '' @ msg)
                    | Inl (IndexOutOfRange j n) \<Rightarrow> Panicked j n
                    | Inr (asm, g') \<Rightarrow> Written (boot @ asm)))"

section \<open>The target machine\<close>

text \<open>
  The generated text is assembly for the Hack computer: a 16-bit machine with two registers,
  \<open>A\<close> and \<open>D\<close>, and a data memory addressed by \<open>A\<close> (the pseudo-register \<open>M\<close> is the memory
  cell at address \<open>A\<close>). What follows is the part of the Hack assembly language and machine
  that is needed to run a block of generated lines: the lines are read as the assembler
  reads them (comments and label declarations produce no instruction, \<open>@value\<close> is an
  A-instruction, \<open>dest=comp;jump\<close> a C-instruction) and executed in order until the block
  ends or a jump is taken (the lines after a taken jump are not executed). The machine is not part of the translator; it is written here
  from the Hack platform's specification.

  Symbols other than the predefined ones (labels, and variables such as a module's static
  cells) get their addresses from the assembler; the assignment is a parameter \<open>symtab\<close>.
\<close>

type_synonym word16 = "16 word"

record hack =
  regA :: word16
  regD :: word16
  RAM :: "word16 \<Rightarrow> word16"
  jumped :: "word16 option"
  accessed :: "word16 list"

text \<open>
  \<open>jumped\<close> holds the target of the jump that took control out of the block, if one was
  taken (a state with \<open>jumped = None\<close> is still inside the block); \<open>accessed\<close> lists, in
  order, the address of every memory cell read or written.
\<close>

definition predefined :: "(string \<times> word16) list" where
  "predefined =
     [(''SP'', 0), (''LCL'', 1), (''ARG'', 2), (''THIS'', 3), (''THAT'', 4),
      (''R0'', 0), (''R1'', 1), (''R2'', 2), (''R3'', 3), (''R4'', 4), (''R5'', 5),
      (''R6'', 6), (''R7'', 7), (''R8'', 8), (''R9'', 9), (''R10'', 10), (''R11'', 11),
      (''R12'', 12), (''R13'', 13), (''R14'', 14), (''R15'', 15),
      (''SCREEN'', 16384), (''KBD'', 24576)]"

definition resolve :: "(string \<Rightarrow> word16) \<Rightarrow> string \<Rightarrow> word16" where
  "resolve symtab s = (case map_of predefined s of Some a \<Rightarrow> a | None \<Rightarrow> symtab s)"

definition isSymbolChar :: "char \<Rightarrow> bool" where
  "isSymbolChar c =
     (c \<in> set ''abcdefghijklmnopqrstuvwxyzABCDEFGHIJKLMNOPQRSTUVWXYZ0123456789_.$:'')"

definition isSymbol :: "string \<Rightarrow> bool" where
  "isSymbol s = (s \<noteq> [] \<and> \<not> isDigit (hd s) \<and> list_all isSymbolChar s)"

text \<open>
  The computations of a C-instruction: the mnemonic, whether its second operand is \<open>M\<close>
  (otherwise \<open>A\<close>), and the function of \<open>D\<close> and that operand.
\<close>

definition comp_table :: "(string \<times> bool \<times> (word16 \<Rightarrow> word16 \<Rightarrow> word16)) list" where
  "comp_table =
     [(''0'', False, \<lambda>d y. 0), (''1'', False, \<lambda>d y. 1), (''-1'', False, \<lambda>d y. - 1),
      (''D'', False, \<lambda>d y. d), (''A'', False, \<lambda>d y. y), (''M'', True, \<lambda>d y. y),
      (''!D'', False, \<lambda>d y. NOT d), (''!A'', False, \<lambda>d y. NOT y), (''!M'', True, \<lambda>d y. NOT y),
      (''-D'', False, \<lambda>d y. - d), (''-A'', False, \<lambda>d y. - y), (''-M'', True, \<lambda>d y. - y),
      (''D+1'', False, \<lambda>d y. d + 1), (''A+1'', False, \<lambda>d y. y + 1), (''M+1'', True, \<lambda>d y. y + 1),
      (''D-1'', False, \<lambda>d y. d - 1), (''A-1'', False, \<lambda>d y. y - 1), (''M-1'', True, \<lambda>d y. y - 1),
      (''D+A'', False, \<lambda>d y. d + y), (''D+M'', True, \<lambda>d y. d + y),
      (''D-A'', False, \<lambda>d y. d - y), (''D-M'', True, \<lambda>d y. d - y),
      (''A-D'', False, \<lambda>d y. y - d), (''M-D'', True, \<lambda>d y. y - d),
      (''D&A'', False, \<lambda>d y. d AND y), (''D&M'', True, \<lambda>d y. d AND y),
      (''D|A'', False, \<lambda>d y. d OR y), (''D|M'', True, \<lambda>d y. d OR y)]"

definition jump_table :: "(string \<times> (word16 \<Rightarrow> bool)) list" where
  "jump_table =
     [('''', \<lambda>v. False),
      (''JGT'', \<lambda>v. 0 < sint v), (''JEQ'', \<lambda>v. v = 0), (''JGE'', \<lambda>v. 0 \<le> sint v),
      (''JLT'', \<lambda>v. sint v < 0), (''JNE'', \<lambda>v. v \<noteq> 0), (''JLE'', \<lambda>v. sint v \<le> 0),
      (''JMP'', \<lambda>v. True)]"

definition destOk :: "string \<Rightarrow> bool" where
  "destOk d = (distinct d \<and> set d \<subseteq> set ''AMD'')"

datatype asm_line =
    NoInstr
  | AConst word16
  | ASymbol string
  | CInstr string "bool \<times> (word16 \<Rightarrow> word16 \<Rightarrow> word16)" "word16 \<Rightarrow> bool"
  | Invalid

definition parseC :: "string \<Rightarrow> asm_line" where
  "parseC l =
     (let d = (if CHR ''='' \<in> set l then takeWhile (\<lambda>c. c \<noteq> CHR ''='') l else []);
          r = (if CHR ''='' \<in> set l then tl (dropWhile (\<lambda>c. c \<noteq> CHR ''='') l) else l);
          c = takeWhile (\<lambda>c. c \<noteq> CHR '';'') r;
          j = (if CHR '';'' \<in> set r then tl (dropWhile (\<lambda>c. c \<noteq> CHR '';'') r) else [])
      in if \<not> destOk d \<or> (CHR ''='' \<in> set l \<and> d = []) then Invalid
         else (case map_of comp_table c of
                 None \<Rightarrow> Invalid
               | Some cf \<Rightarrow>
                   (case map_of jump_table j of
                      None \<Rightarrow> Invalid
                    | Some jf \<Rightarrow> if CHR '';'' \<in> set r \<and> j = [] then Invalid else CInstr d cf jf)))"

definition parseAsm :: "string \<Rightarrow> asm_line" where
  "parseAsm l =
     (if l = [] \<or> HasPrefix l ''//'' then NoInstr
      else if hd l = CHR ''('' then
        (if last l = CHR '')'' \<and> isSymbol (butlast (tl l)) then NoInstr else Invalid)
      else if hd l = CHR ''@'' then
        (if tl l \<noteq> [] \<and> list_all isDigit (tl l) then
           (if readDec (tl l) < 32768 then AConst (word_of_int (readDec (tl l))) else Invalid)
         else if isSymbol (tl l) then ASymbol (tl l)
         else Invalid)
      else parseC l)"

text \<open>
  One instruction. A C-instruction computes from the registers as they are before the
  instruction; a write to \<open>M\<close> goes to the cell addressed by the old \<open>A\<close>, and a jump goes to
  the old \<open>A\<close>.
\<close>

definition execC ::
    "string \<Rightarrow> bool \<times> (word16 \<Rightarrow> word16 \<Rightarrow> word16) \<Rightarrow> (word16 \<Rightarrow> bool) \<Rightarrow> hack \<Rightarrow> hack" where
  "execC d cf jf s =
     (let a = regA s;
          v = snd cf (regD s) (if fst cf then RAM s a else a)
      in \<lparr>regA = (if CHR ''A'' \<in> set d then v else a),
          regD = (if CHR ''D'' \<in> set d then v else regD s),
          RAM = (if CHR ''M'' \<in> set d then (RAM s)(a := v) else RAM s),
          jumped = (if jf v then Some a else None),
          accessed = accessed s @ (if fst cf then [a] else [])
                       @ (if CHR ''M'' \<in> set d then [a] else [])\<rparr>)"

fun exec :: "(string \<Rightarrow> word16) \<Rightarrow> string list \<Rightarrow> hack \<Rightarrow> hack option" where
  "exec symtab [] s = Some s"
| "exec symtab (l # ls) s =
     (if jumped s \<noteq> None then Some s
      else (case parseAsm l of
              NoInstr \<Rightarrow> exec symtab ls s
            | AConst n \<Rightarrow> exec symtab ls (s\<lparr>regA := n\<rparr>)
            | ASymbol x \<Rightarrow> exec symtab ls (s\<lparr>regA := resolve symtab x\<rparr>)
            | CInstr d cf jf \<Rightarrow> exec symtab ls (execC d cf jf s)
            | Invalid \<Rightarrow> None))"

text \<open>
  A block of lines is well formed when the assembler accepts each of its lines: as an
  instruction, a comment or a label declaration.
\<close>

definition validAsm :: "string list \<Rightarrow> bool" where
  "validAsm ls = list_all (\<lambda>l. parseAsm l \<noteq> Invalid) ls"

text \<open>
  The value that an A-instruction line loads into \<open>A\<close>: the number it names, or the address
  of the symbol it names. Other lines load nothing.
\<close>

definition aValue :: "(string \<Rightarrow> word16) \<Rightarrow> string \<Rightarrow> word16 option" where
  "aValue symtab l =
     (case parseAsm l of
        AConst n \<Rightarrow> Some n
      | ASymbol x \<Rightarrow> Some (resolve symtab x)
      | _ \<Rightarrow> None)"

section \<open>Notions used in the statements\<close>

text \<open>
  The stack cell a memory-access command works on: a push writes the cell the stack pointer
  points to, a pop reads the cell below it. The stack pointer is memory cell 0.
\<close>

definition stackSlot :: "Instruction \<Rightarrow> hack \<Rightarrow> word16" where
  "stackSlot i s = (if CommandType i = CommandTypePush then RAM s 0 else RAM s 0 - 1)"

text \<open>
  The memory cell a push or pop command addresses through its segment: none for
  \<open>constant\<close>; the module's variable \<open>Module.offset\<close> for \<open>static\<close>; cell \<open>5 + offset\<close> for
  \<open>temp\<close>; the \<open>THIS\<close> or \<open>THAT\<close> register for \<open>pointer\<close>; and base plus offset for
  \<open>local\<close>, \<open>argument\<close>, \<open>this\<close> and \<open>that\<close>, the base being the content of the segment's
  pointer register.
\<close>

definition segmentCell :: "(string \<Rightarrow> word16) \<Rightarrow> Instruction \<Rightarrow> hack \<Rightarrow> word16 option" where
  "segmentCell symtab i s =
     (case SegmentType i of
        SegmentTypeConstant \<Rightarrow> None
      | SegmentTypeStatic \<Rightarrow> Some (resolve symtab (FileName i @ ''.'' @ showInt (Arg2Val i)))
      | SegmentTypeTemp \<Rightarrow> Some (5 + word_of_int (Arg2Val i))
      | SegmentTypePointer \<Rightarrow>
          Some (if Arg2Val i = 0 then resolve symtab ''THIS'' else resolve symtab ''THAT'')
      | seg \<Rightarrow> Some (RAM s (resolve symtab (SegmentType_ID seg)) + word_of_int (Arg2Val i)))"

text \<open>The label declarations among generated lines: the lines that open with a parenthesis.\<close>

definition labelsOf :: "string list \<Rightarrow> string list" where
  "labelsOf ls = filter (\<lambda>l. l \<noteq> [] \<and> hd l = CHR ''('') ls"

text \<open>
  The text of a comparison's branch label: the operator in upper case, \<open>_TRUE\<close> or
  \<open>_FALSE\<close>, a dot and the sequence index, in parentheses.
\<close>

definition comparisonLabel :: "ALType \<Rightarrow> bool \<Rightarrow> int \<Rightarrow> string" where
  "comparisonLabel op b k =
     ''('' @ ToUpper (ALType_String op) @ (if b then ''_TRUE.'' else ''_FALSE.'') @ showInt k @ '')''"

text \<open>A symbol table and a machine state for the concrete runs below.\<close>

definition demo_symtab :: "string \<Rightarrow> word16" where
  "demo_symtab x = (if x = ''Main.f'' then 1000 else if x = ''LABEL$ret.1'' then 2000 else 16)"

definition demo_state :: hack where
  "demo_state =
     \<lparr>regA = 0, regD = 0,
      RAM = (\<lambda>a. 0)(0 := 256, 1 := 300, 2 := 400, 3 := 3000, 4 := 3010),
      jumped = None, accessed = []\<rparr>"

text \<open>The demonstration state with the stack pointer set to \<open>sp\<close>.\<close>

definition demo_state_sp :: "word16 \<Rightarrow> hack" where
  "demo_state_sp sp = demo_state\<lparr>RAM := (RAM demo_state)(0 := sp)\<rparr>"

text \<open>
  One command of module \<open>Main\<close>: parsed, translated from the initial generator state, and
  its block run from the state \<open>s\<close>.
\<close>

definition runLine :: "(string \<Rightarrow> word16) \<Rightarrow> string \<Rightarrow> hack \<Rightarrow> hack option" where
  "runLine symtab line s =
     (case parseInstruction 0 ''Main'' line of
        Inl e \<Rightarrow> None
      | Inr i \<Rightarrow> exec symtab (fst (GenAsm i initial_gen_state)) s)"

text \<open>
  The frame of a call made with the stack pointer at \<open>sp\<close>: the five cells from \<open>sp\<close> on.
  The first receives the return address, the other four the caller's \<open>LCL\<close>, \<open>ARG\<close>, \<open>THIS\<close>
  and \<open>THAT\<close>.
\<close>

definition frameCells :: "word16 \<Rightarrow> word16 set" where
  "frameCells sp = {sp, sp + 1, sp + 2, sp + 3, sp + 4}"

definition savedCells :: "word16 \<Rightarrow> word16 set" where
  "savedCells sp = {sp + 1, sp + 2, sp + 3, sp + 4}"

text \<open>
  A callee at work, as far as the concrete runs below need it: control is inside the code
  again after the jump of the call, and the value \<open>v\<close> has been pushed on the stack.
\<close>

definition calleePushes :: "word16 \<Rightarrow> hack \<Rightarrow> hack" where
  "calleePushes v s = s\<lparr>jumped := None, RAM := (RAM s)(RAM s 0 := v, 0 := RAM s 0 + 1)\<rparr>"

text \<open>
  A call command and a \<open>return\<close> command of module \<open>Main\<close>, translated one after the other
  from the initial generator state and run: the block of the call from the state \<open>s\<close>, then,
  once the callee has pushed \<open>v\<close>, the block of the return.
\<close>

definition callThenReturn ::
    "(string \<Rightarrow> word16) \<Rightarrow> string \<Rightarrow> word16 \<Rightarrow> hack \<Rightarrow> hack option" where
  "callThenReturn symtab callLine v s =
     (case parseInstruction 0 ''Main'' callLine of
        Inl e \<Rightarrow> None
      | Inr ci \<Rightarrow>
          (case parseInstruction 1 ''Main'' ''return'' of
             Inl e \<Rightarrow> None
           | Inr ri \<Rightarrow>
               (case GenAsm ci initial_gen_state of
                  (callBlock, g) \<Rightarrow>
                    (case exec symtab callBlock s of
                       None \<Rightarrow> None
                     | Some s1 \<Rightarrow> exec symtab (fst (GenAsm ri g)) (calleePushes v s1)))))"

text \<open>The label declarations in what a run of the translator wrote, if it wrote anything.\<close>

definition writtenLabels :: "outcome \<Rightarrow> string list" where
  "writtenLabels r = (case r of Written ls \<Rightarrow> labelsOf ls | _ \<Rightarrow> [])"

section \<open>Decimal numbers\<close>

text \<open>
  \<open>showNat\<close> writes digits only, and reading them back gives the number: different numbers
  have different texts.
\<close>

lemma isDigit_cases:
  "isDigit c \<longleftrightarrow> c = CHR ''0'' \<or> c = CHR ''1'' \<or> c = CHR ''2'' \<or> c = CHR ''3'' \<or> c = CHR ''4''
     \<or> c = CHR ''5'' \<or> c = CHR ''6'' \<or> c = CHR ''7'' \<or> c = CHR ''8'' \<or> c = CHR ''9''"
  by (simp add: isDigit_def)

lemma isDigit_digitChar: "isDigit (digitChar d)"
  unfolding isDigit_def digitChar_def by (rule nth_mem) simp

lemma digitVal_digitChar: "d < 10 \<Longrightarrow> digitVal (digitChar d) = int d"
proof -
  assume "d < 10"
  then consider "d = 0" | "d = 1" | "d = 2" | "d = 3" | "d = 4"
    | "d = 5" | "d = 6" | "d = 7" | "d = 8" | "d = 9"
    by (auto simp: less_Suc_eq numeral_eq_Suc)
  then show ?thesis
    by cases (simp_all add: digitChar_def digitVal_def)
qed

lemma isDigit_isSymbolChar: "isDigit c \<Longrightarrow> isSymbolChar c"
  unfolding isDigit_cases by (elim disjE) (simp_all add: isSymbolChar_def)

lemma isDigit_upperChar: "isDigit c \<Longrightarrow> upperChar c = c"
  unfolding isDigit_cases by (elim disjE) (simp_all add: upperChar_def)

lemma readDec_snoc: "readDec (ds @ [c]) = readDec ds * 10 + digitVal c"
  by (simp add: readDec_def)

lemma showNat_digits: "list_all isDigit (showNat n)"
proof (induction n rule: showNat.induct)
  case (1 n)
  show ?case
  proof (cases "n < 10")
    case True
    then show ?thesis by (subst showNat.simps) (simp add: isDigit_digitChar)
  next
    case False
    with 1 show ?thesis by (subst showNat.simps) (simp add: isDigit_digitChar)
  qed
qed

lemma showNat_nonempty: "showNat n \<noteq> []"
  by (subst showNat.simps) simp

lemma readDec_showNat: "readDec (showNat n) = int n"
proof (induction n rule: showNat.induct)
  case (1 n)
  show ?case
  proof (cases "n < 10")
    case True
    then show ?thesis
      by (subst showNat.simps) (simp add: readDec_def digitVal_digitChar)
  next
    case False
    have "readDec (showNat n) = readDec (showNat (n div 10)) * 10 + digitVal (digitChar (n mod 10))"
      using False by (subst showNat.simps) (simp add: readDec_snoc)
    also have "\<dots> = int (n div 10) * 10 + int (n mod 10)"
      using 1 False by (simp add: digitVal_digitChar)
    also have "\<dots> = int n"
    proof -
      have "n div 10 * 10 + n mod 10 = n" by (rule div_mult_mod_eq)
      then have "int (n div 10 * 10 + n mod 10) = int n" by (rule arg_cong)
      then show ?thesis by (simp only: of_nat_add of_nat_mult of_nat_numeral)
    qed
    finally show ?thesis .
  qed
qed

lemma showNat_inj: "showNat m = showNat n \<Longrightarrow> m = n"
  by (metis readDec_showNat of_nat_eq_iff)

lemma hd_showNat_digit: "isDigit (hd (showNat n))"
  using showNat_digits [of n] showNat_nonempty [of n] by (cases "showNat n") simp_all

lemma showInt_inj: "showInt a = showInt b \<Longrightarrow> a = b"
proof -
  assume eq: "showInt a = showInt b"
  have nd: "\<not> isDigit CHR ''-''" by (simp add: isDigit_def)
  show ?thesis
  proof (cases "a < 0")
    case True
    show ?thesis
    proof (cases "b < 0")
      case True
      with \<open>a < 0\<close> eq have "nat (- a) = nat (- b)" by (simp add: showInt_def showNat_inj)
      with True \<open>a < 0\<close> show ?thesis by simp
    next
      case False
      with \<open>a < 0\<close> eq have "CHR ''-'' # showNat (nat (- a)) = showNat (nat b)"
        by (simp add: showInt_def)
      then have "hd (showNat (nat b)) = CHR ''-''" by (metis list.sel(1))
      with hd_showNat_digit [of "nat b"] nd show ?thesis by simp
    qed
  next
    case False
    show ?thesis
    proof (cases "b < 0")
      case True
      with False eq have "showNat (nat a) = CHR ''-'' # showNat (nat (- b))"
        by (simp add: showInt_def)
      then have "hd (showNat (nat a)) = CHR ''-''" by (metis list.sel(1))
      with hd_showNat_digit [of "nat a"] nd show ?thesis by simp
    next
      case False
      with \<open>\<not> a < 0\<close> eq have "nat a = nat b" by (simp add: showInt_def showNat_inj)
      with False \<open>\<not> a < 0\<close> show ?thesis by simp
    qed
  qed
qed

section \<open>Reading and running generated lines\<close>

lemma parseAsm_number:
  assumes "0 \<le> n" "n < 32768"
  shows "parseAsm (CHR ''@'' # showInt n) = AConst (word_of_int n)"
  using assms
  by (simp add: parseAsm_def HasPrefix_def showInt_def showNat_digits showNat_nonempty
      readDec_showNat)

lemma parseAsm_symbol:
  assumes "isSymbol x"
  shows "parseAsm (CHR ''@'' # x) = ASymbol x"
proof -
  from assms have "\<not> list_all isDigit x"
    by (cases x) (auto simp: isSymbol_def)
  with assms show ?thesis by (simp add: parseAsm_def HasPrefix_def)
qed

lemma parseAsm_comment: "parseAsm (CHR ''/'' # CHR ''/'' # x) = NoInstr"
  by (simp add: parseAsm_def HasPrefix_def)

lemma exec_jumped: "jumped s \<noteq> None \<Longrightarrow> exec symtab ls s = Some s"
  by (cases ls) auto

lemma exec_append:
  "exec symtab (xs @ ys) s = (case exec symtab xs s of None \<Rightarrow> None | Some s' \<Rightarrow> exec symtab ys s')"
proof (induction xs arbitrary: s)
  case Nil
  show ?case by simp
next
  case (Cons l xs)
  show ?case
  proof (cases "jumped s = None")
    case True
    then show ?thesis using Cons by (simp split: asm_line.splits)
  next
    case False
    then show ?thesis by (simp add: exec_jumped)
  qed
qed

lemmas parse_defs = parseAsm_def parseC_def HasPrefix_def destOk_def comp_table_def
  jump_table_def isDigit_def isSymbol_def isSymbolChar_def readDec_def digitVal_def

lemma parseAsm_symbols:
  "parseAsm ''@SP'' = ASymbol ''SP''"
  "parseAsm ''@LCL'' = ASymbol ''LCL''"
  "parseAsm ''@ARG'' = ASymbol ''ARG''"
  "parseAsm ''@THIS'' = ASymbol ''THIS''"
  "parseAsm ''@THAT'' = ASymbol ''THAT''"
  "parseAsm ''@R13'' = ASymbol ''R13''"
  "parseAsm ''@R14'' = ASymbol ''R14''"
  "parseAsm ''@5'' = AConst 5"
  by (simp_all add: parse_defs)

lemma resolve_predefined:
  "resolve symtab ''SP'' = 0"
  "resolve symtab ''LCL'' = 1"
  "resolve symtab ''ARG'' = 2"
  "resolve symtab ''THIS'' = 3"
  "resolve symtab ''THAT'' = 4"
  "resolve symtab ''R13'' = 13"
  "resolve symtab ''R14'' = 14"
  by (simp_all add: resolve_def predefined_def)

lemma parseAsm_comps:
  "parseAsm ''D=A'' = CInstr ''D'' (False, \<lambda>d y. y) (\<lambda>v. False)"
  "parseAsm ''D=M'' = CInstr ''D'' (True, \<lambda>d y. y) (\<lambda>v. False)"
  "parseAsm ''M=D'' = CInstr ''M'' (False, \<lambda>d y. d) (\<lambda>v. False)"
  "parseAsm ''A=M'' = CInstr ''A'' (True, \<lambda>d y. y) (\<lambda>v. False)"
  "parseAsm ''AM=M+1'' = CInstr ''AM'' (True, \<lambda>d y. y + 1) (\<lambda>v. False)"
  "parseAsm ''AM=M-1'' = CInstr ''AM'' (True, \<lambda>d y. y - 1) (\<lambda>v. False)"
  "parseAsm ''M=M+1'' = CInstr ''M'' (True, \<lambda>d y. y + 1) (\<lambda>v. False)"
  "parseAsm ''A=A-1'' = CInstr ''A'' (False, \<lambda>d y. y - 1) (\<lambda>v. False)"
  "parseAsm ''A=M-1'' = CInstr ''A'' (True, \<lambda>d y. y - 1) (\<lambda>v. False)"
  "parseAsm ''A=D+M'' = CInstr ''A'' (True, \<lambda>d y. d + y) (\<lambda>v. False)"
  "parseAsm ''A=D+A'' = CInstr ''A'' (False, \<lambda>d y. d + y) (\<lambda>v. False)"
  "parseAsm ''D=D+M'' = CInstr ''D'' (True, \<lambda>d y. d + y) (\<lambda>v. False)"
  "parseAsm ''D=D+A'' = CInstr ''D'' (False, \<lambda>d y. d + y) (\<lambda>v. False)"
  "parseAsm ''D=A-D'' = CInstr ''D'' (False, \<lambda>d y. y - d) (\<lambda>v. False)"
  "parseAsm ''A=D-A'' = CInstr ''A'' (False, \<lambda>d y. d - y) (\<lambda>v. False)"
  "parseAsm ''D=M+1'' = CInstr ''D'' (True, \<lambda>d y. y + 1) (\<lambda>v. False)"
  "parseAsm ''ADM=M-1'' = CInstr ''ADM'' (True, \<lambda>d y. y - 1) (\<lambda>v. False)"
  "parseAsm ''0;JMP'' = CInstr '''' (False, \<lambda>d y. 0) (\<lambda>v. True)"
  by (simp_all add: parse_defs)

text \<open>
  Every instruction text the generator emits for memory access, call and return, as a step
  on an explicit machine state.
\<close>

lemma exec_step:
  "exec symtab (''@SP'' # ls) \<lparr>regA = a, regD = d, RAM = m, jumped = None, accessed = t\<rparr> =
     exec symtab ls \<lparr>regA = 0, regD = d, RAM = m, jumped = None, accessed = t\<rparr>"
  "exec symtab (''@LCL'' # ls) \<lparr>regA = a, regD = d, RAM = m, jumped = None, accessed = t\<rparr> =
     exec symtab ls \<lparr>regA = 1, regD = d, RAM = m, jumped = None, accessed = t\<rparr>"
  "exec symtab (''@ARG'' # ls) \<lparr>regA = a, regD = d, RAM = m, jumped = None, accessed = t\<rparr> =
     exec symtab ls \<lparr>regA = 2, regD = d, RAM = m, jumped = None, accessed = t\<rparr>"
  "exec symtab (''@THIS'' # ls) \<lparr>regA = a, regD = d, RAM = m, jumped = None, accessed = t\<rparr> =
     exec symtab ls \<lparr>regA = 3, regD = d, RAM = m, jumped = None, accessed = t\<rparr>"
  "exec symtab (''@THAT'' # ls) \<lparr>regA = a, regD = d, RAM = m, jumped = None, accessed = t\<rparr> =
     exec symtab ls \<lparr>regA = 4, regD = d, RAM = m, jumped = None, accessed = t\<rparr>"
  "exec symtab (''@R13'' # ls) \<lparr>regA = a, regD = d, RAM = m, jumped = None, accessed = t\<rparr> =
     exec symtab ls \<lparr>regA = 13, regD = d, RAM = m, jumped = None, accessed = t\<rparr>"
  "exec symtab (''@R14'' # ls) \<lparr>regA = a, regD = d, RAM = m, jumped = None, accessed = t\<rparr> =
     exec symtab ls \<lparr>regA = 14, regD = d, RAM = m, jumped = None, accessed = t\<rparr>"
  "exec symtab (''@5'' # ls) \<lparr>regA = a, regD = d, RAM = m, jumped = None, accessed = t\<rparr> =
     exec symtab ls \<lparr>regA = 5, regD = d, RAM = m, jumped = None, accessed = t\<rparr>"
  "exec symtab (''D=A'' # ls) \<lparr>regA = a, regD = d, RAM = m, jumped = None, accessed = t\<rparr> =
     exec symtab ls \<lparr>regA = a, regD = a, RAM = m, jumped = None, accessed = t\<rparr>"
  "exec symtab (''D=M'' # ls) \<lparr>regA = a, regD = d, RAM = m, jumped = None, accessed = t\<rparr> =
     exec symtab ls \<lparr>regA = a, regD = m a, RAM = m, jumped = None, accessed = t @ [a]\<rparr>"
  "exec symtab (''M=D'' # ls) \<lparr>regA = a, regD = d, RAM = m, jumped = None, accessed = t\<rparr> =
     exec symtab ls \<lparr>regA = a, regD = d, RAM = m(a := d), jumped = None, accessed = t @ [a]\<rparr>"
  "exec symtab (''A=M'' # ls) \<lparr>regA = a, regD = d, RAM = m, jumped = None, accessed = t\<rparr> =
     exec symtab ls \<lparr>regA = m a, regD = d, RAM = m, jumped = None, accessed = t @ [a]\<rparr>"
  "exec symtab (''AM=M+1'' # ls) \<lparr>regA = a, regD = d, RAM = m, jumped = None, accessed = t\<rparr> =
     exec symtab ls \<lparr>regA = m a + 1, regD = d, RAM = m(a := m a + 1), jumped = None, accessed = t @ [a, a]\<rparr>"
  "exec symtab (''AM=M-1'' # ls) \<lparr>regA = a, regD = d, RAM = m, jumped = None, accessed = t\<rparr> =
     exec symtab ls \<lparr>regA = m a - 1, regD = d, RAM = m(a := m a - 1), jumped = None, accessed = t @ [a, a]\<rparr>"
  "exec symtab (''M=M+1'' # ls) \<lparr>regA = a, regD = d, RAM = m, jumped = None, accessed = t\<rparr> =
     exec symtab ls \<lparr>regA = a, regD = d, RAM = m(a := m a + 1), jumped = None, accessed = t @ [a, a]\<rparr>"
  "exec symtab (''A=A-1'' # ls) \<lparr>regA = a, regD = d, RAM = m, jumped = None, accessed = t\<rparr> =
     exec symtab ls \<lparr>regA = a - 1, regD = d, RAM = m, jumped = None, accessed = t\<rparr>"
  "exec symtab (''A=M-1'' # ls) \<lparr>regA = a, regD = d, RAM = m, jumped = None, accessed = t\<rparr> =
     exec symtab ls \<lparr>regA = m a - 1, regD = d, RAM = m, jumped = None, accessed = t @ [a]\<rparr>"
  "exec symtab (''A=D+M'' # ls) \<lparr>regA = a, regD = d, RAM = m, jumped = None, accessed = t\<rparr> =
     exec symtab ls \<lparr>regA = m a + d, regD = d, RAM = m, jumped = None, accessed = t @ [a]\<rparr>"
  "exec symtab (''A=D+A'' # ls) \<lparr>regA = a, regD = d, RAM = m, jumped = None, accessed = t\<rparr> =
     exec symtab ls \<lparr>regA = a + d, regD = d, RAM = m, jumped = None, accessed = t\<rparr>"
  "exec symtab (''D=D+M'' # ls) \<lparr>regA = a, regD = d, RAM = m, jumped = None, accessed = t\<rparr> =
     exec symtab ls \<lparr>regA = a, regD = m a + d, RAM = m, jumped = None, accessed = t @ [a]\<rparr>"
  "exec symtab (''D=D+A'' # ls) \<lparr>regA = a, regD = d, RAM = m, jumped = None, accessed = t\<rparr> =
     exec symtab ls \<lparr>regA = a, regD = a + d, RAM = m, jumped = None, accessed = t\<rparr>"
  "exec symtab (''D=A-D'' # ls) \<lparr>regA = a, regD = d, RAM = m, jumped = None, accessed = t\<rparr> =
     exec symtab ls \<lparr>regA = a, regD = a - d, RAM = m, jumped = None, accessed = t\<rparr>"
  "exec symtab (''A=D-A'' # ls) \<lparr>regA = a, regD = d, RAM = m, jumped = None, accessed = t\<rparr> =
     exec symtab ls \<lparr>regA = d - a, regD = d, RAM = m, jumped = None, accessed = t\<rparr>"
  "exec symtab (''D=M+1'' # ls) \<lparr>regA = a, regD = d, RAM = m, jumped = None, accessed = t\<rparr> =
     exec symtab ls \<lparr>regA = a, regD = m a + 1, RAM = m, jumped = None, accessed = t @ [a]\<rparr>"
  "exec symtab (''ADM=M-1'' # ls) \<lparr>regA = a, regD = d, RAM = m, jumped = None, accessed = t\<rparr> =
     exec symtab ls \<lparr>regA = m a - 1, regD = m a - 1, RAM = m(a := m a - 1), jumped = None, accessed = t @ [a, a]\<rparr>"
  "exec symtab (''0;JMP'' # ls) \<lparr>regA = a, regD = d, RAM = m, jumped = None, accessed = t\<rparr> =
     Some \<lparr>regA = a, regD = d, RAM = m, jumped = Some a, accessed = t\<rparr>"
  by (simp_all add: parseAsm_symbols parseAsm_comps resolve_predefined execC_def Let_def exec_jumped add.commute)

lemma exec_comment:
  "exec symtab ((CHR ''/'' # CHR ''/'' # x) # ls) s = exec symtab ls s"
  by (cases "jumped s = None") (simp_all add: parseAsm_comment exec_jumped)

lemma exec_number:
  "0 \<le> n \<Longrightarrow> n < 32768 \<Longrightarrow>
   exec symtab ((CHR ''@'' # showInt n) # ls) \<lparr>regA = a, regD = d, RAM = m, jumped = None, accessed = t\<rparr> =
     exec symtab ls \<lparr>regA = word_of_int n, regD = d, RAM = m, jumped = None, accessed = t\<rparr>"
  by (simp add: parseAsm_number)

lemma exec_symbol:
  "isSymbol x \<Longrightarrow>
   exec symtab ((CHR ''@'' # x) # ls) \<lparr>regA = a, regD = d, RAM = m, jumped = None, accessed = t\<rparr> =
     exec symtab ls \<lparr>regA = resolve symtab x, regD = d, RAM = m, jumped = None, accessed = t\<rparr>"
  by (simp add: parseAsm_symbol)

declare exec.simps(2) [simp del]

text \<open>
  What it takes for a line that starts with \<open>@\<close> to be accepted, and what it loads then: a
  number between 0 and 32767, or a symbol.
\<close>

lemma validAsm_Cons: "validAsm (l # ls) \<longleftrightarrow> parseAsm l \<noteq> Invalid \<and> validAsm ls"
  by (simp add: validAsm_def)

lemma parseAsm_at_cases:
  assumes "parseAsm (CHR ''@'' # x) \<noteq> Invalid"
  shows "(\<exists>n. parseAsm (CHR ''@'' # x) = AConst n) \<or> parseAsm (CHR ''@'' # x) = ASymbol x"
  using assms by (auto simp add: parseAsm_def HasPrefix_def split: if_splits)

lemma aValue_valid:
  assumes "parseAsm (CHR ''@'' # x) \<noteq> Invalid"
  shows "\<exists>v. aValue symtab (CHR ''@'' # x) = Some v"
  using parseAsm_at_cases [OF assms] by (auto simp add: aValue_def)

lemma number_valid:
  assumes "parseAsm (CHR ''@'' # showInt n) \<noteq> Invalid"
  shows "0 \<le> n" "n < 32768"
proof -
  have neg: "n < 0 \<Longrightarrow> parseAsm (CHR ''@'' # showInt n) = Invalid"
    by (simp add: parseAsm_def HasPrefix_def showInt_def isDigit_def isSymbol_def isSymbolChar_def)
  with assms show "0 \<le> n" by fastforce
  then have "parseAsm (CHR ''@'' # showInt n) =
      (if n < 32768 then AConst (word_of_int n) else Invalid)"
    by (simp add: parseAsm_def HasPrefix_def showInt_def showNat_digits showNat_nonempty
        readDec_showNat)
  with assms show "n < 32768" by (auto split: if_splits)
qed

lemma symbol_valid:
  assumes "parseAsm (CHR ''@'' # x) \<noteq> Invalid" "\<not> list_all isDigit x"
  shows "isSymbol x"
  using assms by (auto simp add: parseAsm_def HasPrefix_def split: if_splits)

lemma static_symbol_valid:
  assumes "parseAsm (CHR ''@'' # f @ CHR ''.'' # showInt n) \<noteq> Invalid"
  shows "isSymbol (f @ CHR ''.'' # showInt n)"
proof (rule symbol_valid [OF assms])
  have "\<not> isDigit CHR ''.''" by (simp add: isDigit_def)
  then show "\<not> list_all isDigit (f @ CHR ''.'' # showInt n)" by simp
qed

lemma label_valid:
  assumes "parseAsm (CHR ''('' # x @ '')'') \<noteq> Invalid"
  shows "isSymbol x"
  using assms by (auto simp add: parseAsm_def HasPrefix_def split: if_splits)

lemma parseAsm_label:
  assumes "isSymbol x"
  shows "parseAsm (CHR ''('' # x @ '')'') = NoInstr"
  using assms by (simp add: parseAsm_def HasPrefix_def)

lemma aValue_number:
  assumes "parseAsm (CHR ''@'' # showInt n) \<noteq> Invalid"
  shows "aValue symtab (CHR ''@'' # showInt n) = Some (word_of_int n)"
  using number_valid [OF assms] by (simp add: aValue_def parseAsm_number)

lemma aValue_symbol:
  assumes "isSymbol x"
  shows "aValue symtab (CHR ''@'' # x) = Some (resolve symtab x)"
  using assms by (simp add: aValue_def parseAsm_symbol)

lemma exec_A:
  assumes "aValue symtab l = Some v"
  shows "exec symtab (l # ls) \<lparr>regA = a, regD = d, RAM = m, jumped = None, accessed = t\<rparr> =
     exec symtab ls \<lparr>regA = v, regD = d, RAM = m, jumped = None, accessed = t\<rparr>"
  using assms by (auto simp add: aValue_def exec.simps(2) split: asm_line.splits)

lemma exec_invalid:
  assumes "parseAsm l = Invalid"
  shows "exec symtab (l # ls) \<lparr>regA = a, regD = d, RAM = m, jumped = None, accessed = t\<rparr> = None"
  using assms by (simp add: exec.simps(2))

subsection \<open>The blocks of the memory-access commands\<close>

lemma sint_pos_nonzero: "0 < sint (x :: word16) \<Longrightarrow> x \<noteq> 0"
  by auto

lemma run_genConstantPUSH:
  assumes "jumped s = None" "0 \<le> n" "n < 32768" "RAM s 0 \<noteq> 0"
  shows "\<exists>s'. exec symtab (genConstantPUSH n) s = Some s' \<and> jumped s' = None
           \<and> RAM s' 0 = RAM s 0 + 1 \<and> accessed s' = accessed s @ [0, 0, RAM s 0]"
  using assms by (cases s) (simp add: genConstantPUSH_def exec_step exec_number)

lemma run_genSegmentPUSH:
  assumes "jumped s = None" "0 \<le> n" "n < 32768" "RAM s 0 \<noteq> 0"
    and "sgt \<in> {SegmentTypeLocal, SegmentTypeArgument, SegmentTypeThis, SegmentTypeThat}"
  shows "\<exists>s'. exec symtab (genSegmentPUSH sgt n) s = Some s' \<and> jumped s' = None
           \<and> RAM s' 0 = RAM s 0 + 1
           \<and> accessed s' = accessed s @
                [resolve symtab (SegmentType_ID sgt),
                 RAM s (resolve symtab (SegmentType_ID sgt)) + word_of_int n, 0, 0, RAM s 0]"
  using assms
  by (cases s) (auto simp add: genSegmentPUSH_def exec_step exec_number resolve_predefined)

lemma isSymbol_append_digits:
  assumes "isSymbol x" "list_all isDigit ds"
  shows "isSymbol (x @ ds)"
proof -
  from assms(2) have "list_all isSymbolChar ds"
    by (induction ds) (simp_all add: isDigit_isSymbolChar)
  with assms(1) show ?thesis by (cases x) (simp_all add: isSymbol_def)
qed

lemma run_genStaticPUSH:
  assumes "jumped s = None" "RAM s 0 \<noteq> 0"
    and "isSymbol (FileName i @ CHR ''.'' # showInt (Arg2Val i))"
  shows "\<exists>s'. exec symtab (genStaticPUSH i) s = Some s' \<and> jumped s' = None
           \<and> RAM s' 0 = RAM s 0 + 1
           \<and> accessed s' = accessed s @
                [resolve symtab (FileName i @ ''.'' @ showInt (Arg2Val i)), 0, 0, RAM s 0]"
  using assms by (cases s) (simp add: genStaticPUSH_def exec_step exec_symbol)

lemma run_genTempPUSH:
  assumes "jumped s = None" "RAM s 0 \<noteq> 0" "0 \<le> Arg2Val i" "Arg2Val i < 32768"
  shows "\<exists>s'. exec symtab (genTempPUSH i) s = Some s' \<and> jumped s' = None
           \<and> RAM s' 0 = RAM s 0 + 1
           \<and> accessed s' = accessed s @ [5 + word_of_int (Arg2Val i), 0, 0, RAM s 0]"
  using assms by (cases s) (simp add: genTempPUSH_def exec_step exec_number)

lemma run_genPointerPUSH:
  assumes "jumped s = None" "RAM s 0 \<noteq> 0"
  shows "\<exists>s'. exec symtab (genPointerPUSH i) s = Some s' \<and> jumped s' = None
           \<and> RAM s' 0 = RAM s 0 + 1
           \<and> accessed s' = accessed s @ [if Arg2Val i = 0 then 3 else 4, 0, RAM s 0, 0, 0]"
  using assms by (cases s) (simp add: genPointerPUSH_def exec_step)

lemma run_genConstantPOP:
  assumes "jumped s = None"
  shows "\<exists>s'. exec symtab genConstantPOP s = Some s' \<and> jumped s' = None
           \<and> RAM s' 0 = RAM s 0 - 1 \<and> accessed s' = accessed s @ [0, 0, RAM s 0 - 1]"
  using assms by (cases s) (simp add: genConstantPOP_def exec_step)

lemma run_genSegmentPOP:
  assumes "jumped s = None" "0 \<le> n" "n < 32768"
    and "sgt \<in> {SegmentTypeLocal, SegmentTypeArgument, SegmentTypeThis, SegmentTypeThat}"
    and "RAM s (resolve symtab (SegmentType_ID sgt)) + word_of_int n \<noteq> 0"
  shows "\<exists>s'. exec symtab (genSegmentPOP sgt n) s = Some s' \<and> jumped s' = None
           \<and> RAM s' 0 = RAM s 0 - 1
           \<and> accessed s' = accessed s @
                [resolve symtab (SegmentType_ID sgt), 13, 0, 0, RAM s 0 - 1, 13,
                 RAM s (resolve symtab (SegmentType_ID sgt)) + word_of_int n]"
  using assms
  by (cases s) (auto simp add: genSegmentPOP_def exec_step exec_number resolve_predefined)

lemma run_genStaticPOP:
  assumes "jumped s = None" "isSymbol (FileName i @ CHR ''.'' # showInt (Arg2Val i))"
    and "resolve symtab (FileName i @ ''.'' @ showInt (Arg2Val i)) \<noteq> 0"
  shows "\<exists>s'. exec symtab (genStaticPOP i) s = Some s' \<and> jumped s' = None
           \<and> RAM s' 0 = RAM s 0 - 1
           \<and> accessed s' = accessed s @
                [0, 0, RAM s 0 - 1, resolve symtab (FileName i @ ''.'' @ showInt (Arg2Val i))]"
  using assms by (cases s) (simp add: genStaticPOP_def exec_step exec_symbol)

lemma run_genTempPOP:
  assumes "jumped s = None" "0 \<le> Arg2Val i" "Arg2Val i < 32768"
    and "5 + word_of_int (Arg2Val i) \<noteq> (0 :: word16)"
  shows "\<exists>s'. exec symtab (genTempPOP i) s = Some s' \<and> jumped s' = None
           \<and> RAM s' 0 = RAM s 0 - 1
           \<and> accessed s' = accessed s @
                [13, 0, 0, RAM s 0 - 1, 13, 5 + word_of_int (Arg2Val i)]"
  using assms by (cases s) (simp add: genTempPOP_def exec_step exec_number)

lemma run_genPointerPOP:
  assumes "jumped s = None"
  shows "\<exists>s'. exec symtab (genPointerPOP i) s = Some s' \<and> jumped s' = None
           \<and> RAM s' 0 = RAM s 0 - 1
           \<and> accessed s' = accessed s @ [0, 0, RAM s 0 - 1, if Arg2Val i = 0 then 3 else 4]"
  using assms by (cases s) (simp add: genPointerPOP_def exec_step)

subsection \<open>The blocks of call and return\<close>

lemma wrap64_id: "- (2 ^ 63) \<le> x \<Longrightarrow> x < 2 ^ 63 \<Longrightarrow> wrap64 x = x"
  by (simp add: wrap64_def)

text \<open>The wrap-around of a 64-bit integer does not show in its 16 low bits.\<close>

lemma word_of_int_wrap64: "(word_of_int (wrap64 x) :: word16) = word_of_int x"
proof -
  define q where "q = (x + 2 ^ 63) div 2 ^ 64"
  have "(x + 2 ^ 63) mod 2 ^ 64 = (x + 2 ^ 63) - 2 ^ 64 * q"
    unfolding q_def by (rule minus_mult_div_eq_mod [symmetric])
  then have "wrap64 x = x - 2 ^ 64 * q" by (simp add: wrap64_def)
  also have "\<dots> = x - 2 ^ 16 * (2 ^ 48 * q)" by simp
  finally have "wrap64 x mod 2 ^ 16 = (x - 2 ^ 16 * (2 ^ 48 * q)) mod 2 ^ 16" by simp
  also have "\<dots> = x mod 2 ^ 16"
    by (metis mod_diff_right_eq mod_mult_self1_is_0 diff_zero)
  finally show ?thesis
    by (simp add: word_of_int_eq_iff take_bit_eq_mod)
qed

text \<open>
  The block of a call runs to its jump from every state, whatever the stack pointer is:
  each of its three parts (the push of the return address, the four pushes of the saved
  pointers, the setting of \<open>ARG\<close> and \<open>LCL\<close> with the jump) runs.
\<close>

lemma push_label_runs:
  assumes "jumped s = None" "aValue symtab l = Some v"
  shows "\<exists>s'. exec symtab [l, ''D=A'', ''@SP'', ''A=M'', ''M=D'', ''@SP'', ''M=M+1''] s = Some s'
           \<and> jumped s' = None"
  using assms by (cases s) (simp add: exec_step exec_A)

lemma callPushSegment_runs:
  assumes "jumped s = None"
    and "seg \<in> {SegmentTypeLocal, SegmentTypeArgument, SegmentTypeThis, SegmentTypeThat}"
  shows "\<exists>s'. exec symtab (callPushSegment seg) s = Some s' \<and> jumped s' = None"
  using assms by (cases s) (auto simp add: callPushSegment_def exec_step exec_comment)

lemma call_tail_runs:
  assumes "jumped s = None" "aValue symtab k = Some vk" "aValue symtab fl = Some vf"
  shows "\<exists>s'. exec symtab
             [''/// call ; ARG = SP - 5 - nArgs'', k, ''D=A'', ''@SP'', ''A=M'', ''D=A-D'',
              ''@ARG'', ''M=D'', ''/// call ; LCL = SP'', ''@SP'', ''D=M'', ''@LCL'', ''M=D'',
              CHR ''/'' # CHR ''/'' # c, fl, ''0;JMP'', lab] s = Some s'
           \<and> jumped s' = Some vf \<and> RAM s' 0 = RAM s 0
           \<and> RAM s' 1 = RAM s 0 \<and> RAM s' 2 = RAM s 0 - vk"
  using assms by (cases s) (simp add: exec_step exec_A exec_comment)

lemma run_genCall_any:
  assumes inblock: "jumped s = None"
    and lab: "aValue symtab (CHR ''@'' # retAddrLabel g) = Some vl"
    and cnt: "aValue symtab (CHR ''@'' # showInt (wrap64 (5 + n))) = Some vk"
    and callee: "aValue symtab (CHR ''@'' # f) = Some vf"
  shows "\<exists>s'. exec symtab (fst (genCall f n g)) s = Some s'
           \<and> jumped s' = Some vf \<and> RAM s' 1 = RAM s' 0 \<and> RAM s' 2 = RAM s' 0 - vk"
proof -
  let ?P0 = "[''/// call ; working with return address '' @ retAddrLabel g]"
  let ?P1 = "[CHR ''@'' # retAddrLabel g, ''D=A'', ''@SP'', ''A=M'', ''M=D'', ''@SP'', ''M=M+1'']"
  let ?T = "[''/// call ; ARG = SP - 5 - nArgs'', CHR ''@'' # showInt (wrap64 (5 + n)),
        ''D=A'', ''@SP'', ''A=M'', ''D=A-D'',
        ''@ARG'', ''M=D'', ''/// call ; LCL = SP'', ''@SP'', ''D=M'', ''@LCL'', ''M=D'',
        CHR ''/'' # CHR ''/'' # ''/ call ; goto function '' @ f, CHR ''@'' # f, ''0;JMP'',
        CHR ''('' # retAddrLabel g @ '')'']"
  have split: "fst (genCall f n g) =
      ?P0 @ ?P1 @ callPushSegment SegmentTypeLocal @ callPushSegment SegmentTypeArgument
        @ callPushSegment SegmentTypeThis @ callPushSegment SegmentTypeThat @ ?T"
    by (simp add: genCall_def)
  have e0: "exec symtab ?P0 s = Some s"
    by (simp add: exec_comment)
  from push_label_runs [OF inblock lab]
  obtain m0 where m0: "exec symtab ?P1 s = Some m0" "jumped m0 = None" by blast
  from callPushSegment_runs [OF m0(2), of SegmentTypeLocal symtab]
  obtain m1 where m1: "exec symtab (callPushSegment SegmentTypeLocal) m0 = Some m1"
    "jumped m1 = None" by auto
  from callPushSegment_runs [OF m1(2), of SegmentTypeArgument symtab]
  obtain m2 where m2: "exec symtab (callPushSegment SegmentTypeArgument) m1 = Some m2"
    "jumped m2 = None" by auto
  from callPushSegment_runs [OF m2(2), of SegmentTypeThis symtab]
  obtain m3 where m3: "exec symtab (callPushSegment SegmentTypeThis) m2 = Some m3"
    "jumped m3 = None" by auto
  from callPushSegment_runs [OF m3(2), of SegmentTypeThat symtab]
  obtain m4 where m4: "exec symtab (callPushSegment SegmentTypeThat) m3 = Some m4"
    "jumped m4 = None" by auto
  from call_tail_runs [OF m4(2) cnt callee]
  obtain s' where t: "exec symtab ?T m4 = Some s'" "jumped s' = Some vf"
    "RAM s' 0 = RAM m4 0" "RAM s' 1 = RAM m4 0" "RAM s' 2 = RAM m4 0 - vk"
    by blast
  have "exec symtab (fst (genCall f n g)) s = Some s'"
    by (simp only: split e0 exec_append m0 m1 m2 m3 m4 t option.case)
  with t show ?thesis by simp
qed

text \<open>
  When none of the five frame cells is one of the cells 0 to 4, the pushed values are
  found in the frame afterwards.
\<close>

lemma frame_clear_facts:
  assumes "frameCells sp \<inter> {0, 1, 2, 3, 4} = {}"
  shows "sp \<noteq> 0" "sp \<noteq> 1" "sp \<noteq> 2" "sp \<noteq> 3" "sp \<noteq> 4"
    "sp + 1 \<noteq> 0" "sp + 1 \<noteq> 1" "sp + 1 \<noteq> 2" "sp + 1 \<noteq> 3" "sp + 1 \<noteq> 4"
    "sp + 2 \<noteq> 0" "sp + 2 \<noteq> 1" "sp + 2 \<noteq> 2" "sp + 2 \<noteq> 3" "sp + 2 \<noteq> 4"
    "sp + 3 \<noteq> 0" "sp + 3 \<noteq> 1" "sp + 3 \<noteq> 2" "sp + 3 \<noteq> 3" "sp + 3 \<noteq> 4"
    "sp + 4 \<noteq> 0" "sp + 4 \<noteq> 1" "sp + 4 \<noteq> 2" "sp + 4 \<noteq> 3" "sp + 4 \<noteq> 4"
    "1 + sp \<noteq> 0" "2 + sp \<noteq> 0" "3 + sp \<noteq> 0" "4 + sp \<noteq> 0"
  using assms by (auto simp add: frameCells_def add.commute)

lemma run_genCall_frame:
  assumes inblock: "jumped s = None"
    and lab: "aValue symtab (CHR ''@'' # retAddrLabel g) = Some vl"
    and cnt: "aValue symtab (CHR ''@'' # showInt (wrap64 (5 + n))) = Some vk"
    and callee: "aValue symtab (CHR ''@'' # f) = Some vf"
    and clear: "frameCells (RAM s 0) \<inter> {0, 1, 2, 3, 4} = {}"
  shows "\<exists>s'. exec symtab (fst (genCall f n g)) s = Some s'
           \<and> RAM s' (RAM s 0) = vl
           \<and> RAM s' (RAM s 0 + 1) = RAM s 1
           \<and> RAM s' (RAM s 0 + 2) = RAM s 2
           \<and> RAM s' (RAM s 0 + 3) = RAM s 3
           \<and> RAM s' (RAM s 0 + 4) = RAM s 4
           \<and> RAM s' 0 = RAM s 0 + 5
           \<and> RAM s' 3 = RAM s 3
           \<and> RAM s' 4 = RAM s 4"
proof -
  note d = frame_clear_facts [OF clear]
  show ?thesis
    using inblock lab cnt callee d
    by (cases s)
      (simp add: genCall_def callPushSegment_def exec_step exec_A exec_comment)
qed

text \<open>
  The block of a return, run where the cells it goes through do not overlap: the frame, the
  cell \<open>ARG\<close> points to, the top of the stack, the registers 0 to 4 and the two cells 13 and
  14 that the block uses for the frame pointer and the return address.
\<close>

lemma return_clear_facts:
  fixes L a t :: word16
  assumes "{L - 5, L - 4, L - 3, L - 2, L - 1} \<inter> {0, 1, 2, 3, 4, 13} = {}"
    and "14 \<notin> {L - 4, L - 3, L - 2, L - 1}"
    and "a \<notin> {0, 1, 2, 3, 4, 13, 14} \<union> {L - 4, L - 3, L - 2, L - 1}"
    and "t \<notin> {13, 14}"
  shows "L - 1 \<noteq> 0" "L - 1 \<noteq> 1" "L - 1 \<noteq> 2" "L - 1 \<noteq> 3" "L - 1 \<noteq> 4" "L - 1 \<noteq> 13" "L - 1 \<noteq> 14"
    "L - 2 \<noteq> 0" "L - 2 \<noteq> 1" "L - 2 \<noteq> 2" "L - 2 \<noteq> 3" "L - 2 \<noteq> 4" "L - 2 \<noteq> 13" "L - 2 \<noteq> 14"
    "L - 3 \<noteq> 0" "L - 3 \<noteq> 1" "L - 3 \<noteq> 2" "L - 3 \<noteq> 3" "L - 3 \<noteq> 4" "L - 3 \<noteq> 13" "L - 3 \<noteq> 14"
    "L - 4 \<noteq> 0" "L - 4 \<noteq> 1" "L - 4 \<noteq> 2" "L - 4 \<noteq> 3" "L - 4 \<noteq> 4" "L - 4 \<noteq> 13" "L - 4 \<noteq> 14"
    "L - 5 \<noteq> 0" "L - 5 \<noteq> 1" "L - 5 \<noteq> 2" "L - 5 \<noteq> 3" "L - 5 \<noteq> 4" "L - 5 \<noteq> 13"
    "a \<noteq> 0" "a \<noteq> 1" "a \<noteq> 2" "a \<noteq> 3" "a \<noteq> 4" "a \<noteq> 13" "a \<noteq> 14"
    "L - 1 \<noteq> a" "L - 2 \<noteq> a" "L - 3 \<noteq> a" "L - 4 \<noteq> a"
    "t \<noteq> 13" "t \<noteq> 14"
  using assms by auto

lemma run_genReturn:
  assumes inblock: "jumped s = None"
    and frame: "{RAM s 1 - 5, RAM s 1 - 4, RAM s 1 - 3, RAM s 1 - 2, RAM s 1 - 1}
        \<inter> {0, 1, 2, 3, 4, 13} = {}"
      "14 \<notin> {RAM s 1 - 4, RAM s 1 - 3, RAM s 1 - 2, RAM s 1 - 1}"
    and arg: "RAM s 2 \<notin> {0, 1, 2, 3, 4, 13, 14}
        \<union> {RAM s 1 - 4, RAM s 1 - 3, RAM s 1 - 2, RAM s 1 - 1}"
    and top: "RAM s 0 - 1 \<notin> {13, 14}"
  shows "\<exists>s'. exec symtab (genReturn i) s = Some s'
           \<and> jumped s' = Some (RAM s (RAM s 1 - 5))
           \<and> RAM s' (RAM s 2) = RAM s (RAM s 0 - 1)
           \<and> RAM s' 0 = RAM s 2 + 1
           \<and> RAM s' 4 = RAM s (RAM s 1 - 1)
           \<and> RAM s' 3 = RAM s (RAM s 1 - 2)
           \<and> RAM s' 2 = RAM s (RAM s 1 - 3)
           \<and> RAM s' 1 = RAM s (RAM s 1 - 4)"
proof -
  note d = return_clear_facts [OF frame arg top]
  show ?thesis
    using inblock d
    by (cases s)
      (simp add: genReturn_def returnRestoreSegment_def exec_step exec_comment)
qed

section \<open>The parser's failures\<close>

lemmas parser_defs = parseInstruction_def parseArg1_def parseArg2_def commandOf_def segmentOf_def
  validAL_def alOf_def ToLower_def lowerChar_def

lemma Split_nonempty: "Split s sep \<noteq> []"
  by (induction s) (auto split: list.splits)

lemma Split_no_sep: "sep \<notin> set s \<Longrightarrow> Split s sep = [s]"
  by (induction s) auto

lemma parseArg1_Inl:
  assumes "parseArg1 ct parts = Inl e"
  shows "e \<in> {IndexOutOfRange 1 (length parts),
              Err (''invalid arg1 segment type: '' @ parts ! 1),
              Err ''invalid arg1 return, no argument expected'',
              Err (''invalid command type: '' @ parts ! 0)}"
  using assms by (auto simp add: parseArg1_def split: if_splits option.splits)

lemma parseArg2_Inl:
  assumes "parseArg2 ct parts = Inl e"
  shows "e \<in> {Err (''invalid arg2 value: '' @ parts ! 2), Err ''invalid arg2 value: ''}"
  using assms by (auto simp add: parseArg2_def split: if_splits option.splits)

text \<open>
  Claim C7 says that a line whose token count does not fit its command kind, such as a lone
  \<open>push\<close> or a lone \<open>label\<close>, makes the parser return an error and never panic. The parser
  checks the length of \<open>parts\<close> before it reads \<open>parts[2]\<close>, but not before it reads
  \<open>parts[1]\<close>: on the one-token lines \<open>push\<close> and \<open>label\<close> it stops with the run-time panic
  for index 1 of a slice of length 1, whatever the index and the module are.
\<close>

theorem lone_command_panics:
  "parseInstruction index fileName ''push'' = Inl (IndexOutOfRange 1 1)
   \<and> parseInstruction index fileName ''label'' = Inl (IndexOutOfRange 1 1)"
  by (simp add: parser_defs)

text \<open>
  Claim C9 says that the error for a rejected line names the module, the 0-based command
  index and the offending line. What holds instead: the failure is a function of the line
  alone. It is the same for every index and every module name, and its text is one of six
  fixed forms that carry at most the number of tokens or one token of the line (the panic
  of claim C7 is the seventh outcome).
\<close>

theorem parse_error_ignores_module_and_index:
  assumes "parseInstruction index fileName line = Inl e"
  shows "parseInstruction index' fileName' line = Inl e
    \<and> e \<in> {Err (''invalid instruction length: '' @ showInt (int (length (Split line CHR '' '')))),
           Err (''invalid command type: '' @ Split line CHR '' '' ! 0),
           Err (''invalid arg1 segment type: '' @ Split line CHR '' '' ! 1),
           Err ''invalid arg1 return, no argument expected'',
           Err (''invalid arg2 value: '' @ Split line CHR '' '' ! 2),
           Err ''invalid arg2 value: '',
           IndexOutOfRange 1 1}"
proof -
  define parts where "parts = Split line CHR '' ''"
  have ne: "parts \<noteq> []" by (simp add: parts_def Split_nonempty)
  show ?thesis
  proof (cases "length parts > 3")
    case True
    with assms show ?thesis
      by (simp add: parseInstruction_def Let_def flip: parts_def)
  next
    case short: False
    show ?thesis
    proof (cases "length parts = 1 \<and> parts ! 0 \<in> set validAL")
      case True
      with assms short ne show ?thesis
        by (simp add: parseInstruction_def Let_def flip: parts_def)
    next
      case noal: False
      show ?thesis
      proof (cases "commandOf (ToLower (parts ! 0))")
        case None
        with assms short noal ne show ?thesis
          by (auto simp add: parseInstruction_def Let_def simp flip: parts_def)
      next
        case (Some ct)
        show ?thesis
        proof (cases "parseArg1 ct parts")
          case (Inl e1)
          from parseArg1_Inl [OF Inl] short ne
          have "e1 \<in> {IndexOutOfRange 1 (length parts),
              Err (''invalid arg1 segment type: '' @ parts ! 1),
              Err ''invalid arg1 return, no argument expected'',
              Err (''invalid command type: '' @ parts ! 0)}" by simp
          moreover have "e1 = IndexOutOfRange 1 (length parts) \<Longrightarrow> length parts = 1"
            using Inl ne by (cases parts) (auto simp add: parseArg1_def split: if_splits option.splits)
          ultimately show ?thesis
            using assms short noal ne Some Inl
            by (auto simp add: parseInstruction_def Let_def simp flip: parts_def)
        next
          case (Inr r1)
          show ?thesis
          proof (cases "parseArg2 ct parts")
            case (Inl e2)
            from parseArg2_Inl [OF Inl] show ?thesis
              using assms short noal ne Some Inr Inl
              by (auto simp add: parseInstruction_def Let_def split: prod.splits simp flip: parts_def)
          next
            case r2: (Inr r2)
            with assms short noal ne Some Inr show ?thesis
              by (auto simp add: parseInstruction_def Let_def split: prod.splits simp flip: parts_def)
          qed
        qed
      qed
    qed
  qed
qed

text \<open>
  The theorem at a line with an unknown segment: the error read at index 2 in module
  \<open>Main\<close> is the error at index 9 in module \<open>Sys\<close>.
\<close>

theorem parse_error_ignores_module_and_index_witness:
  "parseInstruction 2 ''Main'' ''push nowhere 3'' = Inl (Err ''invalid arg1 segment type: nowhere'')
   \<and> parseInstruction 9 ''Sys'' ''push nowhere 3'' = Inl (Err ''invalid arg1 segment type: nowhere'')"
proof -
  have h: "parseInstruction 2 ''Main'' ''push nowhere 3''
             = Inl (Err ''invalid arg1 segment type: nowhere'')"
    by (simp add: parser_defs)
  from parse_error_ignores_module_and_index [OF h, of 9 "''Sys''"] h show ?thesis
    by simp
qed

text \<open>
  Claim C9 as it is written fails: two rejected lines that differ in module, index and text
  are reported with one and the same error, so the error does not tell which module,
  index or line it comes from.
\<close>

theorem parse_error_names_no_module_counterexample:
  "parseInstruction 0 ''Main'' ''bogus x'' = Inl (Err ''invalid command type: bogus'')
   \<and> parseInstruction 7 ''Other'' ''bogus y'' = Inl (Err ''invalid command type: bogus'')"
  by (simp add: parser_defs)

section \<open>Labels\<close>

text \<open>
  Claim C3 says that the jump target emitted for \<open>label L\<close> is built from the name of the
  most recently declared function and \<open>L\<close>. What holds instead: for a symbol without a
  space the command is accepted and the lines emitted are the echo of the command and
  \<open>(L)\<close>, the symbol alone, whatever the generator state (and so whatever the current
  function) is.
\<close>

theorem label_target_ignores_function:
  assumes "CHR '' '' \<notin> set L"
  shows "\<exists>i. parseInstruction index fileName (''label '' @ L) = Inr i
           \<and> (\<forall>g. GenAsm i g = ([''// label '' @ L, ''('' @ L @ '')''], g))"
  using assms by (simp add: parser_defs Split_no_sep GenAsm_def)

text \<open>The theorem at the symbol \<open>LOOP\<close>.\<close>

theorem label_target_ignores_function_witness:
  "CHR '' '' \<notin> set ''LOOP''
   \<and> (\<exists>i. parseInstruction 3 ''Main'' (''label '' @ ''LOOP'') = Inr i
          \<and> (\<forall>g. GenAsm i g = ([''// label '' @ ''LOOP'', ''('' @ ''LOOP'' @ '')''], g)))"
proof -
  have h: "CHR '' '' \<notin> set ''LOOP''" by simp
  from label_target_ignores_function [OF h, of 3 "''Main''"] h show ?thesis
    by blast
qed

text \<open>
  Claim C3 as it is written fails: in a module that declares the label \<open>X\<close> once under
  function \<open>A\<close> and once under function \<open>B\<close>, both declarations are emitted as \<open>(X)\<close>.
\<close>

theorem label_reused_in_two_functions_counterexample:
  "translate [\<lparr>fname = ''Main.vm'',
               flines = [''function A 0'', ''label X'', ''function B 0'', ''label X'']\<rparr>]
   = Written [''// function A 0'', ''(A)'', ''// label X'', ''(X)'',
              ''// function B 0'', ''(B)'', ''// label X'', ''(X)'']"
  by code_simp

section \<open>Numeric fields\<close>

lemma Split_append_sep: "sep \<notin> set x \<Longrightarrow> Split (x @ sep # y) sep = x # Split y sep"
  by (induction x) (auto split: list.splits)

lemma isDigit_not_sign: "isDigit c \<Longrightarrow> c \<noteq> CHR ''-'' \<and> c \<noteq> CHR ''+'' \<and> c \<noteq> CHR '' ''"
  by (auto simp add: isDigit_def)

lemma digits_no_space: "list_all isDigit ds \<Longrightarrow> CHR '' '' \<notin> set ds"
  by (induction ds) (auto simp add: isDigit_def)

lemma Atoi_Some_token:
  assumes "Atoi t = Some n"
  shows "t \<noteq> []" and "CHR '' '' \<notin> set t"
proof -
  from assms show "t \<noteq> []" by (auto simp add: Atoi_def Let_def split: if_splits)
  show "CHR '' '' \<notin> set t"
  proof (cases t)
    case Nil
    then show ?thesis by simp
  next
    case (Cons c cs)
    with assms show ?thesis
      by (auto simp add: Atoi_def Let_def isDigit_def dest: digits_no_space split: if_splits)
  qed
qed

lemma Atoi_showInt:
  assumes "- (2 ^ 63) \<le> n" "n < 2 ^ 63"
  shows "Atoi (showInt n) = Some n"
proof (cases "n < 0")
  case True
  with assms show ?thesis
    by (simp add: Atoi_def showInt_def Let_def showNat_nonempty showNat_digits readDec_showNat)
next
  case False
  from hd_showNat_digit [of "nat n"] have "hd (showNat (nat n)) \<noteq> CHR ''-''"
    "hd (showNat (nat n)) \<noteq> CHR ''+''"
    by (auto dest: isDigit_not_sign)
  with False assms show ?thesis
    by (simp add: Atoi_def showInt_def Let_def showNat_nonempty showNat_digits readDec_showNat)
qed

lemma showInt_token: "showInt n \<noteq> []" "CHR '' '' \<notin> set (showInt n)"
  using showNat_nonempty digits_no_space [OF showNat_digits]
  by (auto simp add: showInt_def)

lemma parse_three_tokens:
  assumes "Split line CHR '' '' = [c, a, t]"
  shows "parseInstruction index fileName line =
     (case commandOf (ToLower c) of
        None \<Rightarrow> Inl (Err (''invalid command type: '' @ c))
      | Some ct \<Rightarrow>
          (case parseArg1 ct [c, a, t] of
             Inl e \<Rightarrow> Inl e
           | Inr (st, arg1) \<Rightarrow>
               (case parseArg2 ct [c, a, t] of
                  Inl e \<Rightarrow> Inl e
                | Inr (arg2, arg2Val) \<Rightarrow>
                    Inr \<lparr>FileName = fileName, Line = line, CommandType = ct,
                         Arg1 = arg1, SegmentType = st, Arg2 = arg2, Arg2Val = arg2Val,
                         ALType = ALTypeAdd, Index = 0\<rparr>)))"
  by (simp add: parseInstruction_def Let_def assms split: option.splits)

lemma three_tokens:
  assumes "CHR '' '' \<notin> set c" "CHR '' '' \<notin> set a" "CHR '' '' \<notin> set t"
  shows "Split (c @ '' '' @ a @ '' '' @ t) CHR '' '' = [c, a, t]"
  using assms by (simp add: Split_append_sep Split_no_sep)

lemma command_words:
  "commandOf (ToLower ''push'') = Some CommandTypePush"
  "commandOf (ToLower ''pop'') = Some CommandTypePop"
  "commandOf (ToLower ''function'') = Some CommandTypeFunction"
  "commandOf (ToLower ''call'') = Some CommandTypeCall"
  by (simp_all add: commandOf_def ToLower_def lowerChar_def)

text \<open>
  Claim C8 says that a push, pop, function or call command whose numeric token is a negative
  integer is rejected. What holds instead: the numeric token is only required to be the
  text of an integer that \<open>strconv.Atoi\<close> reads. For each of the four commands (with a
  known segment after push and pop), the decimal text of every 64-bit integer \<open>n\<close>, negative
  ones included, is accepted and \<open>n\<close> is recorded as the value; a non-empty token that is
  not such a text is rejected with \<open>invalid arg2 value\<close>.
\<close>

theorem numeric_field_accepts_negative_integers:
  assumes cmd: "c \<in> {''push'', ''pop'', ''function'', ''call''}"
    and arg: "CHR '' '' \<notin> set a"
    and seg: "c \<in> {''push'', ''pop''} \<longrightarrow> segmentOf (ToLower a) \<noteq> None"
  shows "(- (2 ^ 63) \<le> n \<and> n < 2 ^ 63 \<longrightarrow>
            (\<exists>i. parseInstruction index fileName (c @ '' '' @ a @ '' '' @ showInt n) = Inr i
                  \<and> Arg2Val i = n \<and> Arg2 i = showInt n))
       \<and> (t \<noteq> [] \<and> CHR '' '' \<notin> set t \<and> Atoi t = None \<longrightarrow>
            parseInstruction index fileName (c @ '' '' @ a @ '' '' @ t)
              = Inl (Err (''invalid arg2 value: '' @ t)))"
proof -
  from cmd have cs: "CHR '' '' \<notin> set c" by auto
  have sp: "Split (c @ '' '' @ a @ '' '' @ x) CHR '' '' = [c, a, x]" if "CHR '' '' \<notin> set x" for x
    using cs arg that by (rule three_tokens)
  obtain ct where ct: "commandOf (ToLower c) = Some ct"
    and kinds: "ct = CommandTypePush \<or> ct = CommandTypePop \<or> ct = CommandTypeFunction \<or> ct = CommandTypeCall"
    and pp: "ct = CommandTypePush \<or> ct = CommandTypePop \<Longrightarrow> c \<in> {''push'', ''pop''}"
    using cmd command_words by auto
  have a1: "\<exists>r. parseArg1 ct [c, a, x] = Inr r" for x
    using kinds pp seg by (auto simp add: parseArg1_def split: option.splits)
  have a2: "parseArg2 ct [c, a, x] =
      (case Atoi x of None \<Rightarrow> Inl (Err (''invalid arg2 value: '' @ x)) | Some v \<Rightarrow> Inr (x, v))"
    if "x \<noteq> []" for x
    using kinds that by (auto simp add: parseArg2_def numeral_2_eq_2 split: option.splits)
  have accept: "\<exists>i. parseInstruction index fileName (c @ '' '' @ a @ '' '' @ showInt n) = Inr i
                  \<and> Arg2Val i = n \<and> Arg2 i = showInt n"
    if r: "- (2 ^ 63) \<le> n" "n < 2 ^ 63"
  proof -
    from a1 obtain st arg1 where "parseArg1 ct [c, a, showInt n] = Inr (st, arg1)"
      by (metis surj_pair)
    then show ?thesis
      using ct a2 [OF showInt_token(1), of n] Atoi_showInt [OF r]
      by (subst parse_three_tokens [OF sp [OF showInt_token(2)]]) simp
  qed
  have reject: "parseInstruction index fileName (c @ '' '' @ a @ '' '' @ t)
              = Inl (Err (''invalid arg2 value: '' @ t))"
    if t: "t \<noteq> []" "CHR '' '' \<notin> set t" "Atoi t = None"
  proof -
    from a1 obtain st arg1 where "parseArg1 ct [c, a, t] = Inr (st, arg1)"
      by (metis surj_pair)
    then show ?thesis
      using ct a2 [OF t(1)] t(3)
      by (subst parse_three_tokens [OF sp [OF t(2)]]) simp
  qed
  from accept reject show ?thesis by blast
qed

text \<open>
  The theorem at the command \<open>call Main.f\<close>: the token \<open>-2\<close> is accepted with value \<open>-2\<close>,
  the token \<open>x1\<close> is rejected.
\<close>

theorem numeric_field_accepts_negative_integers_witness:
  "''call'' \<in> {''push'', ''pop'', ''function'', ''call''}
   \<and> CHR '' '' \<notin> set ''Main.f''
   \<and> (- (2 ^ 63) \<le> (- 2 :: int) \<and> (- 2 :: int) < 2 ^ 63)
   \<and> (\<exists>i. parseInstruction 4 ''Main'' (''call'' @ '' '' @ ''Main.f'' @ '' '' @ showInt (- 2)) = Inr i
          \<and> Arg2Val i = - 2 \<and> Arg2 i = showInt (- 2))
   \<and> (''x1'' \<noteq> [] \<and> CHR '' '' \<notin> set ''x1'' \<and> Atoi ''x1'' = None)
   \<and> parseInstruction 4 ''Main'' (''call'' @ '' '' @ ''Main.f'' @ '' '' @ ''x1'')
         = Inl (Err (''invalid arg2 value: '' @ ''x1''))"
proof -
  have c: "''call'' \<in> {''push'', ''pop'', ''function'', ''call''}" by simp
  have a: "CHR '' '' \<notin> set ''Main.f''" by simp
  have s: "''call'' \<in> {''push'', ''pop''} \<longrightarrow> segmentOf (ToLower ''Main.f'') \<noteq> None" by simp
  have r: "- (2 ^ 63) \<le> (- 2 :: int) \<and> (- 2 :: int) < 2 ^ 63" by simp
  have t: "''x1'' \<noteq> [] \<and> CHR '' '' \<notin> set ''x1'' \<and> Atoi ''x1'' = None"
    by (simp add: Atoi_def isDigit_def)
  from numeric_field_accepts_negative_integers [OF c a s, of "- 2" 4 "''Main''" "''x1''"] c a r t
  show ?thesis by blast
qed

text \<open>
  Claim C8 as it is written fails: \<open>push constant -3\<close> is parsed into a push command with
  the offset \<open>-3\<close>.
\<close>

theorem negative_offset_accepted_counterexample:
  "parseInstruction 0 ''Main'' ''push constant -3''
     = Inr \<lparr>FileName = ''Main'', Line = ''push constant -3'', CommandType = CommandTypePush,
            Arg1 = ''constant'', SegmentType = SegmentTypeConstant, Arg2 = ''-3'',
            Arg2Val = - 3, ALType = ALTypeAdd, Index = 0\<rparr>"
  by (simp add: parser_defs Atoi_def isDigit_def readDec_def digitVal_def)

section \<open>The pointer segment\<close>

lemma run_genPointerPUSH_value:
  assumes "jumped s = None" "RAM s 0 \<noteq> 0"
  shows "\<exists>s'. exec symtab (genPointerPUSH i) s = Some s' \<and> jumped s' = None
           \<and> RAM s' 0 = RAM s 0 + 1
           \<and> RAM s' (RAM s 0) = RAM s (if Arg2Val i = 0 then 3 else 4)
           \<and> RAM s' 3 = (if RAM s 0 = 3 then RAM s' 3 else RAM s 3)
           \<and> RAM s' 4 = (if RAM s 0 = 4 then RAM s' 4 else RAM s 4)"
  using assms by (cases s) (simp add: genPointerPUSH_def exec_step)

lemma run_genPointerPOP_value:
  assumes "jumped s = None" "RAM s 0 \<noteq> 1"
  shows "\<exists>s'. exec symtab (genPointerPOP i) s = Some s' \<and> jumped s' = None
           \<and> RAM s' 0 = RAM s 0 - 1
           \<and> RAM s' (if Arg2Val i = 0 then 3 else 4) = RAM s (RAM s 0 - 1)
           \<and> RAM s' (if Arg2Val i = 0 then 4 else 3) = RAM s (if Arg2Val i = 0 then 4 else 3)"
  using assms by (cases s) (simp add: genPointerPOP_def exec_step)

lemma pointer_words:
  "commandOf (ToLower ''push'') = Some CommandTypePush"
  "commandOf (ToLower ''pop'') = Some CommandTypePop"
  "segmentOf ''pointer'' = Some SegmentTypePointer"
  "ToLower ''pointer'' = ''pointer''"
  by (simp_all add: commandOf_def segmentOf_def ToLower_def lowerChar_def)

lemma parse_pointer:
  assumes "Atoi t = Some n" "c = ''push'' \<or> c = ''pop''"
  shows "parseInstruction index fileName (c @ '' pointer '' @ t) =
           Inr \<lparr>FileName = fileName, Line = c @ '' pointer '' @ t,
                CommandType = (if c = ''push'' then CommandTypePush else CommandTypePop),
                Arg1 = ''pointer'', SegmentType = SegmentTypePointer, Arg2 = t, Arg2Val = n,
                ALType = ALTypeAdd, Index = 0\<rparr>"
proof -
  note tok = Atoi_Some_token [OF assms(1)]
  from assms(2) have cs: "CHR '' '' \<notin> set c" by auto
  have "Split (c @ '' '' @ ''pointer'' @ '' '' @ t) CHR '' '' = [c, ''pointer'', t]"
    using cs _ tok(2) by (rule three_tokens) simp
  then have sp: "Split (c @ '' pointer '' @ t) CHR '' '' = [c, ''pointer'', t]" by simp
  show ?thesis
    using assms tok(1)
    by (subst parse_three_tokens [OF sp])
      (auto simp add: pointer_words parseArg1_def parseArg2_def numeral_2_eq_2)
qed


text \<open>
  Claim C10: a push or pop on the \<open>pointer\<close> segment accepts every offset, and every
  offset other than 0 is treated as offset 1. For every numeric token that reads as an
  integer \<open>n\<close>, both commands are accepted with offset \<open>n\<close>; when \<open>n\<close> is not 0 the
  generated instructions are those for offset 1. Run from a state whose stack pointer is
  neither 0 nor 1, the push stores the content of register \<open>THAT\<close> (cell 4) on the stack when
  \<open>n\<close> is not 0 and that of \<open>THIS\<close> (cell 3) only when \<open>n\<close> is 0, and the pop stores the top of
  the stack into the same register and leaves the other one alone.
\<close>

theorem pointer_offset_other_than_zero_selects_that:
  assumes tok: "Atoi t = Some n"
    and st: "jumped s = None" "RAM s 0 \<noteq> 0" "RAM s 0 \<noteq> 1"
  shows "\<exists>i j sp sq.
      parseInstruction index fileName (''push pointer '' @ t) = Inr i
    \<and> parseInstruction index fileName (''pop pointer '' @ t) = Inr j
    \<and> Arg2Val i = n \<and> Arg2Val j = n
    \<and> (n \<noteq> 0 \<longrightarrow> genPointerPUSH i = genPointerPUSH (i\<lparr>Arg2Val := 1\<rparr>)
                \<and> genPointerPOP j = genPointerPOP (j\<lparr>Arg2Val := 1\<rparr>))
    \<and> exec symtab (fst (GenAsm i g)) s = Some sp
    \<and> RAM sp 0 = RAM s 0 + 1
    \<and> RAM sp (RAM s 0) = RAM s (if n = 0 then 3 else 4)
    \<and> exec symtab (fst (GenAsm j g)) s = Some sq
    \<and> RAM sq 0 = RAM s 0 - 1
    \<and> RAM sq (if n = 0 then 3 else 4) = RAM s (RAM s 0 - 1)
    \<and> RAM sq (if n = 0 then 4 else 3) = RAM s (if n = 0 then 4 else 3)"
proof -
  define i where "i = \<lparr>FileName = fileName, Line = ''push'' @ '' pointer '' @ t,
      CommandType = CommandTypePush, Arg1 = ''pointer'', SegmentType = SegmentTypePointer,
      Arg2 = t, Arg2Val = n, ALType = ALTypeAdd, Index = 0\<rparr>"
  define j where "j = \<lparr>FileName = fileName, Line = ''pop'' @ '' pointer '' @ t,
      CommandType = CommandTypePop, Arg1 = ''pointer'', SegmentType = SegmentTypePointer,
      Arg2 = t, Arg2Val = n, ALType = ALTypeAdd, Index = 0\<rparr>"
  have pi: "parseInstruction index fileName (''push pointer '' @ t) = Inr i"
    using parse_pointer [OF tok, of "''push''" index fileName] by (simp add: i_def)
  have pj: "parseInstruction index fileName (''pop pointer '' @ t) = Inr j"
    using parse_pointer [OF tok, of "''pop''" index fileName] by (simp add: j_def)
  have gi: "fst (GenAsm i g) = (''// '' @ Line i) # genPointerPUSH i"
    by (simp add: GenAsm_def i_def)
  have gj: "fst (GenAsm j g) = (''// '' @ Line j) # genPointerPOP j"
    by (simp add: GenAsm_def j_def)
  have same: "n \<noteq> 0 \<longrightarrow> genPointerPUSH i = genPointerPUSH (i\<lparr>Arg2Val := 1\<rparr>)
                \<and> genPointerPOP j = genPointerPOP (j\<lparr>Arg2Val := 1\<rparr>)"
    by (simp add: genPointerPUSH_def genPointerPOP_def i_def j_def)
  from run_genPointerPUSH_value [OF st(1,2), of symtab i]
  obtain sp where sp: "exec symtab (genPointerPUSH i) s = Some sp"
    "RAM sp 0 = RAM s 0 + 1" "RAM sp (RAM s 0) = RAM s (if n = 0 then 3 else 4)"
    by (auto simp add: i_def)
  from run_genPointerPOP_value [OF st(1,3), of symtab j]
  obtain sq where sq: "exec symtab (genPointerPOP j) s = Some sq"
    "RAM sq 0 = RAM s 0 - 1" "RAM sq (if n = 0 then 3 else 4) = RAM s (RAM s 0 - 1)"
    "RAM sq (if n = 0 then 4 else 3) = RAM s (if n = 0 then 4 else 3)"
    by (auto simp add: j_def)
  have ei: "exec symtab (fst (GenAsm i g)) s = Some sp"
    using sp(1) by (simp add: gi exec_comment)
  have ej: "exec symtab (fst (GenAsm j g)) s = Some sq"
    using sq(1) by (simp add: gj exec_comment)
  have vi: "Arg2Val i = n" and vj: "Arg2Val j = n" by (simp_all add: i_def j_def)
  from pi pj vi vj same ei sp(2,3) ej sq(2,3,4) show ?thesis by blast
qed

text \<open>The theorem at offset 7 and the demonstration state (stack pointer 256).\<close>

theorem pointer_offset_other_than_zero_selects_that_witness:
  "Atoi ''7'' = Some 7 \<and> jumped demo_state = None
   \<and> RAM demo_state 0 \<noteq> 0 \<and> RAM demo_state 0 \<noteq> 1
   \<and> (\<exists>i j sp sq.
        parseInstruction 0 ''Main'' (''push pointer '' @ ''7'') = Inr i
      \<and> parseInstruction 0 ''Main'' (''pop pointer '' @ ''7'') = Inr j
      \<and> Arg2Val i = 7 \<and> Arg2Val j = 7
      \<and> genPointerPUSH i = genPointerPUSH (i\<lparr>Arg2Val := 1\<rparr>)
      \<and> genPointerPOP j = genPointerPOP (j\<lparr>Arg2Val := 1\<rparr>)
      \<and> exec demo_symtab (fst (GenAsm i initial_gen_state)) demo_state = Some sp
      \<and> RAM sp 0 = 257 \<and> RAM sp 256 = 3010
      \<and> exec demo_symtab (fst (GenAsm j initial_gen_state)) demo_state = Some sq
      \<and> RAM sq 0 = 255 \<and> RAM sq 4 = 0 \<and> RAM sq 3 = 3000)"
proof -
  have t: "Atoi ''7'' = Some 7" by (simp add: Atoi_def isDigit_def readDec_def digitVal_def)
  have s: "jumped demo_state = None" "RAM demo_state 0 \<noteq> 0" "RAM demo_state 0 \<noteq> 1"
    by (simp_all add: demo_state_def)
  from pointer_offset_other_than_zero_selects_that
    [OF t s, of 0 "''Main''" demo_symtab initial_gen_state]
  obtain i j sp sq where
      "parseInstruction 0 ''Main'' (''push pointer '' @ ''7'') = Inr i"
      "parseInstruction 0 ''Main'' (''pop pointer '' @ ''7'') = Inr j"
      "Arg2Val i = 7" "Arg2Val j = 7"
      "genPointerPUSH i = genPointerPUSH (i\<lparr>Arg2Val := 1\<rparr>)"
      "genPointerPOP j = genPointerPOP (j\<lparr>Arg2Val := 1\<rparr>)"
      "exec demo_symtab (fst (GenAsm i initial_gen_state)) demo_state = Some sp"
      "RAM sp 0 = 257" "RAM sp 256 = 3010"
      "exec demo_symtab (fst (GenAsm j initial_gen_state)) demo_state = Some sq"
      "RAM sq 0 = 255" "RAM sq 4 = 0" "RAM sq 3 = 3000"
    by (auto simp add: demo_state_def)
  with t s show ?thesis by blast
qed

section \<open>Comparison labels\<close>

lemma ToUpper_append: "ToUpper (a @ b) = ToUpper a @ ToUpper b"
  by (simp add: ToUpper_def)

lemma ToUpper_digits: "list_all isDigit ds \<Longrightarrow> ToUpper ds = ds"
  by (induction ds) (simp_all add: ToUpper_def isDigit_upperChar)

lemma ToUpper_showInt: "ToUpper (showInt k) = showInt k"
proof -
  have "upperChar CHR ''-'' = CHR ''-''" by (simp add: upperChar_def)
  moreover have "map upperChar (showNat n) = showNat n" for n
    using ToUpper_digits [OF showNat_digits] by (simp add: ToUpper_def)
  ultimately show ?thesis by (simp add: showInt_def ToUpper_def)
qed

lemma ToUpper_words:
  "ToUpper ''(eq_true.'' = ''(EQ_TRUE.''" "ToUpper ''(eq_false.'' = ''(EQ_FALSE.''"
  "ToUpper ''(gt_true.'' = ''(GT_TRUE.''" "ToUpper ''(gt_false.'' = ''(GT_FALSE.''"
  "ToUpper ''(lt_true.'' = ''(LT_TRUE.''" "ToUpper ''(lt_false.'' = ''(LT_FALSE.''"
  "ToUpper ''@eq_true.'' = ''@EQ_TRUE.''" "ToUpper ''@eq_false.'' = ''@EQ_FALSE.''"
  "ToUpper ''@gt_true.'' = ''@GT_TRUE.''" "ToUpper ''@gt_false.'' = ''@GT_FALSE.''"
  "ToUpper ''@lt_true.'' = ''@LT_TRUE.''" "ToUpper ''@lt_false.'' = ''@LT_FALSE.''"
  "ToUpper '')'' = '')''" "ToUpper ''eq'' = ''EQ''" "ToUpper ''gt'' = ''GT''" "ToUpper ''lt'' = ''LT''"
  by (simp_all add: ToUpper_def upperChar_def)

lemma map_upper_showInt: "map upperChar (showInt k) = showInt k"
  using ToUpper_showInt [of k] by (simp add: ToUpper_def)

lemma upperChar_evals:
  "upperChar CHR ''('' = CHR ''(''" "upperChar CHR '')'' = CHR '')''"
  "upperChar CHR ''@'' = CHR ''@''" "upperChar CHR ''.'' = CHR ''.''"
  "upperChar CHR ''_'' = CHR ''_''"
  "upperChar CHR ''e'' = CHR ''E''" "upperChar CHR ''q'' = CHR ''Q''"
  "upperChar CHR ''g'' = CHR ''G''" "upperChar CHR ''t'' = CHR ''T''"
  "upperChar CHR ''l'' = CHR ''L''" "upperChar CHR ''r'' = CHR ''R''"
  "upperChar CHR ''u'' = CHR ''U''" "upperChar CHR ''f'' = CHR ''F''"
  "upperChar CHR ''a'' = CHR ''A''" "upperChar CHR ''s'' = CHR ''S''"
  by (simp_all add: upperChar_def)

lemma getLogicalLabel_eq:
  "getLogicalLabel i ''eq_true'' = ''(EQ_TRUE.'' @ showInt (Index i) @ '')''"
  "getLogicalLabel i ''eq_false'' = ''(EQ_FALSE.'' @ showInt (Index i) @ '')''"
  "getLogicalLabel i ''gt_true'' = ''(GT_TRUE.'' @ showInt (Index i) @ '')''"
  "getLogicalLabel i ''gt_false'' = ''(GT_FALSE.'' @ showInt (Index i) @ '')''"
  "getLogicalLabel i ''lt_true'' = ''(LT_TRUE.'' @ showInt (Index i) @ '')''"
  "getLogicalLabel i ''lt_false'' = ''(LT_FALSE.'' @ showInt (Index i) @ '')''"
  by (simp_all add: getLogicalLabel_def ToUpper_def upperChar_evals map_upper_showInt)

lemma hd_getLogicalARegister: "hd (getLogicalARegister i p) = CHR ''@''"
  by (simp add: getLogicalARegister_def ToUpper_def upperChar_evals)

lemma getLogicalARegister_nonempty: "getLogicalARegister i p \<noteq> []"
  by (simp add: getLogicalARegister_def ToUpper_def)

lemma comparison_labelsOf:
  assumes "ALType i = ALTypeEq \<or> ALType i = ALTypeGt \<or> ALType i = ALTypeLt"
  shows "labelsOf (genArithmetic i) =
           [comparisonLabel (ALType i) True (Index i), comparisonLabel (ALType i) False (Index i)]"
proof -
  from assms consider (eq) "ALType i = ALTypeEq" | (gt) "ALType i = ALTypeGt"
    | (lt) "ALType i = ALTypeLt" by blast
  then show ?thesis
    by cases
      (simp_all add: labelsOf_def genArithmetic_def getLogicalLabel_eq hd_getLogicalARegister
        comparisonLabel_def ToUpper_def upperChar_evals)
qed

lemma other_arithmetic_labelsOf:
  assumes "ALType i \<noteq> ALTypeEq" "ALType i \<noteq> ALTypeGt" "ALType i \<noteq> ALTypeLt"
  shows "labelsOf (genArithmetic i) = []"
  using assms by (cases "ALType i") (simp_all add: labelsOf_def genArithmetic_def)

lemma push_labelsOf:
  assumes "CommandType i = CommandTypePush"
  shows "labelsOf (fst (GenAsm i g)) = []"
  using assms
  by (cases "SegmentType i")
    (simp_all add: labelsOf_def GenAsm_def genConstantPUSH_def genSegmentPUSH_def
      genStaticPUSH_def genTempPUSH_def genPointerPUSH_def)

lemma pop_labelsOf:
  assumes "CommandType i = CommandTypePop"
  shows "labelsOf (fst (GenAsm i g)) = []"
  using assms
  by (cases "SegmentType i")
    (simp_all add: labelsOf_def GenAsm_def genConstantPOP_def genSegmentPOP_def
      genStaticPOP_def genTempPOP_def genPointerPOP_def)

lemma flow_labelsOf:
  assumes "CommandType i = CommandTypeGOTO \<or> CommandType i = CommandTypeIf
           \<or> CommandType i = CommandTypeReturn"
  shows "labelsOf (fst (GenAsm i g)) = []"
  using assms
  by (auto simp add: labelsOf_def GenAsm_def genReturn_def returnRestoreSegment_def)

lemma call_labelsOf:
  assumes "CommandType i = CommandTypeCall"
  shows "labelsOf (fst (GenAsm i g)) = [''('' @ retAddrLabel g @ '')'']"
  using assms
  by (simp add: labelsOf_def GenAsm_def genCall_def callPushSegment_def)

lemma showInt_no_dollar: "CHR ''$'' \<notin> set (showInt k)"
proof -
  have "\<not> isDigit CHR ''$''" by (simp add: isDigit_def)
  with showNat_digits have "CHR ''$'' \<notin> set (showNat n)" for n
    by (auto simp add: list_all_iff)
  then show ?thesis by (simp add: showInt_def)
qed

lemma showInt_eq_iff: "showInt a = showInt b \<longleftrightarrow> a = b"
  using showInt_inj by blast

lemma comparisonLabel_no_dollar:
  assumes "op = ALTypeEq \<or> op = ALTypeGt \<or> op = ALTypeLt"
  shows "CHR ''$'' \<notin> set (comparisonLabel op b k)"
proof -
  from assms consider (eq) "op = ALTypeEq" | (gt) "op = ALTypeGt" | (lt) "op = ALTypeLt"
    by blast
  then show ?thesis
    by cases
      (simp_all add: comparisonLabel_def ToUpper_def upperChar_evals showInt_no_dollar)
qed

lemma comparisonLabel_index:
  assumes "op = ALTypeEq \<or> op = ALTypeGt \<or> op = ALTypeLt"
    and "op' = ALTypeEq \<or> op' = ALTypeGt \<or> op' = ALTypeLt"
    and "comparisonLabel op b k = comparisonLabel op' b' k'"
  shows "k = k'"
proof -
  from assms(1) consider (eq) "op = ALTypeEq" | (gt) "op = ALTypeGt" | (lt) "op = ALTypeLt"
    by blast
  then show ?thesis
  proof cases
    case eq
    from assms(2) consider "op' = ALTypeEq" | "op' = ALTypeGt" | "op' = ALTypeLt" by blast
    then show ?thesis
      using assms(3) eq
      by cases
        (simp_all add: comparisonLabel_def ToUpper_def upperChar_evals showInt_eq_iff
          split: if_splits)
  next
    case gt
    from assms(2) consider "op' = ALTypeEq" | "op' = ALTypeGt" | "op' = ALTypeLt" by blast
    then show ?thesis
      using assms(3) gt
      by cases
        (simp_all add: comparisonLabel_def ToUpper_def upperChar_evals showInt_eq_iff
          split: if_splits)
  next
    case lt
    from assms(2) consider "op' = ALTypeEq" | "op' = ALTypeGt" | "op' = ALTypeLt" by blast
    then show ?thesis
      using assms(3) lt
      by cases
        (simp_all add: comparisonLabel_def ToUpper_def upperChar_evals showInt_eq_iff
          split: if_splits)
  qed
qed

lemma commandOf_not_arithmetic: "commandOf x = Some ct \<Longrightarrow> ct \<noteq> CommandTypeArithmetic"
  by (auto simp add: commandOf_def split: if_splits)

lemma parse_arithmetic_index:
  assumes "parseInstruction index fileName line = Inr i" "CommandType i = CommandTypeArithmetic"
  shows "Index i = index"
proof -
  define parts where "parts = Split line CHR '' ''"
  have ne: "parts \<noteq> []" by (simp add: parts_def Split_nonempty)
  show ?thesis
  proof (cases "length parts = 1 \<and> parts ! 0 \<in> set validAL")
    case True
    with assms ne show ?thesis
      by (auto simp add: parseInstruction_def Let_def simp flip: parts_def)
  next
    case False
    with assms show ?thesis
      by (auto simp add: parseInstruction_def Let_def simp flip: parts_def
          split: if_splits option.splits sum.splits prod.splits
          dest: commandOf_not_arithmetic)
  qed
qed

lemma arithmetic_labelsOf:
  assumes "CommandType i = CommandTypeArithmetic"
  shows "labelsOf (fst (GenAsm i g)) = labelsOf (genArithmetic i)"
  using assms by (simp add: GenAsm_def labelsOf_def)

text \<open>
  Claim C5 says that a comparison at sequence index \<open>k\<close> emits exactly two branch labels,
  \<open><op>_true.k\<close> and \<open><op>_false.k\<close>, and that no other command of the run emits a label with
  the same text. What holds instead: the two label declarations are \<open>(<OP>_TRUE.k)\<close> and
  \<open>(<OP>_FALSE.k)\<close> with the operator in upper case, and no command at another index emits
  either text unless it is a \<open>label\<close> or \<open>function\<close> command (whose text is the user's):
  other comparisons differ in the index, a call's return label contains a dollar sign, and
  the remaining commands declare no label. No bound on the length of the program is
  needed.
\<close>

theorem comparison_labels_keyed_by_index:
  assumes parsed: "parseInstruction k fileName line = Inr i"
    and arith: "CommandType i = CommandTypeArithmetic"
    and cmp: "ALType i = ALTypeEq \<or> ALType i = ALTypeGt \<or> ALType i = ALTypeLt"
  shows "labelsOf (fst (GenAsm i g))
           = [comparisonLabel (ALType i) True k, comparisonLabel (ALType i) False k]
     \<and> (\<forall>k' fileName' line' i' g'.
           parseInstruction k' fileName' line' = Inr i' \<and> k' \<noteq> k
           \<and> CommandType i' \<noteq> CommandTypeLabel \<and> CommandType i' \<noteq> CommandTypeFunction
           \<longrightarrow> set (labelsOf (fst (GenAsm i' g'))) \<inter> set (labelsOf (fst (GenAsm i g))) = {})"
proof -
  have idx: "Index i = k" using parsed arith by (rule parse_arithmetic_index)
  have own: "labelsOf (fst (GenAsm i g))
           = [comparisonLabel (ALType i) True k, comparisonLabel (ALType i) False k]"
    using comparison_labelsOf [OF cmp] by (simp add: arithmetic_labelsOf [OF arith] idx)
  have other: "set (labelsOf (fst (GenAsm i' g'))) \<inter> set (labelsOf (fst (GenAsm i g))) = {}"
    if p': "parseInstruction k' fileName' line' = Inr i'" and ne: "k' \<noteq> k"
      and nl: "CommandType i' \<noteq> CommandTypeLabel" and nf: "CommandType i' \<noteq> CommandTypeFunction"
    for k' fileName' line' i' g'
  proof (cases "CommandType i'")
    case CommandTypeArithmetic
    have idx': "Index i' = k'" using p' CommandTypeArithmetic by (rule parse_arithmetic_index)
    show ?thesis
    proof (cases "ALType i' = ALTypeEq \<or> ALType i' = ALTypeGt \<or> ALType i' = ALTypeLt")
      case True
      have theirs: "labelsOf (fst (GenAsm i' g'))
           = [comparisonLabel (ALType i') True k', comparisonLabel (ALType i') False k']"
        using comparison_labelsOf [OF True]
        by (simp add: arithmetic_labelsOf [OF CommandTypeArithmetic] idx')
      have d: "comparisonLabel (ALType i') b' k' \<noteq> comparisonLabel (ALType i) b k" for b b'
        using comparisonLabel_index [OF True cmp] ne by blast
      show ?thesis
        by (simp add: own theirs d)
    next
      case False
      then have "labelsOf (genArithmetic i') = []"
        by (intro other_arithmetic_labelsOf) auto
      then show ?thesis by (simp add: arithmetic_labelsOf [OF CommandTypeArithmetic])
    qed
  next
    case CommandTypePush
    then show ?thesis by (simp add: push_labelsOf)
  next
    case CommandTypePop
    then show ?thesis by (simp add: pop_labelsOf)
  next
    case CommandTypeLabel
    with nl show ?thesis by simp
  next
    case CommandTypeGOTO
    then show ?thesis by (simp add: flow_labelsOf)
  next
    case CommandTypeIf
    then show ?thesis by (simp add: flow_labelsOf)
  next
    case CommandTypeFunction
    with nf show ?thesis by simp
  next
    case CommandTypeReturn
    then show ?thesis by (simp add: flow_labelsOf)
  next
    case CommandTypeCall
    have "CHR ''$'' \<in> set (''('' @ retAddrLabel g' @ '')'')"
      by (simp add: retAddrLabel_def)
    with comparisonLabel_no_dollar [OF cmp]
    have "''('' @ retAddrLabel g' @ '')'' \<noteq> comparisonLabel (ALType i) b k" for b
      by metis
    then show ?thesis
      using own by (simp add: call_labelsOf [OF CommandTypeCall])
  qed
  from own other show ?thesis by blast
qed

text \<open>
  The theorem at \<open>eq\<close> with index 4, against \<open>gt\<close> with index 5: the labels are
  \<open>(EQ_TRUE.4)\<close> and \<open>(EQ_FALSE.4)\<close>, and \<open>gt\<close> emits neither.
\<close>

theorem comparison_labels_keyed_by_index_witness:
  "\<exists>i j. parseInstruction 4 ''Main'' ''eq'' = Inr i
     \<and> CommandType i = CommandTypeArithmetic \<and> ALType i = ALTypeEq
     \<and> labelsOf (fst (GenAsm i initial_gen_state)) = [''(EQ_TRUE.4)'', ''(EQ_FALSE.4)'']
     \<and> parseInstruction 5 ''Main'' ''gt'' = Inr j \<and> (5 :: int) \<noteq> 4
     \<and> CommandType j \<noteq> CommandTypeLabel \<and> CommandType j \<noteq> CommandTypeFunction
     \<and> set (labelsOf (fst (GenAsm j initial_gen_state)))
           \<inter> set (labelsOf (fst (GenAsm i initial_gen_state))) = {}"
proof -
  let ?i = "\<lparr>FileName = ''Main'', Line = ''eq'', CommandType = CommandTypeArithmetic,
      Arg1 = ''eq'', SegmentType = SegmentTypeConstant, Arg2 = '''', Arg2Val = 0,
      ALType = ALTypeEq, Index = 4\<rparr>"
  let ?j = "\<lparr>FileName = ''Main'', Line = ''gt'', CommandType = CommandTypeArithmetic,
      Arg1 = ''gt'', SegmentType = SegmentTypeConstant, Arg2 = '''', Arg2Val = 0,
      ALType = ALTypeGt, Index = 5\<rparr>"
  have p: "parseInstruction 4 ''Main'' ''eq'' = Inr ?i" by (simp add: parser_defs)
  have q: "parseInstruction 5 ''Main'' ''gt'' = Inr ?j" by (simp add: parser_defs)
  have a: "CommandType ?i = CommandTypeArithmetic" by simp
  have c: "ALType ?i = ALTypeEq \<or> ALType ?i = ALTypeGt \<or> ALType ?i = ALTypeLt" by simp
  have lab: "comparisonLabel ALTypeEq True 4 = ''(EQ_TRUE.4)''"
    "comparisonLabel ALTypeEq False 4 = ''(EQ_FALSE.4)''"
    by (simp_all add: comparisonLabel_def ToUpper_def upperChar_evals showInt_def showNat.simps
        digitChar_def)
  note t = comparison_labels_keyed_by_index [OF p a c, of initial_gen_state]
  from t have l: "labelsOf (fst (GenAsm ?i initial_gen_state)) = [''(EQ_TRUE.4)'', ''(EQ_FALSE.4)'']"
    by (simp add: lab)
  from t q have d: "set (labelsOf (fst (GenAsm ?j initial_gen_state)))
           \<inter> set (labelsOf (fst (GenAsm ?i initial_gen_state))) = {}"
    by (elim conjE allE [where x = 5] allE [where x = "''Main''"] allE [where x = "''gt''"]
        allE [where x = ?j] allE [where x = initial_gen_state]) simp
  from p q l d show ?thesis by (intro exI [where x = ?i] exI [where x = ?j]) simp
qed

text \<open>
  Claim C5 as it is written fails: after \<open>eq\<close> at index 0, the command
  \<open>label EQ_TRUE.0\<close> declares \<open>(EQ_TRUE.0)\<close> a second time.
\<close>

theorem comparison_label_collides_with_user_label_counterexample:
  "translate [\<lparr>fname = ''Main.vm'', flines = [''eq'', ''label EQ_TRUE.0'']\<rparr>]
   = Written [''// eq'', ''@SP'', ''AM=M-1'', ''D=M'', ''A=A-1'', ''D=M-D'',
              ''@EQ_TRUE.0'', ''D;JEQ'', ''@SP'', ''A=M-1'', ''M=0'', ''@EQ_FALSE.0'',
              ''0;JMP'', ''(EQ_TRUE.0)'', ''@SP'', ''A=M-1'', ''M=-1'', ''(EQ_FALSE.0)'',
              ''// label EQ_TRUE.0'', ''(EQ_TRUE.0)'']"
  by code_simp

section \<open>Memory access and the stack pointer\<close>

lemma parse_FileName:
  assumes "parseInstruction index fileName line = Inr i"
  shows "FileName i = fileName"
  using assms
  by (auto simp add: parseInstruction_def Let_def
      split: if_splits option.splits sum.splits prod.splits)

text \<open>
  Which push and pop commands get a block that the assembler accepts. The offset is
  printed after \<open>@\<close> for a push of \<open>constant\<close> and for \<open>local\<close>, \<open>argument\<close>, \<open>this\<close>, \<open>that\<close>
  and \<open>temp\<close>, where it has to be a number from 0 to 32767; for \<open>static\<close> it is printed
  inside the symbol \<open>Module.offset\<close>, which has to be a valid symbol; a pop of \<open>constant\<close>
  and the \<open>pointer\<close> commands do not print it at all.
\<close>

lemma number_valid_iff:
  "parseAsm (CHR ''@'' # showInt n) \<noteq> Invalid \<longleftrightarrow> 0 \<le> n \<and> n < 32768"
  using number_valid [of n] parseAsm_number [of n] by auto

lemma static_symbol_valid_iff:
  "parseAsm (CHR ''@'' # f @ CHR ''.'' # showInt n) \<noteq> Invalid
     \<longleftrightarrow> isSymbol (f @ CHR ''.'' # showInt n)"
  using static_symbol_valid [of f n] parseAsm_symbol [of "f @ CHR ''.'' # showInt n"] by auto

lemma memory_block_valid:
  assumes "CommandType i = CommandTypePush \<or> CommandType i = CommandTypePop"
  shows "validAsm (fst (GenAsm i g)) \<longleftrightarrow>
     (case SegmentType i of
        SegmentTypePointer \<Rightarrow> True
      | SegmentTypeStatic \<Rightarrow> isSymbol (FileName i @ ''.'' @ showInt (Arg2Val i))
      | SegmentTypeConstant \<Rightarrow>
          CommandType i = CommandTypePop \<or> (0 \<le> Arg2Val i \<and> Arg2Val i < 32768)
      | _ \<Rightarrow> 0 \<le> Arg2Val i \<and> Arg2Val i < 32768)"
proof -
  note defs = GenAsm_def validAsm_def genConstantPUSH_def genSegmentPUSH_def genStaticPUSH_def
    genTempPUSH_def genPointerPUSH_def genConstantPOP_def genSegmentPOP_def genStaticPOP_def
    genTempPOP_def genPointerPOP_def parseAsm_comment parseAsm_symbols parseAsm_comps
    number_valid_iff static_symbol_valid_iff
  from assms show ?thesis
  proof
    assume "CommandType i = CommandTypePush"
    then show ?thesis by (cases "SegmentType i") (simp_all add: defs)
  next
    assume "CommandType i = CommandTypePop"
    then show ?thesis by (cases "SegmentType i") (simp_all add: defs)
  qed
qed

lemma push_block:
  assumes kind: "CommandType i = CommandTypePush"
    and valid: "validAsm (fst (GenAsm i g))"
    and inblock: "jumped s = None"
    and keep: "RAM s 0 \<noteq> 0"
  shows "\<exists>s'. exec symtab (fst (GenAsm i g)) s = Some s' \<and> jumped s' = None
           \<and> RAM s' 0 = RAM s 0 + 1
           \<and> ((\<forall>a \<in> set (drop (length (accessed s)) (accessed s')). 0 \<le> sint a)
                \<longleftrightarrow> 0 \<le> sint (RAM s 0)
                    \<and> (\<forall>loc. segmentCell symtab i s = Some loc \<longrightarrow> 0 \<le> sint loc))"
proof -
  have num: "0 \<le> Arg2Val i \<and> Arg2Val i < 32768"
    if "parseAsm (CHR ''@'' # showInt (Arg2Val i)) \<noteq> Invalid"
    using number_valid [OF that] by simp
  show ?thesis
  proof (cases "SegmentType i")
    case SegmentTypeConstant
    with valid kind have "parseAsm (CHR ''@'' # showInt (Arg2Val i)) \<noteq> Invalid"
      by (simp add: GenAsm_def genConstantPUSH_def validAsm_def)
    then have r: "0 \<le> Arg2Val i" "Arg2Val i < 32768" using num by simp_all
    from run_genConstantPUSH [OF inblock r keep, of symtab] SegmentTypeConstant kind
    show ?thesis
      by (auto simp add: GenAsm_def exec_comment segmentCell_def)
  next
    case SegmentTypeLocal
    with valid kind have "parseAsm (CHR ''@'' # showInt (Arg2Val i)) \<noteq> Invalid"
      by (simp add: GenAsm_def genSegmentPUSH_def validAsm_def)
    then have r: "0 \<le> Arg2Val i" "Arg2Val i < 32768" using num by simp_all
    from run_genSegmentPUSH [OF inblock r keep, of SegmentTypeLocal symtab] SegmentTypeLocal kind
    show ?thesis
      by (auto simp add: GenAsm_def exec_comment segmentCell_def resolve_predefined)
  next
    case SegmentTypeArgument
    with valid kind have "parseAsm (CHR ''@'' # showInt (Arg2Val i)) \<noteq> Invalid"
      by (simp add: GenAsm_def genSegmentPUSH_def validAsm_def)
    then have r: "0 \<le> Arg2Val i" "Arg2Val i < 32768" using num by simp_all
    from run_genSegmentPUSH [OF inblock r keep, of SegmentTypeArgument symtab]
      SegmentTypeArgument kind
    show ?thesis
      by (auto simp add: GenAsm_def exec_comment segmentCell_def resolve_predefined)
  next
    case SegmentTypeThis
    with valid kind have "parseAsm (CHR ''@'' # showInt (Arg2Val i)) \<noteq> Invalid"
      by (simp add: GenAsm_def genSegmentPUSH_def validAsm_def)
    then have r: "0 \<le> Arg2Val i" "Arg2Val i < 32768" using num by simp_all
    from run_genSegmentPUSH [OF inblock r keep, of SegmentTypeThis symtab] SegmentTypeThis kind
    show ?thesis
      by (auto simp add: GenAsm_def exec_comment segmentCell_def resolve_predefined)
  next
    case SegmentTypeThat
    with valid kind have "parseAsm (CHR ''@'' # showInt (Arg2Val i)) \<noteq> Invalid"
      by (simp add: GenAsm_def genSegmentPUSH_def validAsm_def)
    then have r: "0 \<le> Arg2Val i" "Arg2Val i < 32768" using num by simp_all
    from run_genSegmentPUSH [OF inblock r keep, of SegmentTypeThat symtab] SegmentTypeThat kind
    show ?thesis
      by (auto simp add: GenAsm_def exec_comment segmentCell_def resolve_predefined)
  next
    case SegmentTypeStatic
    with valid kind
    have "parseAsm (CHR ''@'' # FileName i @ CHR ''.'' # showInt (Arg2Val i)) \<noteq> Invalid"
      by (simp add: GenAsm_def genStaticPUSH_def validAsm_def)
    then have m: "isSymbol (FileName i @ CHR ''.'' # showInt (Arg2Val i))"
      by (rule static_symbol_valid)
    from run_genStaticPUSH [OF inblock keep m, of symtab] SegmentTypeStatic kind
    show ?thesis
      by (auto simp add: GenAsm_def exec_comment segmentCell_def)
  next
    case SegmentTypeTemp
    with valid kind have "parseAsm (CHR ''@'' # showInt (Arg2Val i)) \<noteq> Invalid"
      by (simp add: GenAsm_def genTempPUSH_def validAsm_def)
    then have r: "0 \<le> Arg2Val i" "Arg2Val i < 32768" using num by simp_all
    from run_genTempPUSH [OF inblock keep r, of symtab] SegmentTypeTemp kind
    show ?thesis
      by (auto simp add: GenAsm_def exec_comment segmentCell_def)
  next
    case SegmentTypePointer
    with run_genPointerPUSH [OF inblock keep, of symtab i] kind show ?thesis
      by (auto simp add: GenAsm_def exec_comment segmentCell_def resolve_predefined)
  qed
qed

lemma pop_block:
  assumes kind: "CommandType i = CommandTypePop"
    and valid: "validAsm (fst (GenAsm i g))"
    and inblock: "jumped s = None"
    and keep: "segmentCell symtab i s \<noteq> Some 0"
  shows "\<exists>s'. exec symtab (fst (GenAsm i g)) s = Some s' \<and> jumped s' = None
           \<and> RAM s' 0 = RAM s 0 - 1
           \<and> ((\<forall>a \<in> set (drop (length (accessed s)) (accessed s')). 0 \<le> sint a)
                \<longleftrightarrow> 0 \<le> sint (RAM s 0 - 1)
                    \<and> (\<forall>loc. segmentCell symtab i s = Some loc \<longrightarrow> 0 \<le> sint loc))"
proof -
  have num: "0 \<le> Arg2Val i \<and> Arg2Val i < 32768"
    if "parseAsm (CHR ''@'' # showInt (Arg2Val i)) \<noteq> Invalid"
    using number_valid [OF that] by simp
  show ?thesis
  proof (cases "SegmentType i")
    case SegmentTypeConstant
    with run_genConstantPOP [OF inblock, of symtab] kind show ?thesis
      by (auto simp add: GenAsm_def exec_comment segmentCell_def)
  next
    case SegmentTypeLocal
    with valid kind have "parseAsm (CHR ''@'' # showInt (Arg2Val i)) \<noteq> Invalid"
      by (simp add: GenAsm_def genSegmentPOP_def validAsm_def)
    then have r: "0 \<le> Arg2Val i" "Arg2Val i < 32768" using num by simp_all
    from SegmentTypeLocal keep
    have nz: "RAM s (resolve symtab (SegmentType_ID SegmentTypeLocal)) + word_of_int (Arg2Val i) \<noteq> 0"
      by (simp add: segmentCell_def)
    from run_genSegmentPOP [OF inblock r _ nz] SegmentTypeLocal kind
    show ?thesis
      by (auto simp add: GenAsm_def exec_comment segmentCell_def resolve_predefined)
  next
    case SegmentTypeArgument
    with valid kind have "parseAsm (CHR ''@'' # showInt (Arg2Val i)) \<noteq> Invalid"
      by (simp add: GenAsm_def genSegmentPOP_def validAsm_def)
    then have r: "0 \<le> Arg2Val i" "Arg2Val i < 32768" using num by simp_all
    from SegmentTypeArgument keep
    have nz: "RAM s (resolve symtab (SegmentType_ID SegmentTypeArgument)) + word_of_int (Arg2Val i) \<noteq> 0"
      by (simp add: segmentCell_def)
    from run_genSegmentPOP [OF inblock r _ nz] SegmentTypeArgument kind
    show ?thesis
      by (auto simp add: GenAsm_def exec_comment segmentCell_def resolve_predefined)
  next
    case SegmentTypeThis
    with valid kind have "parseAsm (CHR ''@'' # showInt (Arg2Val i)) \<noteq> Invalid"
      by (simp add: GenAsm_def genSegmentPOP_def validAsm_def)
    then have r: "0 \<le> Arg2Val i" "Arg2Val i < 32768" using num by simp_all
    from SegmentTypeThis keep
    have nz: "RAM s (resolve symtab (SegmentType_ID SegmentTypeThis)) + word_of_int (Arg2Val i) \<noteq> 0"
      by (simp add: segmentCell_def)
    from run_genSegmentPOP [OF inblock r _ nz] SegmentTypeThis kind
    show ?thesis
      by (auto simp add: GenAsm_def exec_comment segmentCell_def resolve_predefined)
  next
    case SegmentTypeThat
    with valid kind have "parseAsm (CHR ''@'' # showInt (Arg2Val i)) \<noteq> Invalid"
      by (simp add: GenAsm_def genSegmentPOP_def validAsm_def)
    then have r: "0 \<le> Arg2Val i" "Arg2Val i < 32768" using num by simp_all
    from SegmentTypeThat keep
    have nz: "RAM s (resolve symtab (SegmentType_ID SegmentTypeThat)) + word_of_int (Arg2Val i) \<noteq> 0"
      by (simp add: segmentCell_def)
    from run_genSegmentPOP [OF inblock r _ nz] SegmentTypeThat kind
    show ?thesis
      by (auto simp add: GenAsm_def exec_comment segmentCell_def resolve_predefined)
  next
    case SegmentTypeStatic
    with valid kind
    have "parseAsm (CHR ''@'' # FileName i @ CHR ''.'' # showInt (Arg2Val i)) \<noteq> Invalid"
      by (simp add: GenAsm_def genStaticPOP_def validAsm_def)
    then have m: "isSymbol (FileName i @ CHR ''.'' # showInt (Arg2Val i))"
      by (rule static_symbol_valid)
    from SegmentTypeStatic keep
    have nz: "resolve symtab (FileName i @ ''.'' @ showInt (Arg2Val i)) \<noteq> 0"
      by (simp add: segmentCell_def)
    from run_genStaticPOP [OF inblock m nz] SegmentTypeStatic kind
    show ?thesis
      by (auto simp add: GenAsm_def exec_comment segmentCell_def)
  next
    case SegmentTypeTemp
    with valid kind have "parseAsm (CHR ''@'' # showInt (Arg2Val i)) \<noteq> Invalid"
      by (simp add: GenAsm_def genTempPOP_def validAsm_def)
    then have r: "0 \<le> Arg2Val i" "Arg2Val i < 32768" using num by simp_all
    from SegmentTypeTemp keep have nz: "5 + word_of_int (Arg2Val i) \<noteq> (0 :: word16)"
      by (simp add: segmentCell_def)
    from run_genTempPOP [OF inblock r nz, of symtab] SegmentTypeTemp kind
    show ?thesis
      by (auto simp add: GenAsm_def exec_comment segmentCell_def)
  next
    case SegmentTypePointer
    with run_genPointerPOP [OF inblock, of symtab i] kind show ?thesis
      by (auto simp add: GenAsm_def exec_comment segmentCell_def resolve_predefined)
  qed
qed

text \<open>
  Claim C6 says that the instructions generated for every parsed push change the stack
  pointer by exactly +1 and those for every parsed pop (pop \<open>constant\<close> included) by exactly
  -1, with no read or write below address 0. What holds instead, for a parsed push or pop
  command of a module: when the assembler accepts every line of the generated block (see
  \<open>memory_block_valid\<close> for the commands where it does), and the block is run from a state
  in which the cell the command writes, the stack cell for a push and the segment's cell
  for a pop, is not cell 0 (the stack pointer itself), then the block runs to its end and
  the stack pointer has changed by +1 for a push and by -1 for a pop, modulo \<open>2^16\<close>; and
  every cell the block read or wrote has a non-negative address (as a signed 16-bit number)
  exactly when the stack cell of the command and the cell its segment addresses, if any,
  have one.
\<close>

theorem push_pop_move_stack_pointer_by_one:
  assumes parsed: "parseInstruction index fileName line = Inr i"
    and kind: "CommandType i = CommandTypePush \<or> CommandType i = CommandTypePop"
    and valid: "validAsm (fst (GenAsm i g))"
    and inblock: "jumped s = None"
    and push_keeps: "CommandType i = CommandTypePush \<longrightarrow> RAM s 0 \<noteq> 0"
    and pop_keeps: "CommandType i = CommandTypePop \<longrightarrow> segmentCell symtab i s \<noteq> Some 0"
  shows "FileName i = fileName
     \<and> (\<exists>s'. exec symtab (fst (GenAsm i g)) s = Some s' \<and> jumped s' = None
           \<and> RAM s' 0 = (if CommandType i = CommandTypePush then RAM s 0 + 1 else RAM s 0 - 1)
           \<and> ((\<forall>a \<in> set (drop (length (accessed s)) (accessed s')). 0 \<le> sint a)
                \<longleftrightarrow> 0 \<le> sint (stackSlot i s)
                    \<and> (\<forall>loc. segmentCell symtab i s = Some loc \<longrightarrow> 0 \<le> sint loc)))"
proof
  from parsed show "FileName i = fileName" by (rule parse_FileName)
  from kind show "\<exists>s'. exec symtab (fst (GenAsm i g)) s = Some s' \<and> jumped s' = None
           \<and> RAM s' 0 = (if CommandType i = CommandTypePush then RAM s 0 + 1 else RAM s 0 - 1)
           \<and> ((\<forall>a \<in> set (drop (length (accessed s)) (accessed s')). 0 \<le> sint a)
                \<longleftrightarrow> 0 \<le> sint (stackSlot i s)
                    \<and> (\<forall>loc. segmentCell symtab i s = Some loc \<longrightarrow> 0 \<le> sint loc))"
  proof
    assume push: "CommandType i = CommandTypePush"
    with push_keeps have "RAM s 0 \<noteq> 0" by simp
    from push_block [OF push valid inblock this, of symtab] push show ?thesis
      by (simp add: stackSlot_def)
  next
    assume pop: "CommandType i = CommandTypePop"
    with pop_keeps have "segmentCell symtab i s \<noteq> Some 0" by simp
    from pop_block [OF pop valid inblock this] pop show ?thesis
      by (simp add: stackSlot_def)
  qed
qed

text \<open>
  The theorem at \<open>push static 40000\<close> in the demonstration state (stack pointer 256; the
  assembler puts \<open>Main.40000\<close> at address 16): the stack pointer becomes 257 and no cell
  with a negative address is touched.
\<close>

theorem push_pop_move_stack_pointer_by_one_witness:
  "\<exists>i. parseInstruction 0 ''Main'' ''push static 40000'' = Inr i
     \<and> (CommandType i = CommandTypePush \<or> CommandType i = CommandTypePop)
     \<and> validAsm (fst (GenAsm i initial_gen_state))
     \<and> jumped demo_state = None
     \<and> (CommandType i = CommandTypePush \<longrightarrow> RAM demo_state 0 \<noteq> 0)
     \<and> (CommandType i = CommandTypePop \<longrightarrow> segmentCell demo_symtab i demo_state \<noteq> Some 0)
     \<and> FileName i = ''Main''
     \<and> (\<exists>s'. exec demo_symtab (fst (GenAsm i initial_gen_state)) demo_state = Some s'
            \<and> jumped s' = None \<and> RAM s' 0 = 257
            \<and> (\<forall>a \<in> set (accessed s'). 0 \<le> sint a))"
proof -
  let ?i = "\<lparr>FileName = ''Main'', Line = ''push static 40000'', CommandType = CommandTypePush,
      Arg1 = ''static'', SegmentType = SegmentTypeStatic, Arg2 = ''40000'', Arg2Val = 40000,
      ALType = ALTypeAdd, Index = 0\<rparr>"
  have sh: "showInt 40000 = ''40000''"
    by (simp add: showInt_def showNat.simps digitChar_def)
  have p: "parseInstruction 0 ''Main'' ''push static 40000'' = Inr ?i"
    by (simp add: parser_defs Atoi_def isDigit_def readDec_def digitVal_def)
  have k: "CommandType ?i = CommandTypePush \<or> CommandType ?i = CommandTypePop" by simp
  have sym: "parseAsm ''@Main.40000'' = ASymbol ''Main.40000''"
    by (simp add: parseAsm_def HasPrefix_def isDigit_def isSymbol_def isSymbolChar_def)
  have v: "validAsm (fst (GenAsm ?i initial_gen_state))"
    by (simp add: GenAsm_def genStaticPUSH_def sh validAsm_def sym parseAsm_comment
        parseAsm_symbols parseAsm_comps)
  have b: "jumped demo_state = None" by (simp add: demo_state_def)
  have k1: "CommandType ?i = CommandTypePush \<longrightarrow> RAM demo_state 0 \<noteq> 0"
    by (simp add: demo_state_def)
  have k2: "CommandType ?i = CommandTypePop \<longrightarrow> segmentCell demo_symtab ?i demo_state \<noteq> Some 0"
    by simp
  have r: "resolve demo_symtab ''Main.40000'' = 16"
    by (simp add: resolve_def predefined_def demo_symtab_def)
  from push_pop_move_stack_pointer_by_one [OF p k v b k1 k2]
  have "FileName ?i = ''Main''
     \<and> (\<exists>s'. exec demo_symtab (fst (GenAsm ?i initial_gen_state)) demo_state = Some s'
            \<and> jumped s' = None \<and> RAM s' 0 = 257
            \<and> (\<forall>a \<in> set (accessed s'). 0 \<le> sint a))"
    by (simp add: demo_state_def stackSlot_def segmentCell_def sh r)
  with p k v b k1 k2 show ?thesis by blast
qed

text \<open>
  Claim C6 as it is written fails. \<open>push constant -3\<close> is parsed, and the block generated
  for it starts with \<open>@-3\<close>, which is not an instruction of the target machine, so the block
  cannot be run at all. And where the block can be run, the state matters: from a state
  with the stack pointer at 0, \<open>pop constant 0\<close> reads the cell at address -1, and
  \<open>push constant 5\<close> leaves the stack pointer at 5, since the pushed value lands in cell 0.
\<close>

theorem push_negative_constant_not_executable_counterexample:
  "parseInstruction 0 ''Main'' ''push constant -3''
     = Inr \<lparr>FileName = ''Main'', Line = ''push constant -3'', CommandType = CommandTypePush,
            Arg1 = ''constant'', SegmentType = SegmentTypeConstant, Arg2 = ''-3'',
            Arg2Val = - 3, ALType = ALTypeAdd, Index = 0\<rparr>
   \<and> fst (GenAsm \<lparr>FileName = ''Main'', Line = ''push constant -3'', CommandType = CommandTypePush,
            Arg1 = ''constant'', SegmentType = SegmentTypeConstant, Arg2 = ''-3'',
            Arg2Val = - 3, ALType = ALTypeAdd, Index = 0\<rparr> initial_gen_state)
       = [''// push constant -3'', ''@-3'', ''D=A'', ''@SP'', ''AM=M+1'', ''A=A-1'', ''M=D'']
   \<and> exec demo_symtab
         [''// push constant -3'', ''@-3'', ''D=A'', ''@SP'', ''AM=M+1'', ''A=A-1'', ''M=D'']
         demo_state = None
   \<and> runLine demo_symtab ''pop constant 0'' (demo_state_sp 0) \<noteq> None
   \<and> map sint (accessed (the (runLine demo_symtab ''pop constant 0'' (demo_state_sp 0))))
       = [0, 0, - 1]
   \<and> runLine demo_symtab ''push constant 5'' (demo_state_sp 0) \<noteq> None
   \<and> RAM (the (runLine demo_symtab ''push constant 5'' (demo_state_sp 0))) 0 = 5"
proof -
  have inv: "parseAsm ''@-3'' = Invalid"
    by (simp add: parseAsm_def HasPrefix_def isDigit_def isSymbol_def isSymbolChar_def)
  have "exec demo_symtab
         [''// push constant -3'', ''@-3'', ''D=A'', ''@SP'', ''AM=M+1'', ''A=A-1'', ''M=D'']
         demo_state
       = exec demo_symtab [''@-3'', ''D=A'', ''@SP'', ''AM=M+1'', ''A=A-1'', ''M=D''] demo_state"
    by (rule exec_comment)
  also have "\<dots> = None"
    using inv by (simp add: exec.simps(2) demo_state_def)
  finally have none: "exec demo_symtab
         [''// push constant -3'', ''@-3'', ''D=A'', ''@SP'', ''AM=M+1'', ''A=A-1'', ''M=D'']
         demo_state = None" .
  have sh: "showInt (- 3) = ''-3''" "showInt 5 = ''5''"
    by (simp_all add: showInt_def showNat.simps digitChar_def)
  have five: "aValue demo_symtab ''@5'' = Some 5"
    by (simp add: aValue_def parseAsm_symbols)
  have pop0: "\<exists>s'. runLine demo_symtab ''pop constant 0'' (demo_state_sp 0) = Some s'
      \<and> map sint (accessed s') = [0, 0, - 1]"
    by (simp add: runLine_def parser_defs Atoi_def isDigit_def readDec_def digitVal_def
        GenAsm_def genConstantPOP_def demo_state_sp_def demo_state_def exec_comment exec_step)
  have push5: "\<exists>s'. runLine demo_symtab ''push constant 5'' (demo_state_sp 0) = Some s'
      \<and> RAM s' 0 = 5"
    by (simp add: runLine_def parser_defs Atoi_def isDigit_def readDec_def digitVal_def
        GenAsm_def genConstantPUSH_def sh demo_state_sp_def demo_state_def exec_comment
        exec_step exec_A five)
  from none sh pop0 push5 show ?thesis
    by (auto simp add: parser_defs Atoi_def isDigit_def readDec_def digitVal_def GenAsm_def
        genConstantPUSH_def)
qed

section \<open>The calling protocol\<close>

subsection \<open>Return-address labels\<close>

lemma isSymbol_append:
  assumes "isSymbol x" "list_all isSymbolChar y"
  shows "isSymbol (x @ y)"
  using assms by (cases x) (simp_all add: isSymbol_def)

lemma isSymbol_retAddrLabel:
  assumes "isSymbol (currentFunctionName g)" "0 \<le> retIndex g"
  shows "isSymbol (retAddrLabel g)"
proof -
  have "list_all isSymbolChar ''$ret.''" by (simp add: isSymbolChar_def)
  with assms(1) have "isSymbol (currentFunctionName g @ ''$ret.'')" by (rule isSymbol_append)
  then have "isSymbol ((currentFunctionName g @ ''$ret.'') @ showNat (nat (retIndex g)))"
    using showNat_digits by (rule isSymbol_append_digits)
  with assms(2) show ?thesis by (simp add: retAddrLabel_def showInt_def)
qed

lemma showInt_no_dot: "CHR ''.'' \<notin> set (showInt k)"
proof -
  have "\<not> isDigit CHR ''.''" by (simp add: isDigit_def)
  with showNat_digits have "CHR ''.'' \<notin> set (showNat n)" for n
    by (auto simp add: list_all_iff)
  then show ?thesis by (simp add: showInt_def)
qed

lemma retAddrLabel_tail:
  "takeWhile (\<lambda>c. c \<noteq> CHR ''.'') (rev (retAddrLabel g)) = rev (showInt (retIndex g))"
proof -
  let ?d = "rev (showInt (retIndex g))"
  let ?rest = "rev (currentFunctionName g @ ''$ret'')"
  have r: "rev (retAddrLabel g) = ?d @ CHR ''.'' # ?rest"
    by (simp add: retAddrLabel_def)
  have "takeWhile (\<lambda>c. c \<noteq> CHR ''.'') (?d @ CHR ''.'' # ?rest)
      = ?d @ takeWhile (\<lambda>c. c \<noteq> CHR ''.'') (CHR ''.'' # ?rest)"
    using showInt_no_dot [of "retIndex g"] by (intro takeWhile_append2) auto
  then show ?thesis by (simp only: r takeWhile.simps) simp
qed

lemma retAddrLabel_index:
  assumes "retAddrLabel g1 = retAddrLabel g2"
  shows "retIndex g1 = retIndex g2"
proof -
  from assms have "rev (showInt (retIndex g1)) = rev (showInt (retIndex g2))"
    by (simp flip: retAddrLabel_tail)
  then show ?thesis by (simp add: showInt_eq_iff)
qed

lemma wrap64_succ_neq: "wrap64 (r + 1) \<noteq> r"
proof
  assume e: "wrap64 (r + 1) = r"
  define x where "x = r + 2 ^ 63"
  from e have m: "(x + 1) mod 2 ^ 64 = x" by (simp add: wrap64_def x_def algebra_simps)
  have "0 \<le> (x + 1) mod 2 ^ 64" "(x + 1) mod 2 ^ 64 < 2 ^ 64" by simp_all
  with m have b: "0 \<le> x" "x < 2 ^ 64" by simp_all
  show False
  proof (cases "x + 1 < 2 ^ 64")
    case True
    with b have "(x + 1) mod 2 ^ 64 = x + 1" by simp
    with m show False by simp
  next
    case False
    with b have "x + 1 = 2 ^ 64" by simp
    then have "(x + 1) mod 2 ^ 64 = 0" by simp
    with m \<open>x + 1 = 2 ^ 64\<close> show False by simp
  qed
qed

lemma genCall_shape:
  "\<exists>pre. fst (genCall f n g) = pre @ [''@'' @ f, ''0;JMP'', ''('' @ retAddrLabel g @ '')'']"
proof -
  let ?A = "[''/// call ; working with return address '' @ retAddrLabel g,
       ''@'' @ retAddrLabel g, ''D=A'', ''@SP'', ''A=M'', ''M=D'', ''@SP'', ''M=M+1'']"
  let ?B = "concat (map callPushSegment
          [SegmentTypeLocal, SegmentTypeArgument, SegmentTypeThis, SegmentTypeThat])"
  let ?C = "[''/// call ; ARG = SP - 5 - nArgs'',
         ''@'' @ showInt (wrap64 (5 + n)), ''D=A'', ''@SP'', ''A=M'', ''D=A-D'',
         ''@ARG'', ''M=D'',
         ''/// call ; LCL = SP'',
         ''@SP'', ''D=M'', ''@LCL'', ''M=D'',
         ''/// call ; goto function '' @ f]"
  let ?E = "[''@'' @ f, ''0;JMP'', ''('' @ retAddrLabel g @ '')'']"
  have "fst (genCall f n g) = ?A @ ?B @ (?C @ ?E)"
    unfolding genCall_def fst_conv by (simp only: append_Cons append_Nil)
  then have h: "fst (genCall f n g) = (?A @ ?B @ ?C) @ ?E"
    by (simp only: append_assoc)
  show ?thesis by (rule exI, rule h)
qed

subsection \<open>Call\<close>

text \<open>
  A parsed call command has three tokens: the command word, the callee's name and the
  argument count.
\<close>

lemma parse_call_tokens:
  assumes parsed: "parseInstruction index fileName line = Inr i"
    and kind: "CommandType i = CommandTypeCall"
  shows "\<exists>c. Split line CHR '' '' = [c, Arg1 i, Arg2 i] \<and> ToLower c = ''call''
           \<and> (if Arg2 i = [] then Arg2Val i = 0 else Atoi (Arg2 i) = Some (Arg2Val i))"
proof -
  define parts where "parts = Split line CHR '' ''"
  have ne: "parts \<noteq> []" by (simp add: parts_def Split_nonempty)
  have cmd: "commandOf x = Some CommandTypeCall \<Longrightarrow> x = ''call''" for x
    by (simp add: commandOf_def split: if_splits)
  show ?thesis
  proof (cases parts)
    case Nil
    with ne show ?thesis by simp
  next
    case c: (Cons c r1)
    show ?thesis
    proof (cases r1)
      case Nil
      with c have p: "Split line CHR '' '' = [c]" by (simp add: parts_def)
      from parsed kind show ?thesis
        by (auto simp add: parseInstruction_def Let_def p parseArg1_def parseArg2_def
            split: if_splits option.splits sum.splits prod.splits)
    next
      case a: (Cons a r2)
      show ?thesis
      proof (cases r2)
        case Nil
        with c a have p: "Split line CHR '' '' = [c, a]" by (simp add: parts_def)
        from parsed kind show ?thesis
          by (auto simp add: parseInstruction_def Let_def p parseArg1_def parseArg2_def
              split: if_splits option.splits sum.splits prod.splits)
      next
        case t: (Cons t r3)
        show ?thesis
        proof (cases r3)
          case Nil
          with c a t have p: "Split line CHR '' '' = [c, a, t]" by (simp add: parts_def)
          from parsed kind show ?thesis
            unfolding parse_three_tokens [OF p]
            by (auto simp add: p parseArg1_def parseArg2_def numeral_2_eq_2 dest!: cmd
                split: if_splits option.splits sum.splits prod.splits)
        next
          case (Cons u r4)
          with c a t have "length (Split line CHR '' '') > 3" by (simp add: parts_def)
          with parsed show ?thesis by (simp add: parseInstruction_def Let_def)
        qed
      qed
    qed
  qed
qed

text \<open>
  The lines of a call's block that depend on the command and on the generator state. The
  block is accepted, for one, when the callee's name and the return-address label are valid
  symbols and \<open>5 + N\<close> is a number from 0 to 32767.
\<close>

lemma call_lines_valid:
  assumes "validAsm (fst (genCall f n g))"
  shows "parseAsm (CHR ''@'' # retAddrLabel g) \<noteq> Invalid"
    "parseAsm (CHR ''@'' # showInt (wrap64 (5 + n))) \<noteq> Invalid"
    "parseAsm (CHR ''@'' # f) \<noteq> Invalid"
    "parseAsm (CHR ''('' # retAddrLabel g @ '')'') \<noteq> Invalid"
  using assms by (simp_all add: validAsm_def genCall_def)

lemma call_block_valid:
  assumes "isSymbol f" "isSymbol (retAddrLabel g)" "0 \<le> 5 + n" "5 + n < 32768"
  shows "validAsm (fst (genCall f n g))"
proof -
  from assms(3,4) have w: "wrap64 (5 + n) = 5 + n" by (simp add: wrap64_id)
  from assms show ?thesis
    by (simp add: validAsm_def genCall_def callPushSegment_def w parseAsm_symbol parseAsm_number
        parseAsm_label parseAsm_comment parseAsm_symbols parseAsm_comps)
qed

lemma call_command_runs:
  assumes kind: "CommandType i = CommandTypeCall"
    and valid: "validAsm (fst (GenAsm i g))"
    and inblock: "jumped s = None"
  shows "\<exists>s'. exec symtab (fst (GenAsm i g)) s = Some s'
    \<and> jumped s' = aValue symtab (''@'' @ Arg1 i)
    \<and> jumped s' \<noteq> None
    \<and> isSymbol (retAddrLabel g)
    \<and> RAM s' 2 = RAM s' 0 - 5 - word_of_int (Arg2Val i)
    \<and> RAM s' 1 = RAM s' 0
    \<and> (frameCells (RAM s 0) \<inter> {0, 1, 2, 3, 4} = {} \<longrightarrow>
          RAM s' (RAM s 0) = resolve symtab (retAddrLabel g)
        \<and> RAM s' (RAM s 0 + 1) = RAM s 1
        \<and> RAM s' (RAM s 0 + 2) = RAM s 2
        \<and> RAM s' (RAM s 0 + 3) = RAM s 3
        \<and> RAM s' (RAM s 0 + 4) = RAM s 4
        \<and> RAM s' 0 = RAM s 0 + 5
        \<and> RAM s' 3 = RAM s 3
        \<and> RAM s' 4 = RAM s 4)"
proof -
  have gen: "fst (GenAsm i g) = (''// '' @ Line i) # fst (genCall (Arg1 i) (Arg2Val i) g)"
    using kind by (simp add: GenAsm_def split: prod.splits)
  from valid have "validAsm (fst (genCall (Arg1 i) (Arg2Val i) g))"
    by (simp add: gen validAsm_Cons)
  note v = call_lines_valid [OF this]
  from v(4) have lab: "isSymbol (retAddrLabel g)" by (rule label_valid)
  then have vl: "aValue symtab (CHR ''@'' # retAddrLabel g) = Some (resolve symtab (retAddrLabel g))"
    by (rule aValue_symbol)
  from v(2) have vk: "aValue symtab (CHR ''@'' # showInt (wrap64 (5 + Arg2Val i)))
      = Some (word_of_int (wrap64 (5 + Arg2Val i)))"
    by (rule aValue_number)
  from aValue_valid [OF v(3)] obtain vf where vf: "aValue symtab (CHR ''@'' # Arg1 i) = Some vf"
    by blast
  have k: "(word_of_int (wrap64 (5 + Arg2Val i)) :: word16) = 5 + word_of_int (Arg2Val i)"
    by (simp add: word_of_int_wrap64)
  have through: "exec symtab (fst (GenAsm i g)) s
      = exec symtab (fst (genCall (Arg1 i) (Arg2Val i) g)) s"
    by (simp add: gen exec_comment)
  from run_genCall_any [OF inblock vl vk vf]
  obtain s' where run: "exec symtab (fst (genCall (Arg1 i) (Arg2Val i) g)) s = Some s'"
    "jumped s' = Some vf" "RAM s' 1 = RAM s' 0"
    "RAM s' 2 = RAM s' 0 - word_of_int (wrap64 (5 + Arg2Val i))"
    by blast
  have r1: "exec symtab (fst (GenAsm i g)) s = Some s'" by (simp only: through run)
  have r2: "jumped s' = aValue symtab (''@'' @ Arg1 i)" using run(2) vf by simp
  have r3: "jumped s' \<noteq> None" using run(2) by simp
  have r5: "RAM s' 2 = RAM s' 0 - 5 - word_of_int (Arg2Val i)"
    using run(4) by (simp add: k)
  have r6: "frameCells (RAM s 0) \<inter> {0, 1, 2, 3, 4} = {} \<longrightarrow>
          RAM s' (RAM s 0) = resolve symtab (retAddrLabel g)
        \<and> RAM s' (RAM s 0 + 1) = RAM s 1
        \<and> RAM s' (RAM s 0 + 2) = RAM s 2
        \<and> RAM s' (RAM s 0 + 3) = RAM s 3
        \<and> RAM s' (RAM s 0 + 4) = RAM s 4
        \<and> RAM s' 0 = RAM s 0 + 5
        \<and> RAM s' 3 = RAM s 3
        \<and> RAM s' 4 = RAM s 4"
  proof
    assume "frameCells (RAM s 0) \<inter> {0, 1, 2, 3, 4} = {}"
    from run_genCall_frame [OF inblock vl vk vf this] run(1)
    show "RAM s' (RAM s 0) = resolve symtab (retAddrLabel g)
        \<and> RAM s' (RAM s 0 + 1) = RAM s 1
        \<and> RAM s' (RAM s 0 + 2) = RAM s 2
        \<and> RAM s' (RAM s 0 + 3) = RAM s 3
        \<and> RAM s' (RAM s 0 + 4) = RAM s 4
        \<and> RAM s' 0 = RAM s 0 + 5
        \<and> RAM s' 3 = RAM s 3
        \<and> RAM s' 4 = RAM s 4"
      by auto
  qed
  show ?thesis
    by (intro exI [where x = s'] conjI r1 r2 r3 lab r5 run(3) r6)
qed

text \<open>
  Claim C1 describes the block generated for every call command \<open>call f N\<close>: push a fresh
  return-address label, push the caller's \<open>LCL\<close>, \<open>ARG\<close>, \<open>THIS\<close>, \<open>THAT\<close>, set \<open>ARG\<close> to the
  stack pointer minus 5 minus \<open>N\<close>, set \<open>LCL\<close> to the stack pointer, jump to \<open>f\<close>, and declare
  the return-address label right after the jump, so that after the jump \<open>ARG\<close> is the stack
  pointer minus 5 minus \<open>N\<close>. What holds instead, for a parsed call command (its second
  token is \<open>f\<close>, its third the text of \<open>N\<close>): the block ends with \<open>@f\<close>, \<open>0;JMP\<close> and the
  declaration of the return-address label, which is built from the current function name
  and the generator's return index; the index moves on, and a label built with another
  index is another text. When the assembler accepts every line of the block, the block
  runs from every state and leaves through the jump to the address that \<open>@f\<close> loads, with
  \<open>ARG\<close> equal to the stack pointer minus 5 minus \<open>N\<close> and \<open>LCL\<close> equal to the stack pointer.
  When moreover none of the five cells from the caller's stack pointer \<open>sp\<close> on is one of
  the cells 0 to 4, these five cells hold the return address and the caller's \<open>LCL\<close>, \<open>ARG\<close>,
  \<open>THIS\<close>, \<open>THAT\<close>, in this order, the stack pointer is \<open>sp + 5\<close>, and \<open>THIS\<close> and \<open>THAT\<close> are
  unchanged.
\<close>

theorem call_builds_frame_and_jumps:
  assumes parsed: "parseInstruction index fileName line = Inr i"
    and kind: "CommandType i = CommandTypeCall"
    and valid: "validAsm (fst (GenAsm i g))"
    and inblock: "jumped s = None"
  shows "\<exists>c pre s'.
      Split line CHR '' '' = [c, Arg1 i, Arg2 i] \<and> ToLower c = ''call''
    \<and> (if Arg2 i = [] then Arg2Val i = 0 else Atoi (Arg2 i) = Some (Arg2Val i))
    \<and> fst (GenAsm i g) = pre @ [''@'' @ Arg1 i, ''0;JMP'', ''('' @ retAddrLabel g @ '')'']
    \<and> retIndex (snd (GenAsm i g)) = wrap64 (retIndex g + 1)
    \<and> retIndex (snd (GenAsm i g)) \<noteq> retIndex g
    \<and> (\<forall>g2. retIndex g2 \<noteq> retIndex g \<longrightarrow> retAddrLabel g2 \<noteq> retAddrLabel g)
    \<and> exec symtab (fst (GenAsm i g)) s = Some s'
    \<and> jumped s' = aValue symtab (''@'' @ Arg1 i)
    \<and> jumped s' \<noteq> None
    \<and> (isSymbol (Arg1 i) \<longrightarrow> jumped s' = Some (resolve symtab (Arg1 i)))
    \<and> RAM s' 2 = RAM s' 0 - 5 - word_of_int (Arg2Val i)
    \<and> RAM s' 1 = RAM s' 0
    \<and> (frameCells (RAM s 0) \<inter> {0, 1, 2, 3, 4} = {} \<longrightarrow>
          RAM s' (RAM s 0) = resolve symtab (retAddrLabel g)
        \<and> RAM s' (RAM s 0 + 1) = RAM s 1
        \<and> RAM s' (RAM s 0 + 2) = RAM s 2
        \<and> RAM s' (RAM s 0 + 3) = RAM s 3
        \<and> RAM s' (RAM s 0 + 4) = RAM s 4
        \<and> RAM s' 0 = RAM s 0 + 5
        \<and> RAM s' 3 = RAM s 3
        \<and> RAM s' 4 = RAM s 4)"
proof -
  from parse_call_tokens [OF parsed kind] obtain c where
    tok: "Split line CHR '' '' = [c, Arg1 i, Arg2 i]" "ToLower c = ''call''"
      "if Arg2 i = [] then Arg2Val i = 0 else Atoi (Arg2 i) = Some (Arg2Val i)"
    by blast
  have gen: "fst (GenAsm i g) = (''// '' @ Line i) # fst (genCall (Arg1 i) (Arg2Val i) g)"
    "snd (GenAsm i g) = snd (genCall (Arg1 i) (Arg2Val i) g)"
    using kind by (simp_all add: GenAsm_def split: prod.splits)
  from genCall_shape obtain pre where
    "fst (genCall (Arg1 i) (Arg2Val i) g)
       = pre @ [''@'' @ Arg1 i, ''0;JMP'', ''('' @ retAddrLabel g @ '')'']"
    by (rule exE)
  then have shape: "fst (GenAsm i g)
      = ((''// '' @ Line i) # pre) @ [''@'' @ Arg1 i, ''0;JMP'', ''('' @ retAddrLabel g @ '')'']"
    by (simp only: gen append_Cons)
  have next_index: "retIndex (snd (GenAsm i g)) = wrap64 (retIndex g + 1)"
    by (simp add: gen genCall_def)
  have moved: "retIndex (snd (GenAsm i g)) \<noteq> retIndex g"
    by (simp add: next_index wrap64_succ_neq)
  have fresh: "\<forall>g2. retIndex g2 \<noteq> retIndex g \<longrightarrow> retAddrLabel g2 \<noteq> retAddrLabel g"
    using retAddrLabel_index by blast
  from call_command_runs [OF kind valid inblock, of symtab]
  obtain s' where run: "exec symtab (fst (GenAsm i g)) s = Some s'
    \<and> jumped s' = aValue symtab (''@'' @ Arg1 i)
    \<and> jumped s' \<noteq> None
    \<and> isSymbol (retAddrLabel g)
    \<and> RAM s' 2 = RAM s' 0 - 5 - word_of_int (Arg2Val i)
    \<and> RAM s' 1 = RAM s' 0
    \<and> (frameCells (RAM s 0) \<inter> {0, 1, 2, 3, 4} = {} \<longrightarrow>
          RAM s' (RAM s 0) = resolve symtab (retAddrLabel g)
        \<and> RAM s' (RAM s 0 + 1) = RAM s 1
        \<and> RAM s' (RAM s 0 + 2) = RAM s 2
        \<and> RAM s' (RAM s 0 + 3) = RAM s 3
        \<and> RAM s' (RAM s 0 + 4) = RAM s 4
        \<and> RAM s' 0 = RAM s 0 + 5
        \<and> RAM s' 3 = RAM s 3
        \<and> RAM s' 4 = RAM s 4)"
    by (rule exE)
  then have r: "exec symtab (fst (GenAsm i g)) s = Some s'"
    "jumped s' = aValue symtab (''@'' @ Arg1 i)"
    "jumped s' \<noteq> None"
    "RAM s' 2 = RAM s' 0 - 5 - word_of_int (Arg2Val i)"
    "RAM s' 1 = RAM s' 0"
    "frameCells (RAM s 0) \<inter> {0, 1, 2, 3, 4} = {} \<longrightarrow>
          RAM s' (RAM s 0) = resolve symtab (retAddrLabel g)
        \<and> RAM s' (RAM s 0 + 1) = RAM s 1
        \<and> RAM s' (RAM s 0 + 2) = RAM s 2
        \<and> RAM s' (RAM s 0 + 3) = RAM s 3
        \<and> RAM s' (RAM s 0 + 4) = RAM s 4
        \<and> RAM s' 0 = RAM s 0 + 5
        \<and> RAM s' 3 = RAM s 3
        \<and> RAM s' 4 = RAM s 4"
    by - (elim conjE, assumption)+
  have r4: "isSymbol (Arg1 i) \<longrightarrow> jumped s' = Some (resolve symtab (Arg1 i))"
    using r(2) by (auto simp add: aValue_symbol)
  show ?thesis
    by (intro exI [where x = c] exI [where x = "(''// '' @ Line i) # pre"] exI [where x = s']
        conjI tok shape next_index moved fresh r(1-3) r4 r(4-6))
qed

lemma demo_facts:
  "jumped demo_state = None" "RAM demo_state 0 = 256" "RAM demo_state 1 = 300"
  "RAM demo_state 2 = 400" "RAM demo_state 3 = 3000" "RAM demo_state 4 = 3010"
  "isSymbol ''Main.f''" "isSymbol (currentFunctionName initial_gen_state)"
  "retIndex initial_gen_state = 1" "retAddrLabel initial_gen_state = ''LABEL$ret.1''"
  "resolve demo_symtab ''Main.f'' = 1000" "resolve demo_symtab ''LABEL$ret.1'' = 2000"
  by (simp_all add: demo_state_def initial_gen_state_def isSymbol_def isSymbolChar_def isDigit_def
      retAddrLabel_def showInt_def showNat.simps digitChar_def resolve_def predefined_def
      demo_symtab_def)

lemma demo_values:
  "aValue demo_symtab ''@LABEL$ret.1'' = Some 2000"
  "aValue demo_symtab ''@Main.f'' = Some 1000"
  "aValue symtab ''@3'' = Some 3"
  "aValue symtab ''@5'' = Some 5"
  "parseAsm ''@a-b'' = Invalid"
  "parseAsm ''@-1'' = Invalid"
  by (simp_all add: aValue_def parse_defs resolve_def predefined_def demo_symtab_def)

text \<open>
  The theorem at \<open>call Main.f 2\<close> in the demonstration state: with the stack pointer at
  256 the frame occupies cells 256 to 260, the stack pointer and \<open>LCL\<close> become 261 and
  \<open>ARG\<close> becomes 254.
\<close>

theorem call_builds_frame_and_jumps_witness:
  "\<exists>i. parseInstruction 4 ''Main'' ''call Main.f 2'' = Inr i
     \<and> CommandType i = CommandTypeCall
     \<and> validAsm (fst (GenAsm i initial_gen_state))
     \<and> jumped demo_state = None
     \<and> (\<exists>pre s'.
           fst (GenAsm i initial_gen_state) = pre @ [''@Main.f'', ''0;JMP'', ''(LABEL$ret.1)'']
         \<and> exec demo_symtab (fst (GenAsm i initial_gen_state)) demo_state = Some s'
         \<and> jumped s' = Some 1000
         \<and> RAM s' 256 = 2000 \<and> RAM s' 257 = 300 \<and> RAM s' 258 = 400
         \<and> RAM s' 259 = 3000 \<and> RAM s' 260 = 3010
         \<and> RAM s' 0 = 261 \<and> RAM s' 1 = 261 \<and> RAM s' 2 = 254)"
proof -
  let ?i = "\<lparr>FileName = ''Main'', Line = ''call Main.f 2'', CommandType = CommandTypeCall,
      Arg1 = ''Main.f'', SegmentType = SegmentTypeConstant, Arg2 = ''2'', Arg2Val = 2,
      ALType = ALTypeAdd, Index = 0\<rparr>"
  let ?g = initial_gen_state
  have p: "parseInstruction 4 ''Main'' ''call Main.f 2'' = Inr ?i"
    by (simp add: parser_defs Atoi_def isDigit_def readDec_def digitVal_def)
  have k: "CommandType ?i = CommandTypeCall" by simp
  have lab: "isSymbol (retAddrLabel ?g)"
    by (rule isSymbol_retAddrLabel) (simp_all add: demo_facts)
  have "validAsm (fst (genCall ''Main.f'' 2 ?g))"
    using demo_facts(7) lab by (rule call_block_valid) simp_all
  then have v: "validAsm (fst (GenAsm ?i ?g))"
    by (simp add: GenAsm_def validAsm_Cons parseAsm_comment case_prod_beta)
  have b: "jumped demo_state = None" by (simp add: demo_facts)
  let ?C = "\<lambda>c pre s'.
      Split ''call Main.f 2'' CHR '' '' = [c, Arg1 ?i, Arg2 ?i] \<and> ToLower c = ''call''
    \<and> (if Arg2 ?i = [] then Arg2Val ?i = 0 else Atoi (Arg2 ?i) = Some (Arg2Val ?i))
    \<and> fst (GenAsm ?i ?g) = pre @ [''@'' @ Arg1 ?i, ''0;JMP'', ''('' @ retAddrLabel ?g @ '')'']
    \<and> retIndex (snd (GenAsm ?i ?g)) = wrap64 (retIndex ?g + 1)
    \<and> retIndex (snd (GenAsm ?i ?g)) \<noteq> retIndex ?g
    \<and> (\<forall>g2. retIndex g2 \<noteq> retIndex ?g \<longrightarrow> retAddrLabel g2 \<noteq> retAddrLabel ?g)
    \<and> exec demo_symtab (fst (GenAsm ?i ?g)) demo_state = Some s'
    \<and> jumped s' = aValue demo_symtab (''@'' @ Arg1 ?i)
    \<and> jumped s' \<noteq> None
    \<and> (isSymbol (Arg1 ?i) \<longrightarrow> jumped s' = Some (resolve demo_symtab (Arg1 ?i)))
    \<and> RAM s' 2 = RAM s' 0 - 5 - word_of_int (Arg2Val ?i)
    \<and> RAM s' 1 = RAM s' 0
    \<and> (frameCells (RAM demo_state 0) \<inter> {0, 1, 2, 3, 4} = {} \<longrightarrow>
          RAM s' (RAM demo_state 0) = resolve demo_symtab (retAddrLabel ?g)
        \<and> RAM s' (RAM demo_state 0 + 1) = RAM demo_state 1
        \<and> RAM s' (RAM demo_state 0 + 2) = RAM demo_state 2
        \<and> RAM s' (RAM demo_state 0 + 3) = RAM demo_state 3
        \<and> RAM s' (RAM demo_state 0 + 4) = RAM demo_state 4
        \<and> RAM s' 0 = RAM demo_state 0 + 5
        \<and> RAM s' 3 = RAM demo_state 3
        \<and> RAM s' 4 = RAM demo_state 4)"
  from call_builds_frame_and_jumps [OF p k v b, of demo_symtab]
  obtain c where "\<exists>pre s'. ?C c pre s'" by (rule exE)
  then obtain pre where "\<exists>s'. ?C c pre s'" by (rule exE)
  then obtain s' where big: "?C c pre s'" by (rule exE)
  have clear: "frameCells (RAM demo_state 0) \<inter> {0, 1, 2, 3, 4} = {}"
    by (simp add: demo_facts frameCells_def)
  from big have c1: "fst (GenAsm ?i ?g) = pre @ [''@Main.f'', ''0;JMP'', ''(LABEL$ret.1)'']"
    by (simp add: demo_facts)
  from big have c2: "exec demo_symtab (fst (GenAsm ?i ?g)) demo_state = Some s'"
    by (elim conjE)
  from big clear have c:
      "jumped s' = Some 1000"
      "RAM s' 256 = 2000" "RAM s' 257 = 300" "RAM s' 258 = 400"
      "RAM s' 259 = 3000" "RAM s' 260 = 3010"
      "RAM s' 0 = 261" "RAM s' 1 = 261" "RAM s' 2 = 254"
    by (simp_all add: demo_facts demo_values)
  show ?thesis
    by (intro exI [where x = ?i] exI [where x = pre] exI [where x = s'] conjI p k v b c1 c2 c)
qed

text \<open>
  Claim C1 as it is written fails. The parser accepts \<open>call a-b 0\<close> and \<open>call Main.f -6\<close>,
  and the blocks generated for them contain \<open>@a-b\<close> and \<open>@-1\<close>, which are not instructions
  of the target machine: neither block runs to its jump. And the return-address label is
  fresh among the labels of calls only: a program that has \<open>label LABEL$ret.1\<close> after its
  first call declares \<open>(LABEL$ret.1)\<close> twice.
\<close>

theorem call_block_not_executable_counterexample:
  "parseInstruction 0 ''Main'' ''call a-b 0''
     = Inr \<lparr>FileName = ''Main'', Line = ''call a-b 0'', CommandType = CommandTypeCall,
            Arg1 = ''a-b'', SegmentType = SegmentTypeConstant, Arg2 = ''0'',
            Arg2Val = 0, ALType = ALTypeAdd, Index = 0\<rparr>
   \<and> exec demo_symtab
        (fst (GenAsm \<lparr>FileName = ''Main'', Line = ''call a-b 0'', CommandType = CommandTypeCall,
            Arg1 = ''a-b'', SegmentType = SegmentTypeConstant, Arg2 = ''0'',
            Arg2Val = 0, ALType = ALTypeAdd, Index = 0\<rparr> initial_gen_state))
        demo_state = None
   \<and> parseInstruction 0 ''Main'' ''call Main.f -6''
     = Inr \<lparr>FileName = ''Main'', Line = ''call Main.f -6'', CommandType = CommandTypeCall,
            Arg1 = ''Main.f'', SegmentType = SegmentTypeConstant, Arg2 = ''-6'',
            Arg2Val = - 6, ALType = ALTypeAdd, Index = 0\<rparr>
   \<and> exec demo_symtab
        (fst (GenAsm \<lparr>FileName = ''Main'', Line = ''call Main.f -6'', CommandType = CommandTypeCall,
            Arg1 = ''Main.f'', SegmentType = SegmentTypeConstant, Arg2 = ''-6'',
            Arg2Val = - 6, ALType = ALTypeAdd, Index = 0\<rparr> initial_gen_state))
        demo_state = None
   \<and> writtenLabels (translate [\<lparr>fname = ''Main.vm'',
          flines = [''call Main.f 0'', ''label LABEL$ret.1'']\<rparr>])
     = [''(LABEL$ret.1)'', ''(LABEL$ret.1)'']"
proof -
  have sh: "showInt 5 = ''5''" "showInt (- 1) = ''-1''" "showInt 1 = ''1''"
    by (simp_all add: showInt_def showNat.simps digitChar_def)
  have w: "wrap64 5 = 5" "wrap64 (- 1) = - 1" by (simp_all add: wrap64_def)
  have p1: "parseInstruction 0 ''Main'' ''call a-b 0''
     = Inr \<lparr>FileName = ''Main'', Line = ''call a-b 0'', CommandType = CommandTypeCall,
            Arg1 = ''a-b'', SegmentType = SegmentTypeConstant, Arg2 = ''0'',
            Arg2Val = 0, ALType = ALTypeAdd, Index = 0\<rparr>"
    by (simp add: parser_defs Atoi_def isDigit_def readDec_def digitVal_def)
  have p2: "parseInstruction 0 ''Main'' ''call Main.f -6''
     = Inr \<lparr>FileName = ''Main'', Line = ''call Main.f -6'', CommandType = CommandTypeCall,
            Arg1 = ''Main.f'', SegmentType = SegmentTypeConstant, Arg2 = ''-6'',
            Arg2Val = - 6, ALType = ALTypeAdd, Index = 0\<rparr>"
    by (simp add: parser_defs Atoi_def isDigit_def readDec_def digitVal_def)
  have e1: "exec demo_symtab
        (fst (GenAsm \<lparr>FileName = ''Main'', Line = ''call a-b 0'', CommandType = CommandTypeCall,
            Arg1 = ''a-b'', SegmentType = SegmentTypeConstant, Arg2 = ''0'',
            Arg2Val = 0, ALType = ALTypeAdd, Index = 0\<rparr> initial_gen_state))
        demo_state = None"
    by (simp add: GenAsm_def genCall_def callPushSegment_def retAddrLabel_def
        initial_gen_state_def sh w demo_state_def exec_comment exec_step exec_A exec_invalid
        demo_values)
  have e2: "exec demo_symtab
        (fst (GenAsm \<lparr>FileName = ''Main'', Line = ''call Main.f -6'', CommandType = CommandTypeCall,
            Arg1 = ''Main.f'', SegmentType = SegmentTypeConstant, Arg2 = ''-6'',
            Arg2Val = - 6, ALType = ALTypeAdd, Index = 0\<rparr> initial_gen_state))
        demo_state = None"
    by (simp add: GenAsm_def genCall_def callPushSegment_def retAddrLabel_def
        initial_gen_state_def sh w demo_state_def exec_comment exec_step exec_A exec_invalid
        demo_values)
  have l: "writtenLabels (translate [\<lparr>fname = ''Main.vm'',
          flines = [''call Main.f 0'', ''label LABEL$ret.1'']\<rparr>])
     = [''(LABEL$ret.1)'', ''(LABEL$ret.1)'']"
    by code_simp
  show ?thesis by (intro conjI p1 e1 p2 e2 l)
qed

subsection \<open>Return\<close>

text \<open>
  Claim C2 says that the block generated for every \<open>return\<close> command takes \<open>LCL\<close> as the
  frame pointer, reads the return address from 5 cells below it, writes the top of the
  stack into the cell \<open>ARG\<close> points to, sets the stack pointer to \<open>ARG + 1\<close>, restores
  \<open>THAT\<close>, \<open>THIS\<close>, \<open>ARG\<close>, \<open>LCL\<close> from 1 to 4 cells below the frame pointer and jumps to the
  return address, which leaves the stack pointer one past the return value and the four
  registers at their values from before the call. What holds instead is stated for a
  parsed \<open>return\<close> command that ends a call made by a parsed call command \<open>call f N\<close> whose
  block the assembler accepts. The call is run from a state \<open>s0\<close> with stack pointer \<open>sp\<close>,
  where none of the five frame cells is one of the cells 0 to 4 and 13, none of the four
  cells of the saved pointers is cell 14, and the cell \<open>sp - N\<close>, which \<open>ARG\<close> will point
  to, is none of the cells 0 to 4, 13 and 14 and none of the four cells of the saved
  pointers (which rules out the counts -1 to -4). The callee's state \<open>s2\<close> has
  \<open>LCL\<close>, \<open>ARG\<close> and the five frame cells as the call left them, and the top of its stack is not
  in cell 13 or 14. Then the block of the return does what the claim says: it leaves
  through a jump to the return-address label of the call, the cell \<open>sp - N\<close> holds the
  callee's top of stack, the stack pointer is \<open>sp - N + 1\<close>, one past that cell, and
  \<open>LCL\<close>, \<open>ARG\<close>, \<open>THIS\<close>, \<open>THAT\<close> are those of \<open>s0\<close>. With \<open>N = 0\<close> the return value
  overwrites the cell that held the return address, which was read before.
\<close>

theorem return_restores_caller:
  assumes cparsed: "parseInstruction cindex cfile cline = Inr ci"
    and ckind: "CommandType ci = CommandTypeCall"
    and cvalid: "validAsm (fst (GenAsm ci g))"
    and rparsed: "parseInstruction rindex rfile rline = Inr ri"
    and rkind: "CommandType ri = CommandTypeReturn"
    and s0: "jumped s0 = None"
    and clear: "frameCells (RAM s0 0) \<inter> {0, 1, 2, 3, 4, 13} = {}"
      "14 \<notin> savedCells (RAM s0 0)"
    and argc: "RAM s0 0 - word_of_int (Arg2Val ci)
        \<notin> {0, 1, 2, 3, 4, 13, 14} \<union> savedCells (RAM s0 0)"
    and call: "exec symtab (fst (GenAsm ci g)) s0 = Some s1"
    and s2: "jumped s2 = None"
    and regs: "RAM s2 1 = RAM s1 1" "RAM s2 2 = RAM s1 2"
    and kept: "\<forall>a \<in> frameCells (RAM s0 0). RAM s2 a = RAM s1 a"
    and top: "RAM s2 0 - 1 \<notin> {13, 14}"
  shows "\<exists>s3. exec symtab (fst (GenAsm ri g')) s2 = Some s3
     \<and> jumped s3 = Some (RAM s2 (RAM s2 1 - 5))
     \<and> RAM s3 (RAM s2 2) = RAM s2 (RAM s2 0 - 1)
     \<and> RAM s3 0 = RAM s2 2 + 1
     \<and> RAM s3 4 = RAM s2 (RAM s2 1 - 1)
     \<and> RAM s3 3 = RAM s2 (RAM s2 1 - 2)
     \<and> RAM s3 2 = RAM s2 (RAM s2 1 - 3)
     \<and> RAM s3 1 = RAM s2 (RAM s2 1 - 4)
     \<and> jumped s3 = Some (resolve symtab (retAddrLabel g))
     \<and> RAM s3 1 = RAM s0 1 \<and> RAM s3 2 = RAM s0 2
     \<and> RAM s3 3 = RAM s0 3 \<and> RAM s3 4 = RAM s0 4
     \<and> RAM s3 0 = RAM s0 0 - word_of_int (Arg2Val ci) + 1
     \<and> RAM s3 (RAM s3 0 - 1) = RAM s2 (RAM s2 0 - 1)"
proof -
  from clear(1) have cl: "frameCells (RAM s0 0) \<inter> {0, 1, 2, 3, 4} = {}" by auto
  from call_command_runs [OF ckind cvalid s0, of symtab] call cl
  have c: "RAM s1 (RAM s0 0) = resolve symtab (retAddrLabel g)"
    "RAM s1 (RAM s0 0 + 1) = RAM s0 1" "RAM s1 (RAM s0 0 + 2) = RAM s0 2"
    "RAM s1 (RAM s0 0 + 3) = RAM s0 3" "RAM s1 (RAM s0 0 + 4) = RAM s0 4"
    "RAM s1 0 = RAM s0 0 + 5" "RAM s1 1 = RAM s1 0"
    "RAM s1 2 = RAM s1 0 - 5 - word_of_int (Arg2Val ci)"
    by auto
  have lcl: "RAM s2 1 = RAM s0 0 + 5"
    and arg: "RAM s2 2 = RAM s0 0 - word_of_int (Arg2Val ci)"
    using regs c by simp_all
  from kept have frame: "RAM s2 (RAM s0 0) = RAM s1 (RAM s0 0)"
    "RAM s2 (RAM s0 0 + 1) = RAM s1 (RAM s0 0 + 1)"
    "RAM s2 (RAM s0 0 + 2) = RAM s1 (RAM s0 0 + 2)"
    "RAM s2 (RAM s0 0 + 3) = RAM s1 (RAM s0 0 + 3)"
    "RAM s2 (RAM s0 0 + 4) = RAM s1 (RAM s0 0 + 4)"
    by (simp_all add: frameCells_def)
  have a: "RAM s2 1 - 5 = RAM s0 0" "RAM s2 1 - 4 = RAM s0 0 + 1" "RAM s2 1 - 3 = RAM s0 0 + 2"
    "RAM s2 1 - 2 = RAM s0 0 + 3" "RAM s2 1 - 1 = RAM s0 0 + 4"
    by (simp_all add: lcl)
  have f1: "{RAM s2 1 - 5, RAM s2 1 - 4, RAM s2 1 - 3, RAM s2 1 - 2, RAM s2 1 - 1}
        \<inter> {0, 1, 2, 3, 4, 13} = {}"
    using clear(1) unfolding a frameCells_def .
  have f2: "14 \<notin> {RAM s2 1 - 4, RAM s2 1 - 3, RAM s2 1 - 2, RAM s2 1 - 1}"
    using clear(2) unfolding a savedCells_def .
  have f3: "RAM s2 2 \<notin> {0, 1, 2, 3, 4, 13, 14}
        \<union> {RAM s2 1 - 4, RAM s2 1 - 3, RAM s2 1 - 2, RAM s2 1 - 1}"
    using argc unfolding a arg savedCells_def .
  have gen: "fst (GenAsm ri g') = (''// '' @ Line ri) # genReturn ri"
    using rkind by (simp add: GenAsm_def)
  have through: "exec symtab (fst (GenAsm ri g')) s2 = exec symtab (genReturn ri) s2"
    by (simp add: gen exec_comment)
  from run_genReturn [OF s2 f1 f2 f3 top, of symtab ri]
  obtain s3 where r: "exec symtab (genReturn ri) s2 = Some s3
           \<and> jumped s3 = Some (RAM s2 (RAM s2 1 - 5))
           \<and> RAM s3 (RAM s2 2) = RAM s2 (RAM s2 0 - 1)
           \<and> RAM s3 0 = RAM s2 2 + 1
           \<and> RAM s3 4 = RAM s2 (RAM s2 1 - 1)
           \<and> RAM s3 3 = RAM s2 (RAM s2 1 - 2)
           \<and> RAM s3 2 = RAM s2 (RAM s2 1 - 3)
           \<and> RAM s3 1 = RAM s2 (RAM s2 1 - 4)"
    by (rule exE)
  then have r0: "exec symtab (fst (GenAsm ri g')) s2 = Some s3"
    by (simp only: through)
  from r have r1:
    "jumped s3 = Some (RAM s2 (RAM s2 1 - 5))"
    "RAM s3 (RAM s2 2) = RAM s2 (RAM s2 0 - 1)"
    "RAM s3 0 = RAM s2 2 + 1"
    "RAM s3 4 = RAM s2 (RAM s2 1 - 1)"
    "RAM s3 3 = RAM s2 (RAM s2 1 - 2)"
    "RAM s3 2 = RAM s2 (RAM s2 1 - 3)"
    "RAM s3 1 = RAM s2 (RAM s2 1 - 4)"
    by simp_all
  have r2: "jumped s3 = Some (resolve symtab (retAddrLabel g))"
    "RAM s3 1 = RAM s0 1" "RAM s3 2 = RAM s0 2" "RAM s3 3 = RAM s0 3" "RAM s3 4 = RAM s0 4"
    "RAM s3 0 = RAM s0 0 - word_of_int (Arg2Val ci) + 1"
    by (simp_all only: r1 a frame c arg)
  have r3: "RAM s3 (RAM s3 0 - 1) = RAM s2 (RAM s2 0 - 1)"
    using r1(2) by (simp add: r1(3))
  show ?thesis
    by (intro exI [where x = s3] conjI r0 r1 r2 r3)
qed

text \<open>
  The theorem at \<open>call Main.f 2\<close> from the demonstration state, with a callee that pushes
  the value 42 and returns: 42 lands in cell 254, the stack pointer is 255 and the four
  registers are 300, 400, 3000 and 3010 again.
\<close>

theorem return_restores_caller_witness:
  "\<exists>ci ri s1 s3.
      parseInstruction 4 ''Main'' ''call Main.f 2'' = Inr ci
    \<and> CommandType ci = CommandTypeCall
    \<and> validAsm (fst (GenAsm ci initial_gen_state))
    \<and> parseInstruction 9 ''Main'' ''return'' = Inr ri
    \<and> CommandType ri = CommandTypeReturn
    \<and> jumped demo_state = None
    \<and> frameCells (RAM demo_state 0) \<inter> {0, 1, 2, 3, 4, 13} = {}
    \<and> 14 \<notin> savedCells (RAM demo_state 0)
    \<and> RAM demo_state 0 - word_of_int (Arg2Val ci)
         \<notin> {0, 1, 2, 3, 4, 13, 14} \<union> savedCells (RAM demo_state 0)
    \<and> exec demo_symtab (fst (GenAsm ci initial_gen_state)) demo_state = Some s1
    \<and> RAM (calleePushes 42 s1) 0 - 1 \<notin> {13, 14}
    \<and> exec demo_symtab (fst (GenAsm ri (snd (GenAsm ci initial_gen_state))))
          (calleePushes 42 s1) = Some s3
    \<and> jumped s3 = Some 2000
    \<and> RAM s3 254 = 42 \<and> RAM s3 0 = 255
    \<and> RAM s3 1 = 300 \<and> RAM s3 2 = 400 \<and> RAM s3 3 = 3000 \<and> RAM s3 4 = 3010"
proof -
  let ?ci = "\<lparr>FileName = ''Main'', Line = ''call Main.f 2'', CommandType = CommandTypeCall,
      Arg1 = ''Main.f'', SegmentType = SegmentTypeConstant, Arg2 = ''2'', Arg2Val = 2,
      ALType = ALTypeAdd, Index = 0\<rparr>"
  let ?ri = "\<lparr>FileName = ''Main'', Line = ''return'', CommandType = CommandTypeReturn,
      Arg1 = '''', SegmentType = SegmentTypeConstant, Arg2 = '''', Arg2Val = 0,
      ALType = ALTypeAdd, Index = 0\<rparr>"
  let ?g = initial_gen_state
  let ?g' = "snd (GenAsm ?ci ?g)"
  have p: "parseInstruction 4 ''Main'' ''call Main.f 2'' = Inr ?ci"
    by (simp add: parser_defs Atoi_def isDigit_def readDec_def digitVal_def)
  have k: "CommandType ?ci = CommandTypeCall" by simp
  have pr: "parseInstruction 9 ''Main'' ''return'' = Inr ?ri" by (simp add: parser_defs)
  have kr: "CommandType ?ri = CommandTypeReturn" by simp
  have lab: "isSymbol (retAddrLabel ?g)"
    by (rule isSymbol_retAddrLabel) (simp_all add: demo_facts)
  have "validAsm (fst (genCall ''Main.f'' 2 ?g))"
    using demo_facts(7) lab by (rule call_block_valid) simp_all
  then have v: "validAsm (fst (GenAsm ?ci ?g))"
    by (simp add: GenAsm_def validAsm_Cons parseAsm_comment case_prod_beta)
  have b: "jumped demo_state = None" by (simp add: demo_facts)
  have cl: "frameCells (RAM demo_state 0) \<inter> {0, 1, 2, 3, 4, 13} = {}"
    "14 \<notin> savedCells (RAM demo_state 0)"
    "RAM demo_state 0 - word_of_int (Arg2Val ?ci)
         \<notin> {0, 1, 2, 3, 4, 13, 14} \<union> savedCells (RAM demo_state 0)"
    by (simp_all add: demo_facts frameCells_def savedCells_def)
  have cl0: "frameCells (RAM demo_state 0) \<inter> {0, 1, 2, 3, 4} = {}"
    by (simp add: demo_facts frameCells_def)
  from call_command_runs [OF k v b, of demo_symtab] cl0
  obtain s1 where call: "exec demo_symtab (fst (GenAsm ?ci ?g)) demo_state = Some s1"
    and s1: "RAM s1 0 = RAM demo_state 0 + 5" "RAM s1 1 = RAM s1 0"
      "RAM s1 2 = RAM s1 0 - 5 - word_of_int (Arg2Val ?ci)"
    by auto
  define s2 where "s2 = calleePushes 42 s1"
  have s1v: "RAM s1 0 = 261" "RAM s1 1 = 261" "RAM s1 2 = 254"
    using s1 by (simp_all add: demo_facts)
  have q: "jumped s2 = None" "RAM s2 1 = RAM s1 1" "RAM s2 2 = RAM s1 2"
    by (simp_all add: s2_def calleePushes_def s1v)
  have kept: "\<forall>a \<in> frameCells (RAM demo_state 0). RAM s2 a = RAM s1 a"
    by (simp add: s2_def calleePushes_def s1v demo_facts frameCells_def)
  have top: "RAM s2 0 - 1 \<notin> {13, 14}"
    by (simp add: s2_def calleePushes_def s1v)
  have val: "RAM s2 (RAM s2 0 - 1) = 42" "RAM s2 2 = 254"
    by (simp_all add: s2_def calleePushes_def s1v)
  from return_restores_caller [OF p k v pr kr b cl call q kept top, of ?g']
  obtain s3 where r: "exec demo_symtab (fst (GenAsm ?ri ?g')) s2 = Some s3
     \<and> jumped s3 = Some (RAM s2 (RAM s2 1 - 5))
     \<and> RAM s3 (RAM s2 2) = RAM s2 (RAM s2 0 - 1)
     \<and> RAM s3 0 = RAM s2 2 + 1
     \<and> RAM s3 4 = RAM s2 (RAM s2 1 - 1)
     \<and> RAM s3 3 = RAM s2 (RAM s2 1 - 2)
     \<and> RAM s3 2 = RAM s2 (RAM s2 1 - 3)
     \<and> RAM s3 1 = RAM s2 (RAM s2 1 - 4)
     \<and> jumped s3 = Some (resolve demo_symtab (retAddrLabel ?g))
     \<and> RAM s3 1 = RAM demo_state 1 \<and> RAM s3 2 = RAM demo_state 2
     \<and> RAM s3 3 = RAM demo_state 3 \<and> RAM s3 4 = RAM demo_state 4
     \<and> RAM s3 0 = RAM demo_state 0 - word_of_int (Arg2Val ?ci) + 1
     \<and> RAM s3 (RAM s3 0 - 1) = RAM s2 (RAM s2 0 - 1)"
    by (rule exE)
  then have raw: "exec demo_symtab (fst (GenAsm ?ri ?g')) s2 = Some s3"
    "jumped s3 = Some (resolve demo_symtab (retAddrLabel ?g))"
    "RAM s3 (RAM s2 2) = RAM s2 (RAM s2 0 - 1)"
    "RAM s3 0 = RAM demo_state 0 - word_of_int (Arg2Val ?ci) + 1"
    "RAM s3 1 = RAM demo_state 1" "RAM s3 2 = RAM demo_state 2"
    "RAM s3 3 = RAM demo_state 3" "RAM s3 4 = RAM demo_state 4"
    by - (elim conjE, assumption)+
  have f: "exec demo_symtab (fst (GenAsm ?ri ?g')) (calleePushes 42 s1) = Some s3"
    "jumped s3 = Some 2000" "RAM s3 254 = 42" "RAM s3 0 = 255"
    "RAM s3 1 = 300" "RAM s3 2 = 400" "RAM s3 3 = 3000" "RAM s3 4 = 3010"
    using raw(1) raw(2) raw(3) [unfolded val] raw(4-8)
    by (simp_all add: demo_facts s2_def)
  note top' = top [unfolded s2_def]
  show ?thesis
    by (intro exI [where x = ?ci] exI [where x = ?ri] exI [where x = s1] exI [where x = s3]
        conjI p k v pr kr b cl call top' f)
qed

text \<open>
  Claim C2 as it is written fails. The parser accepts \<open>call Main.f -2\<close>; its block sets
  \<open>ARG\<close> to the cell that holds the caller's saved \<open>ARG\<close>, so the return value 42 overwrites
  the saved 400 before \<open>ARG\<close> is restored from it, and \<open>ARG\<close> ends at 42. And where the
  frame overlaps the cells 13 and 14 that the block of the return uses, the saved values
  are lost: after \<open>call Main.f 0\<close> with the stack pointer at 12, the return leaves \<open>LCL\<close> at
  13 and \<open>ARG\<close> at 2000, not at 300 and 400.
\<close>

theorem return_after_call_with_negative_count_counterexample:
  "RAM demo_state 1 = 300 \<and> RAM demo_state 2 = 400
   \<and> callThenReturn demo_symtab ''call Main.f -2'' 42 demo_state \<noteq> None
   \<and> RAM (the (callThenReturn demo_symtab ''call Main.f -2'' 42 demo_state)) 2 = 42
   \<and> RAM (demo_state_sp 12) 1 = 300 \<and> RAM (demo_state_sp 12) 2 = 400
   \<and> callThenReturn demo_symtab ''call Main.f 0'' 42 (demo_state_sp 12) \<noteq> None
   \<and> RAM (the (callThenReturn demo_symtab ''call Main.f 0'' 42 (demo_state_sp 12))) 1 = 13
   \<and> RAM (the (callThenReturn demo_symtab ''call Main.f 0'' 42 (demo_state_sp 12))) 2 = 2000"
proof -
  have sh: "showInt 3 = ''3''" "showInt 1 = ''1''" "showInt 5 = ''5''"
    by (simp_all add: showInt_def showNat.simps digitChar_def)
  have w: "wrap64 3 = 3" "wrap64 2 = 2" "wrap64 5 = 5" by (simp_all add: wrap64_def)
  have p1: "parseInstruction 0 ''Main'' ''call Main.f -2''
     = Inr \<lparr>FileName = ''Main'', Line = ''call Main.f -2'', CommandType = CommandTypeCall,
            Arg1 = ''Main.f'', SegmentType = SegmentTypeConstant, Arg2 = ''-2'',
            Arg2Val = - 2, ALType = ALTypeAdd, Index = 0\<rparr>"
    by (simp add: parser_defs Atoi_def isDigit_def readDec_def digitVal_def)
  have p2: "parseInstruction 1 ''Main'' ''return''
     = Inr \<lparr>FileName = ''Main'', Line = ''return'', CommandType = CommandTypeReturn,
            Arg1 = '''', SegmentType = SegmentTypeConstant, Arg2 = '''',
            Arg2Val = 0, ALType = ALTypeAdd, Index = 0\<rparr>"
    by (simp add: parser_defs)
  have p3: "parseInstruction 0 ''Main'' ''call Main.f 0''
     = Inr \<lparr>FileName = ''Main'', Line = ''call Main.f 0'', CommandType = CommandTypeCall,
            Arg1 = ''Main.f'', SegmentType = SegmentTypeConstant, Arg2 = ''0'',
            Arg2Val = 0, ALType = ALTypeAdd, Index = 0\<rparr>"
    by (simp add: parser_defs Atoi_def isDigit_def readDec_def digitVal_def)
  have one: "\<exists>s3. callThenReturn demo_symtab ''call Main.f -2'' 42 demo_state = Some s3
      \<and> RAM s3 2 = 42"
    by (simp add: callThenReturn_def p1 p2 GenAsm_def genCall_def callPushSegment_def
        retAddrLabel_def initial_gen_state_def sh w demo_state_def exec_comment exec_step exec_A
        demo_values calleePushes_def genReturn_def returnRestoreSegment_def)
  have two: "\<exists>s3. callThenReturn demo_symtab ''call Main.f 0'' 42 (demo_state_sp 12) = Some s3
      \<and> RAM s3 1 = 13 \<and> RAM s3 2 = 2000"
    by (simp add: callThenReturn_def p3 p2 GenAsm_def genCall_def callPushSegment_def
        retAddrLabel_def initial_gen_state_def sh w demo_state_sp_def demo_state_def
        exec_comment exec_step exec_A demo_values calleePushes_def genReturn_def
        returnRestoreSegment_def)
  from one two show ?thesis by (auto simp add: demo_state_sp_def demo_state_def)
qed

section \<open>The entry point and the order of the modules\<close>

text \<open>
  The first loop of \<open>main\<close> takes as the file with the entry point the first file that has
  a line which does not start with \<open>//\<close>, is not blank and contains the text
  \<open>function Sys.init 0\<close>. With several files and no such file the run ends with exit code 1
  before anything is written; with such a file, what is written starts with the bootstrap
  lines and the block of \<open>call Sys.init 0\<close>, and that file is read last.
\<close>

lemma findSysInit_first:
  assumes "k < length fs" "scanForSysInit (flines (fs ! k))"
    and "\<forall>j<k. \<not> scanForSysInit (flines (fs ! j))"
  shows "findSysInit fs = Some k"
  using assms
proof (induction fs arbitrary: k)
  case Nil
  then show ?case by simp
next
  case (Cons f fs)
  show ?case
  proof (cases k)
    case 0
    with Cons.prems show ?thesis by simp
  next
    case (Suc k')
    with Cons.prems have first: "\<not> scanForSysInit (flines f)" by auto
    from Suc Cons.prems have "findSysInit fs = Some k'"
      by (intro Cons.IH) auto
    with first Suc show ?thesis by simp
  qed
qed

lemma findSysInit_none:
  assumes "\<forall>j<length fs. \<not> scanForSysInit (flines (fs ! j))"
  shows "findSysInit fs = None"
  using assms
proof (induction fs)
  case Nil
  then show ?case by simp
next
  case (Cons f fs)
  from Cons.prems have "\<not> scanForSysInit (flines f)" by auto
  moreover from Cons.prems have "\<forall>j<length fs. \<not> scanForSysInit (flines (fs ! j))" by auto
  ultimately show ?case using Cons.IH by simp
qed

lemma translate_with_entry_file:
  assumes found: "findSysInit srcFiles = Some k" and several: "length srcFiles > 1"
    and lines: "concat (map readInstructions (scanOrder srcFiles (Some k))) \<noteq> []"
    and parsed: "genAll 0 (concat (map readInstructions (scanOrder srcFiles (Some k))))
           (snd (genCall ''Sys.init'' 0 initial_gen_state)) = Inr (asm, g)"
  shows "translate srcFiles
     = Written (bootstrapHeader @ fst (genCall ''Sys.init'' 0 initial_gen_state) @ asm)"
proof -
  from several have ne: "srcFiles \<noteq> []" by auto
  show ?thesis
    using found several lines parsed ne
    by (simp add: translate_def Let_def case_prod_beta)
qed

lemma scanOrder_entry_file_last:
  "scanOrder srcFiles (Some k)
     = map (\<lambda>j. srcFiles ! j) (filter (\<lambda>j. j \<noteq> k) [0 ..< length srcFiles]) @ [srcFiles ! k]"
  by (simp add: scanOrder_def)

lemma translate_without_entry_file:
  assumes "length srcFiles > 1" "\<forall>j<length srcFiles. \<not> scanForSysInit (flines (srcFiles ! j))"
  shows "translate srcFiles = Exit 1 ''Sys.init not found in any source file''"
  using assms(1) findSysInit_none [OF assms(2)] by (simp add: translate_def)

text \<open>
  Claim C4 says that for several modules of which exactly one contains the line
  \<open>function Sys.init 0\<close>, the output begins with the bootstrap and the module that contains
  the declaration of the entry point is the last one read and emitted. The code's comments
  say the same (\<open>we need to scan the file with Sys.init last\<close>), but the search looks at
  the raw line, comment at its end included, where the second pass strips such comments
  before it reads a line. So with the module \<open>Lib\<close>, whose only line is a push followed by a
  comment that mentions \<open>function Sys.init 0\<close>, given before the module \<open>Sys\<close>, which
  declares the entry point, \<open>Lib\<close> is taken for the file with the entry point: \<open>Sys\<close> is
  read and emitted first and \<open>Lib\<close> last.
\<close>

theorem entry_point_module_not_scanned_last:
  "findSysInit
     [\<lparr>fname = ''Lib.vm'', flines = [''push constant 7 // for function Sys.init 0'']\<rparr>,
      \<lparr>fname = ''Sys.vm'', flines = [''function Sys.init 0'']\<rparr>] = Some 0
   \<and> scanOrder
     [\<lparr>fname = ''Lib.vm'', flines = [''push constant 7 // for function Sys.init 0'']\<rparr>,
      \<lparr>fname = ''Sys.vm'', flines = [''function Sys.init 0'']\<rparr>] (Some 0)
     = [\<lparr>fname = ''Sys.vm'', flines = [''function Sys.init 0'']\<rparr>,
        \<lparr>fname = ''Lib.vm'', flines = [''push constant 7 // for function Sys.init 0'']\<rparr>]
   \<and> translate
     [\<lparr>fname = ''Lib.vm'', flines = [''push constant 7 // for function Sys.init 0'']\<rparr>,
      \<lparr>fname = ''Sys.vm'', flines = [''function Sys.init 0'']\<rparr>]
     = Written (bootstrapHeader @ fst (genCall ''Sys.init'' 0 initial_gen_state)
         @ [''// function Sys.init 0'', ''(Sys.init)'',
            ''// push constant 7'', ''@7'', ''D=A'', ''@SP'', ''AM=M+1'', ''A=A-1'', ''M=D''])"
  by code_simp

end
